(* ===== verification/Prelude.thy ===== *)
theory Prelude
  imports Complex_Main "HOL-Library.AList" "HOL-Library.Word"
begin

text \<open>
  Shared vocabulary of the development: the fact collections that the component theories
  fill, Python dictionaries and sets, and the exceptions the daemon's code raises.

  A Python \<open>dict\<close> iterates in insertion order, an assignment to a present key keeps its
  position and a new key goes to the end: that is an association list under
  \<^const>\<open>AList.update\<close> and \<^const>\<open>AList.delete\<close>. A Python \<open>set\<close> is a
  list without duplicates (its iteration order is never relied on).
\<close>

named_theorems py_simps \<open>unfolding equations of the Python layer\<close>
named_theorems dict_simps \<open>laws of dictionaries\<close>
named_theorems frame_simps \<open>what an operation leaves unchanged\<close>
named_theorems event_simps \<open>fields of the messages the daemon sends\<close>

section \<open>Dictionaries\<close>

type_synonym ('k, 'v) dict = "('k \<times> 'v) list"

definition dict_get :: "('k, 'v) dict \<Rightarrow> 'k \<Rightarrow> 'v option" where
  "dict_get d k = map_of d k"

definition dict_set :: "'k \<Rightarrow> 'v \<Rightarrow> ('k, 'v) dict \<Rightarrow> ('k, 'v) dict" where
  "dict_set k v d = AList.update k v d"

text \<open>\<open>d.pop(k, None)\<close> as a statement: the entry goes, a missing key is no error.\<close>

definition dict_pop :: "'k \<Rightarrow> ('k, 'v) dict \<Rightarrow> ('k, 'v) dict" where
  "dict_pop k d = AList.delete k d"

definition dict_keys :: "('k, 'v) dict \<Rightarrow> 'k list" where
  "dict_keys d = map fst d"

definition dict_values :: "('k, 'v) dict \<Rightarrow> 'v list" where
  "dict_values d = map snd d"

definition dict_ok :: "('k, 'v) dict \<Rightarrow> bool" where
  "dict_ok d \<longleftrightarrow> distinct (map fst d)"

text \<open>The mapping interface that the components program against.\<close>

locale py_mapping =
  fixes get :: "'m \<Rightarrow> 'k \<Rightarrow> 'v option"
    and put :: "'k \<Rightarrow> 'v \<Rightarrow> 'm \<Rightarrow> 'm"
    and pop :: "'k \<Rightarrow> 'm \<Rightarrow> 'm"
    and empty :: 'm
    and ok :: "'m \<Rightarrow> bool"
  assumes get_empty: "get empty k = None"
    and get_put: "get (put k v m) k' = (if k' = k then Some v else get m k')"
    and get_pop: "get (pop k m) k' = (if k' = k then None else get m k')"
    and ok_empty: "ok empty"
    and ok_put: "ok m \<Longrightarrow> ok (put k v m)"
    and ok_pop: "ok m \<Longrightarrow> ok (pop k m)"
begin

lemma get_put_same: "get (put k v m) k = Some v"
  by (simp add: get_put)

lemma get_pop_same: "get (pop k m) k = None"
  by (simp add: get_pop)

lemma get_pop_put: "get (pop k (put k v m)) k' = (if k' = k then None else get m k')"
  by (simp add: get_put get_pop)

lemma get_put_neq: "k' \<noteq> k \<Longrightarrow> get (put k v m) k' = get m k'"
  by (simp add: get_put)

lemma get_pop_neq: "k' \<noteq> k \<Longrightarrow> get (pop k m) k' = get m k'"
  by (simp add: get_pop)

lemma get_pop_SomeD: "get (pop k m) k' = Some v \<Longrightarrow> k' \<noteq> k \<and> get m k' = Some v"
  by (simp add: get_pop split: if_splits)

end

interpretation dict: py_mapping dict_get dict_set dict_pop "[]" dict_ok
  by unfold_locales
    (auto simp: dict_get_def dict_set_def dict_pop_def dict_ok_def update_conv' delete_conv'
      intro: distinct_update distinct_delete)

declare dict.get_empty [simp, dict_simps] dict.get_put [simp, dict_simps] dict.get_pop [simp, dict_simps]
declare dict.ok_empty [simp] dict.ok_put [simp] dict.ok_pop [simp]

lemma dict_keys_Nil [simp]: "dict_keys [] = []"
  by (simp add: dict_keys_def)

lemma dict_values_Nil [simp]: "dict_values [] = []"
  by (simp add: dict_values_def)

lemma dict_get_in_values: "dict_get d k = Some v \<Longrightarrow> v \<in> set (dict_values d)"
  by (force simp: dict_get_def dict_values_def dest: map_of_SomeD)

lemma dict_get_in_items: "dict_get d k = Some v \<Longrightarrow> (k, v) \<in> set d"
  by (simp add: dict_get_def map_of_SomeD)

lemma dict_items_get: "dict_ok d \<Longrightarrow> (k, v) \<in> set d \<Longrightarrow> dict_get d k = Some v"
  by (simp add: dict_get_def dict_ok_def)

lemma dict_get_None_iff: "dict_get d k = None \<longleftrightarrow> k \<notin> set (dict_keys d)"
  by (simp add: dict_get_def dict_keys_def map_of_eq_None_iff)

lemma dict_keys_set: "set (dict_keys (dict_set k v d)) = insert k (set (dict_keys d))"
  by (simp add: dict_keys_def dict_set_def dom_update)

lemma dict_keys_pop: "set (dict_keys (dict_pop k d)) = set (dict_keys d) - {k}"
  by (simp add: dict_keys_def dict_pop_def delete_keys)

lemma dict_set_items: "set (dict_set k v d) \<subseteq> insert (k, v) (set d)"
  unfolding dict_set_def by (induction d) auto

lemma dict_pop_items: "set (dict_pop k d) = set d - {p. fst p = k}"
  by (auto simp: dict_pop_def AList.delete_eq)

lemma dict_pop_absent [simp]: "dict_get d k = None \<Longrightarrow> dict_pop k d = d"
  by (simp add: dict_get_def dict_pop_def map_of_eq_None_iff)

section \<open>Sets\<close>

definition set_add :: "'a \<Rightarrow> 'a list \<Rightarrow> 'a list" where
  "set_add x xs = (if x \<in> set xs then xs else xs @ [x])"

definition set_discard :: "'a \<Rightarrow> 'a list \<Rightarrow> 'a list" where
  "set_discard x xs = filter (\<lambda>y. y \<noteq> x) xs"

text \<open>The set interface of listener tables and connection tables.\<close>

locale py_set =
  fixes add :: "'a \<Rightarrow> 's \<Rightarrow> 's"
    and discard :: "'a \<Rightarrow> 's \<Rightarrow> 's"
    and elems :: "'s \<Rightarrow> 'a set"
    and ok :: "'s \<Rightarrow> bool"
  assumes elems_add: "elems (add x s) = insert x (elems s)"
    and elems_discard: "elems (discard x s) = elems s - {x}"
    and ok_add: "ok s \<Longrightarrow> ok (add x s)"
    and ok_discard: "ok s \<Longrightarrow> ok (discard x s)"
begin

lemma discard_add: "elems (discard x (add x s)) = elems s - {x}"
  by (simp add: elems_add elems_discard)

lemma add_member: "x \<in> elems (add x s)"
  by (simp add: elems_add)

lemma discard_no_member: "x \<notin> elems (discard x s)"
  by (simp add: elems_discard)

end

interpretation pset: py_set set_add set_discard set distinct
  by unfold_locales (auto simp: set_add_def set_discard_def)

declare pset.elems_add [simp] pset.elems_discard [simp] pset.ok_add [simp] pset.ok_discard [simp]

section \<open>Exceptions\<close>

text \<open>
  The service classes each declare one exception, which their handlers catch and turn into a
  4xx answer; everything else that can escape (a \<open>TypeError\<close>, an error of the RNS package) is
  \<open>PyExn\<close> with its class name and message. The string is \<open>str(e)\<close>. \<open>Diverges\<close> is no
  exception: it says that a polling loop did not end within the fuel of the model.
\<close>

datatype exn =
    IdentityError string
  | DestinationError string
  | AnnounceError string
  | PathsError string
  | PacketError string
  | LinkError string
  | ResourceError string
  | PyExn string string
  | Diverges

fun exn_str :: "exn \<Rightarrow> string" where
  "exn_str (IdentityError m) = m"
| "exn_str (DestinationError m) = m"
| "exn_str (AnnounceError m) = m"
| "exn_str (PathsError m) = m"
| "exn_str (PacketError m) = m"
| "exn_str (LinkError m) = m"
| "exn_str (ResourceError m) = m"
| "exn_str (PyExn c m) = m"
| "exn_str Diverges = []"

definition is_error :: "'e + 'a \<Rightarrow> bool" where
  "is_error r = (case r of Inl _ \<Rightarrow> True | Inr _ \<Rightarrow> False)"

lemma is_error_simps [simp]: "is_error (Inl e)" "\<not> is_error (Inr x)"
  by (simp_all add: is_error_def)

end
