(* ===== verification/PyStr.thy ===== *)
theory PyStr
  imports Prelude
begin

text \<open>
  The Python string and byte operations the source uses, on strings whose characters are the
  code points 0 to 255 (\<^typ>\<open>char\<close>): \<open>lower\<close>, \<open>strip\<close>, \<open>in\<close>, \<open>split\<close>,
  \<open>repr\<close>, \<open>bytes.hex\<close>, \<open>bytes.fromhex\<close>, \<open>int\<close>, \<open>str(int)\<close>, and the two
  regular expressions that guard hashes and names. A byte is an \<^typ>\<open>8 word\<close>.
\<close>

type_synonym byte = "8 word"
type_synonym bytes = "8 word list"

definition code :: "char \<Rightarrow> nat" where
  "code c = of_char c"

section \<open>Character classes\<close>

text \<open>C's \<open>isspace\<close> (used by \<open>fromhex\<close> and \<open>int\<close>) and \<open>str.isspace\<close>.\<close>

definition ascii_space :: "char \<Rightarrow> bool" where
  "ascii_space c \<longleftrightarrow> code c \<in> {9, 10, 11, 12, 13, 32}"

definition py_space :: "char \<Rightarrow> bool" where
  "py_space c \<longleftrightarrow> code c \<in> {9, 10, 11, 12, 13, 28, 29, 30, 31, 32, 133, 160}"

definition is_ascii :: "string \<Rightarrow> bool" where
  "is_ascii s \<longleftrightarrow> list_all (\<lambda>c. code c < 128) s"

definition digit_val :: "char \<Rightarrow> nat option" where
  "digit_val c = (if 48 \<le> code c \<and> code c \<le> 57 then Some (code c - 48) else None)"

definition hex_val :: "char \<Rightarrow> nat option" where
  "hex_val c =
     (let n = code c in
      if 48 \<le> n \<and> n \<le> 57 then Some (n - 48)
      else if 97 \<le> n \<and> n \<le> 102 then Some (n - 87)
      else if 65 \<le> n \<and> n \<le> 70 then Some (n - 55)
      else None)"

definition lower_hex_char :: "char \<Rightarrow> bool" where
  "lower_hex_char c \<longleftrightarrow>
     (let n = code c in (48 \<le> n \<and> n \<le> 57) \<or> (97 \<le> n \<and> n \<le> 102))"

definition word_char :: "char \<Rightarrow> bool" where
  "word_char c \<longleftrightarrow>
     (let n = code c in (97 \<le> n \<and> n \<le> 122) \<or> (65 \<le> n \<and> n \<le> 90) \<or> (48 \<le> n \<and> n \<le> 57) \<or> n = 95)"

section \<open>lower, strip, in, split, join, repr\<close>

definition lower_char :: "char \<Rightarrow> char" where
  "lower_char c =
     (let n = code c in
      if (65 \<le> n \<and> n \<le> 90) \<or> (192 \<le> n \<and> n \<le> 222 \<and> n \<noteq> 215) then char_of (n + 32) else c)"

definition lower :: "string \<Rightarrow> string" where
  "lower s = map lower_char s"

definition strip_with :: "(char \<Rightarrow> bool) \<Rightarrow> string \<Rightarrow> string" where
  "strip_with p s = rev (dropWhile p (rev (dropWhile p s)))"

definition strip :: "string \<Rightarrow> string" where
  "strip s = strip_with py_space s"

fun starts_with :: "string \<Rightarrow> string \<Rightarrow> bool" where
  "starts_with [] s = True"
| "starts_with (p # ps) [] = False"
| "starts_with (p # ps) (c # cs) = (p = c \<and> starts_with ps cs)"

text \<open>\<open>contains p s\<close> is Python's \<open>p in s\<close>.\<close>

fun contains :: "string \<Rightarrow> string \<Rightarrow> bool" where
  "contains p [] = (p = [])"
| "contains p (c # cs) = (starts_with p (c # cs) \<or> contains p cs)"

fun split_on :: "char \<Rightarrow> string \<Rightarrow> string list" where
  "split_on d [] = [[]]"
| "split_on d (c # cs) =
     (if c = d then [] # split_on d cs
      else (case split_on d cs of [] \<Rightarrow> [[c]] | w # ws \<Rightarrow> (c # w) # ws))"

fun join :: "string \<Rightarrow> string list \<Rightarrow> string" where
  "join d [] = []"
| "join d [w] = w"
| "join d (w # v # ws) = w @ d @ join d (v # ws)"

definition hex_digit :: "nat \<Rightarrow> char" where
  "hex_digit n = ''0123456789abcdef'' ! n"

definition repr_char :: "char \<Rightarrow> char \<Rightarrow> string" where
  "repr_char q c =
     (let n = code c in
      if c = q \<or> n = 92 then [CHR 0x5C, c]
      else if n = 9 then [CHR 0x5C, CHR ''t'']
      else if n = 10 then [CHR 0x5C, CHR ''n'']
      else if n = 13 then [CHR 0x5C, CHR ''r'']
      else if n < 32 \<or> (127 \<le> n \<and> n \<le> 160) \<or> n = 173
        then [CHR 0x5C, CHR ''x'', hex_digit (n div 16), hex_digit (n mod 16)]
      else [c])"

text \<open>\<open>repr\<close> prefers single quotes and takes double ones when only that avoids an escape.\<close>

definition py_repr :: "string \<Rightarrow> string" where
  "py_repr s =
     (let q = (if CHR 0x27 \<in> set s \<and> CHR 0x22 \<notin> set s then CHR 0x22 else CHR 0x27)
      in [q] @ concat (map (repr_char q) s) @ [q])"

section \<open>Bytes as hexadecimal\<close>

definition byte_hex :: "byte \<Rightarrow> string" where
  "byte_hex b = [hex_digit (unat b div 16), hex_digit (unat b mod 16)]"

definition bytes_hex :: "bytes \<Rightarrow> string" where
  "bytes_hex bs = concat (map byte_hex bs)"

text \<open>
  \<open>bytes.fromhex\<close> skips ASCII white space between bytes and takes both cases; \<open>None\<close> is its
  \<open>ValueError\<close>.
\<close>

fun fromhex :: "string \<Rightarrow> bytes option" where
  "fromhex [] = Some []"
| "fromhex [c] = (if ascii_space c then Some [] else None)"
| "fromhex (c # d # cs) =
     (if ascii_space c then fromhex (d # cs)
      else case (hex_val c, hex_val d) of
        (Some h, Some l) \<Rightarrow> map_option (\<lambda>bs. of_nat (16 * h + l) # bs) (fromhex cs)
      | _ \<Rightarrow> None)"

section \<open>The guards\<close>

text \<open>
  \<open>re.match\<close> with a pattern that ends in \<open>$\<close> also accepts one line feed after the match:
  both guards below let a trailing newline through, as the source does.
\<close>

definition drop_newline :: "string \<Rightarrow> string" where
  "drop_newline s = (if s \<noteq> [] \<and> last s = CHR 0x0A then butlast s else s)"

definition hex_hash_match :: "string \<Rightarrow> bool" where
  "hex_hash_match s \<longleftrightarrow>
     (let t = drop_newline s in length t = 32 \<and> list_all lower_hex_char t)"

definition aspect_match :: "string \<Rightarrow> bool" where
  "aspect_match s \<longleftrightarrow> (let t = drop_newline s in t \<noteq> [] \<and> list_all word_char t)"

section \<open>Integers as text\<close>

fun nat_str :: "nat \<Rightarrow> string" where
  "nat_str n = (if n < 10 then [char_of (48 + n)] else nat_str (n div 10) @ [char_of (48 + n mod 10)])"

declare nat_str.simps [simp del]

definition int_str :: "int \<Rightarrow> string" where
  "int_str i = (if i < 0 then CHR ''-'' # nat_str (nat (- i)) else nat_str (nat i))"

text \<open>Decimal digits with single underscores between them, as \<open>int\<close> reads them.\<close>

fun digits_val :: "string \<Rightarrow> nat \<Rightarrow> nat option" where
  "digits_val [] acc = Some acc"
| "digits_val (c # cs) acc =
     (case digit_val c of
        Some d \<Rightarrow> digits_val cs (10 * acc + d)
      | None \<Rightarrow>
          (if c = CHR ''_''
           then (case cs of [] \<Rightarrow> None
                 | d # ds \<Rightarrow> if digit_val d = None then None else digits_val cs acc)
           else None))"

definition unsigned_val :: "string \<Rightarrow> nat option" where
  "unsigned_val s =
     (case s of [] \<Rightarrow> None
      | c # cs \<Rightarrow>
          if digit_val c = None \<or> 4300 < length (filter (\<lambda>c. digit_val c \<noteq> None) s) then None
          else digits_val s 0)"

definition py_int :: "string \<Rightarrow> int option" where
  "py_int s =
     (let t = strip_with (if is_ascii s then ascii_space else py_space) s in
      case t of [] \<Rightarrow> None
      | c # cs \<Rightarrow>
          if c = CHR ''-'' then map_option (\<lambda>n. - int n) (unsigned_val cs)
          else if c = CHR ''+'' then map_option int (unsigned_val cs)
          else map_option int (unsigned_val t))"

section \<open>Lemmas\<close>

lemma code_char_of [simp]: "n < 256 \<Longrightarrow> code (char_of n) = n"
  by (simp add: code_def)

lemma code_less [simp]: "code c < 256"
  by (simp add: code_def)

lemma code_inject: "code c = code d \<longleftrightarrow> c = d"
  by (simp add: code_def)

subsection \<open>Substrings and splitting\<close>

lemma starts_with_iff: "starts_with p s \<longleftrightarrow> (\<exists>t. s = p @ t)"
  by (induction p s rule: starts_with.induct) auto

lemma contains_iff: "contains p s \<longleftrightarrow> (\<exists>a b. s = a @ p @ b)"
proof (induction s)
  case Nil
  show ?case by auto
next
  case (Cons c cs)
  have "(\<exists>a b. c # cs = a @ p @ b) \<longleftrightarrow> (\<exists>b. c # cs = p @ b) \<or> (\<exists>a b. cs = a @ p @ b)"
    (is "?l \<longleftrightarrow> ?r")
  proof
    assume ?l
    then obtain a b where "c # cs = a @ p @ b" by blast
    then show ?r by (cases a) auto
  next
    assume ?r
    then show ?l by (metis append_Cons append_Nil)
  qed
  with Cons show ?case by (simp add: starts_with_iff)
qed

lemma contains_append: "contains p s \<Longrightarrow> contains p (a @ s @ b)"
  by (metis append.assoc contains_iff)

lemma split_on_nonempty [simp]: "split_on d s \<noteq> []"
  by (induction s) (auto split: list.splits)

lemma split_on_fresh: "d \<notin> set w \<Longrightarrow> split_on d w = [w]"
  by (induction w) auto

lemma split_on_append: "d \<notin> set w \<Longrightarrow> split_on d (w @ d # s) = w # split_on d s"
  by (induction w) auto

lemma split_on_join:
  assumes "ws \<noteq> []" and "\<forall>w \<in> set ws. d \<notin> set w"
  shows "split_on d (join [d] ws) = ws"
  using assms
proof (induction ws rule: induct_list012)
  case (3 w v ws)
  then show ?case by (simp add: split_on_append)
qed (auto simp: split_on_fresh)

lemma join_split_on: "join [d] (split_on d s) = s"
proof (induction s)
  case (Cons c cs)
  obtain w ws where ws: "split_on d cs = w # ws"
    by (cases "split_on d cs") auto
  with Cons have "join [d] (w # ws) = cs" by simp
  with ws show ?case by (cases ws) auto
qed simp

subsection \<open>Hexadecimal\<close>

lemma hex_digit_cases: "k < 16 \<Longrightarrow> k \<in> {0, 1, 2, 3, 4, 5, 6, 7, 8, 9, 10, 11, 12, 13, 14, 15 :: nat}"
  by simp presburger

lemma hex_digit_props:
  assumes "n < 16"
  shows "hex_val (hex_digit n) = Some n" "\<not> ascii_space (hex_digit n)"
    "lower_hex_char (hex_digit n)" "lower_char (hex_digit n) = hex_digit n"
    "hex_digit n \<noteq> CHR ''$''"
  using hex_digit_cases [OF assms]
  by (auto simp: hex_digit_def hex_val_def ascii_space_def lower_hex_char_def lower_char_def code_def Let_def)

lemma unat_byte_less: "unat (b :: byte) < 256"
  using unsigned_less [of b, where 'a = nat] by simp

lemma byte_nibbles: "of_nat (16 * (unat b div 16) + unat b mod 16) = (b :: byte)"
  by simp

lemma byte_div_less: "unat (b :: byte) div 16 < 16"
  using unat_byte_less [of b] by simp

lemma bytes_hex_Nil [simp]: "bytes_hex [] = []"
  by (simp add: bytes_hex_def)

lemma bytes_hex_Cons: "bytes_hex (b # bs) = byte_hex b @ bytes_hex bs"
  by (simp add: bytes_hex_def)

theorem fromhex_bytes_hex [simp]: "fromhex (bytes_hex bs) = Some bs"
proof (induction bs)
  case (Cons b bs)
  have "fromhex (bytes_hex (b # bs)) =
      map_option (\<lambda>xs. of_nat (16 * (unat b div 16) + unat b mod 16) # xs) (fromhex (bytes_hex bs))"
    by (simp only: bytes_hex_Cons byte_hex_def append_Cons append_Nil fromhex.simps)
      (simp add: hex_digit_props byte_div_less)
  with Cons show ?case by (simp only: byte_nibbles) simp
qed simp

lemma length_bytes_hex [simp]: "length (bytes_hex bs) = 2 * length bs"
  by (induction bs) (auto simp: bytes_hex_Cons byte_hex_def)

lemma bytes_hex_inject [simp]: "bytes_hex a = bytes_hex b \<longleftrightarrow> a = b"
  by (metis fromhex_bytes_hex option.inject)

lemma bytes_hex_lower_hex: "list_all lower_hex_char (bytes_hex bs)"
  by (induction bs) (auto simp: bytes_hex_Cons byte_hex_def hex_digit_props byte_div_less)

lemma lower_bytes_hex [simp]: "lower (bytes_hex bs) = bytes_hex bs"
  by (induction bs) (auto simp: lower_def bytes_hex_Cons byte_hex_def hex_digit_props byte_div_less)

lemma bytes_hex_charD: "c \<in> set (bytes_hex bs) \<Longrightarrow> lower_hex_char c"
  using bytes_hex_lower_hex by (auto simp: list_all_iff)

lemma bytes_hex_no_dollar: "CHR ''$'' \<notin> set (bytes_hex bs)"
  by (rule notI, drule bytes_hex_charD) (simp add: lower_hex_char_def code_def)

lemma newline_not_hex: "\<not> lower_hex_char (CHR 0x0A)"
  by (simp add: lower_hex_char_def code_def)

lemma drop_newline_id: "CHR 0x0A \<notin> set s \<Longrightarrow> drop_newline s = s"
  using last_in_set [of s] by (metis drop_newline_def)

lemma drop_newline_cases: "s = drop_newline s \<or> s = drop_newline s @ [CHR 0x0A]"
  by (metis append_butlast_last_id drop_newline_def)

lemma drop_newline_bytes_hex [simp]: "drop_newline (bytes_hex bs) = bytes_hex bs"
  by (rule drop_newline_id) (use bytes_hex_charD newline_not_hex in blast)

lemma hex_hash_match_bytes_hex [simp]: "hex_hash_match (bytes_hex bs) \<longleftrightarrow> length bs = 16"
  by (auto simp: hex_hash_match_def bytes_hex_lower_hex)

lemma lower_hex_charE:
  assumes "lower_hex_char c"
  obtains n where "n < 16" "c = hex_digit n"
proof -
  obtain n where n: "hex_val c = Some n" "n < 16"
    using assms by (auto simp: lower_hex_char_def hex_val_def Let_def)
  have "c = hex_digit n"
  proof -
    have "code c = (if n < 10 then 48 + n else 87 + n)"
      using assms n(1) by (auto simp: lower_hex_char_def hex_val_def Let_def split: if_splits)
    moreover have "code (hex_digit n) = (if n < 10 then 48 + n else 87 + n)"
      using hex_digit_cases [OF n(2)] by (auto simp: hex_digit_def code_def)
    ultimately show ?thesis by (simp flip: code_inject)
  qed
  with n(2) show thesis by (rule that)
qed

lemma unat_of_nat_byte: "n < 256 \<Longrightarrow> unat (of_nat n :: byte) = n"
  by (simp add: unat_of_nat)

lemma byte_hex_of_nibbles: "h < 16 \<Longrightarrow> l < 16 \<Longrightarrow> byte_hex (of_nat (16 * h + l)) = [hex_digit h, hex_digit l]"
  using unat_of_nat_byte [of "16 * h + l"] by (simp add: byte_hex_def)

lemma fromhex_hex_pairs:
  assumes "list_all lower_hex_char t" and "even (length t)"
    and tail: "u = [] \<or> u = [CHR 0x0A]"
  shows "\<exists>bs. fromhex (t @ u) = Some bs \<and> 2 * length bs = length t \<and> bytes_hex bs = t"
  using assms(1,2)
proof (induction t rule: induct_list012)
  case 1
  then show ?case using tail by (auto simp: ascii_space_def code_def)
next
  case (3 c d t)
  then obtain bs where bs: "fromhex (t @ u) = Some bs" "2 * length bs = length t" "bytes_hex bs = t"
    by auto
  from "3.prems" obtain h l where h: "h < 16" "c = hex_digit h" and l: "l < 16" "d = hex_digit l"
    by (auto elim!: lower_hex_charE)
  have "fromhex ((c # d # t) @ u) = Some (of_nat (16 * h + l) # bs)"
    by (simp add: h l hex_digit_props bs)
  moreover have "bytes_hex (of_nat (16 * h + l) # bs) = c # d # t"
    using bs(3) by (simp only: bytes_hex_Cons byte_hex_of_nibbles [OF h(1) l(1)] h l append_Cons append_Nil)
  ultimately show ?case using bs(2) by auto
qed simp

text \<open>What the guard buys: after it, \<open>bytes.fromhex\<close> cannot raise and gives 16 bytes.\<close>

lemma hex_hash_fromhex:
  assumes "hex_hash_match s"
  obtains bs where "fromhex s = Some bs" "length bs = 16" "bytes_hex bs = drop_newline s"
proof -
  have "list_all lower_hex_char (drop_newline s)" "length (drop_newline s) = 32"
    using assms by (simp_all add: hex_hash_match_def Let_def)
  moreover have "s = drop_newline s @ [] \<or> s = drop_newline s @ [CHR 0x0A]"
    using drop_newline_cases [of s] by simp
  ultimately obtain bs where "fromhex s = Some bs" "2 * length bs = 32" "bytes_hex bs = drop_newline s"
    using fromhex_hex_pairs [of "drop_newline s" "[]"] fromhex_hex_pairs [of "drop_newline s" "[CHR 0x0A]"]
    by (metis even_numeral)
  then show thesis using that by simp
qed

subsection \<open>Decimal numerals\<close>

lemma digit_val_char [simp]: "d < 10 \<Longrightarrow> digit_val (char_of (48 + d)) = Some d"
  by (simp add: digit_val_def)

lemma nat_str_nonempty [simp]: "nat_str n \<noteq> []"
  by (subst nat_str.simps) simp

lemma nat_str_digits: "c \<in> set (nat_str n) \<Longrightarrow> \<exists>d < (10 :: nat). c = char_of (48 + d)"
proof (induction n rule: nat_str.induct)
  case (1 n)
  have eq: "nat_str n = (if n < 10 then [char_of (48 + n)] else nat_str (n div 10) @ [char_of (48 + n mod 10)])"
    by (rule nat_str.simps)
  show ?case
  proof (cases "n < 10")
    case True
    with 1 eq show ?thesis by auto
  next
    case False
    with "1.prems" eq consider "c \<in> set (nat_str (n div 10))" | "c = char_of (48 + n mod 10)"
      by auto
    then show ?thesis
    proof cases
      case 1
      from "1.IH" [OF False this] show ?thesis .
    next
      case 2
      then show ?thesis by (intro exI [of _ "n mod 10"]) simp
    qed
  qed
qed

lemma nat_str_no_char: "\<forall>d < (10 :: nat). c \<noteq> char_of (48 + d) \<Longrightarrow> c \<notin> set (nat_str n)"
  using nat_str_digits by blast

lemma nat_str_code: "c \<in> set (nat_str n) \<Longrightarrow> 48 \<le> code c \<and> code c \<le> 57"
  using nat_str_digits by fastforce

lemma digit_chars:
  "char_of (48 :: nat) = CHR ''0''" "char_of (49 :: nat) = CHR ''1''" "char_of (50 :: nat) = CHR ''2''"
  "char_of (51 :: nat) = CHR ''3''" "char_of (52 :: nat) = CHR ''4''" "char_of (53 :: nat) = CHR ''5''"
  "char_of (54 :: nat) = CHR ''6''" "char_of (55 :: nat) = CHR ''7''" "char_of (56 :: nat) = CHR ''8''"
  "char_of (57 :: nat) = CHR ''9''"
  by (simp_all flip: code_inject add: code_def)

lemma digits_val_append:
  "list_all (\<lambda>c. digit_val c \<noteq> None) xs \<Longrightarrow>
   digits_val (xs @ ys) acc = (case digits_val xs acc of None \<Rightarrow> None | Some a \<Rightarrow> digits_val ys a)"
  by (induction xs arbitrary: acc) (auto split: option.splits)

lemma nat_str_all_digits: "list_all (\<lambda>c. digit_val c \<noteq> None) (nat_str n)"
  using nat_str_digits by (fastforce simp: list_all_iff)

lemma digits_val_nat_str: "digits_val (nat_str n) 0 = Some n"
proof (induction n rule: nat_str.induct)
  case (1 n)
  have eq: "nat_str n = (if n < 10 then [char_of (48 + n)] else nat_str (n div 10) @ [char_of (48 + n mod 10)])"
    by (rule nat_str.simps)
  show ?case
  proof (cases "n < 10")
    case True
    with eq show ?thesis by simp
  next
    case False
    with 1 have "digits_val (nat_str (n div 10)) 0 = Some (n div 10)" by simp
    with False eq show ?thesis by (simp add: digits_val_append [OF nat_str_all_digits])
  qed
qed

text \<open>\<open>int(str(n)) = n\<close>, within the interpreter's limit of 4300 digits.\<close>

lemma filter_digits_nat_str: "filter (\<lambda>c. digit_val c \<noteq> None) (nat_str n) = nat_str n"
  using nat_str_all_digits by (simp add: list_all_iff filter_id_conv)

lemma unsigned_val_nat_str:
  assumes "length (nat_str n) \<le> 4300"
  shows "unsigned_val (nat_str n) = Some n"
proof -
  obtain c cs where c: "nat_str n = c # cs" by (cases "nat_str n") auto
  with nat_str_all_digits [of n] have "digit_val c \<noteq> None" by simp
  then show ?thesis
    using assms filter_digits_nat_str [of n] digits_val_nat_str [of n] c
    by (simp add: unsigned_val_def)
qed

lemma strip_with_id: "list_all (\<lambda>c. \<not> p c) s \<Longrightarrow> strip_with p s = s"
proof -
  assume *: "list_all (\<lambda>c. \<not> p c) s"
  have "dropWhile p t = t" if "set t \<subseteq> set s" for t
    using * that by (cases t) (auto simp: list_all_iff)
  then show "strip_with p s = s" by (simp add: strip_with_def)
qed

lemma py_int_nat_str:
  assumes "length (nat_str n) \<le> 4300"
  shows "py_int (nat_str n) = Some (int n)"
proof -
  have sp: "list_all (\<lambda>c. \<not> py_space c) (nat_str n)" "list_all (\<lambda>c. \<not> ascii_space c) (nat_str n)"
    using nat_str_digits by (fastforce simp: list_all_iff py_space_def ascii_space_def)+
  then have strip: "strip_with (if is_ascii (nat_str n) then ascii_space else py_space) (nat_str n) = nat_str n"
    by (simp add: strip_with_id)
  obtain c cs where c: "nat_str n = c # cs" by (cases "nat_str n") auto
  have "CHR ''-'' \<notin> set (nat_str n)" "CHR ''+'' \<notin> set (nat_str n)"
    by (rule notI, drule nat_str_code, simp add: code_def)+
  with c have "c \<noteq> CHR ''-''" "c \<noteq> CHR ''+''" by auto
  with c strip unsigned_val_nat_str [OF assms] show ?thesis
    by (simp add: py_int_def Let_def)
qed

end
