(* ===== verification/Base64.thy ===== *)
theory Base64
  imports PyStr
begin

text \<open>
  \<open>base64.b64encode\<close> and \<open>base64.b64decode(s, validate=True)\<close>, the codec of every binary
  field of the API. The decoder is CPython's \<open>binascii.a2b_base64\<close> in strict mode (3.11): a
  loop over the characters that keeps the position in the quad, the bits left over, the pads
  seen in the quad and whether padding has started. \<open>Inl\<close> is the exception's message, which
  the services copy into their own error texts.
\<close>

definition b64_char :: "nat \<Rightarrow> char" where
  "b64_char n =
     (if n < 26 then char_of (65 + n)
      else if n < 52 then char_of (71 + n)
      else if n < 62 then char_of (n - 4)
      else if n = 62 then CHR ''+'' else CHR ''/'')"

definition b64_val :: "char \<Rightarrow> nat option" where
  "b64_val c =
     (let n = code c in
      if 65 \<le> n \<and> n \<le> 90 then Some (n - 65)
      else if 97 \<le> n \<and> n \<le> 122 then Some (n - 71)
      else if 48 \<le> n \<and> n \<le> 57 then Some (n + 4)
      else if n = 43 then Some 62
      else if n = 47 then Some 63
      else None)"

fun b64encode :: "bytes \<Rightarrow> string" where
  "b64encode [] = []"
| "b64encode [a] =
     [b64_char (unat a div 4), b64_char (unat a mod 4 * 16), CHR ''='', CHR ''='']"
| "b64encode [a, b] =
     [b64_char (unat a div 4), b64_char (unat a mod 4 * 16 + unat b div 16),
      b64_char (unat b mod 16 * 4), CHR ''='']"
| "b64encode (a # b # c # bs) =
     [b64_char (unat a div 4), b64_char (unat a mod 4 * 16 + unat b div 16),
      b64_char (unat b mod 16 * 4 + unat c div 64), b64_char (unat c mod 64)] @ b64encode bs"

text \<open>
  \<open>a2b cs q left pads started out\<close>: \<open>q\<close> is the position in the quad, \<open>left\<close> the bits left
  over, \<open>out\<close> the bytes written so far, in reverse.
\<close>

fun a2b :: "string \<Rightarrow> nat \<Rightarrow> nat \<Rightarrow> nat \<Rightarrow> bool \<Rightarrow> bytes \<Rightarrow> string + bytes" where
  "a2b [] q left pads started out =
     (if q = 0 then Inr (rev out)
      else if q = 1 then
        Inl (''Invalid base64-encoded string: number of data characters ('' @
             nat_str (length out div 3 * 4 + 1) @ '') cannot be 1 more than a multiple of 4'')
      else Inl ''Incorrect padding'')"
| "a2b (c # cs) q left pads started out =
     (if c = CHR ''='' then
        (if 2 \<le> q \<and> 4 \<le> q + (pads + 1) then
           (if cs \<noteq> [] then Inl ''Excess data after padding'' else Inr (rev out))
         else a2b cs q left (if 2 \<le> q then pads + 1 else pads) True out)
      else
        (case b64_val c of
           None \<Rightarrow> Inl ''Only base64 data is allowed''
         | Some v \<Rightarrow>
             if started then Inl ''Discontinuous padding not allowed''
             else if q = 0 then a2b cs 1 v 0 started out
             else if q = 1 then a2b cs 2 (v mod 16) 0 started (of_nat (left * 4 + v div 16) # out)
             else if q = 2 then a2b cs 3 (v mod 4) 0 started (of_nat (left * 16 + v div 4) # out)
             else a2b cs 0 0 0 started (of_nat (left * 64 + v) # out)))"

definition b64decode :: "string \<Rightarrow> string + bytes" where
  "b64decode s =
     (if \<not> is_ascii s then Inl ''string argument should contain only ASCII characters''
      else if s \<noteq> [] \<and> hd s = CHR ''='' then Inl ''Leading padding not allowed''
      else a2b s 0 0 0 False [])"

text \<open>\<open>_b64_or_none\<close>, \<open>_b64\<close>: falsy data is \<open>None\<close>.\<close>

definition b64_or_none :: "bytes option \<Rightarrow> string option" where
  "b64_or_none data =
     (case data of None \<Rightarrow> None | Some b \<Rightarrow> if b = [] then None else Some (b64encode b))"

section \<open>Round trip\<close>

lemma b64_char_code:
  "n < 64 \<Longrightarrow> code (b64_char n) =
     (if n < 26 then 65 + n else if n < 52 then 71 + n else if n < 62 then n - 4
      else if n = 62 then 43 else 47)"
  by (simp add: b64_char_def code_def [of "CHR ''+''"] code_def [of "CHR ''/''"])

lemma b64_char_props:
  assumes "n < 64"
  shows "b64_val (b64_char n) = Some n" "b64_char n \<noteq> CHR ''=''" "code (b64_char n) < 128"
proof -
  show "b64_val (b64_char n) = Some n"
    using assms by (auto simp: b64_val_def b64_char_code Let_def)
  have "code (CHR ''='') = 61" by (simp add: code_def)
  then show "b64_char n \<noteq> CHR ''=''" "code (b64_char n) < 128"
    using assms b64_char_code [OF assms] by (auto split: if_splits)
qed

lemma byte_parts:
  "unat (a :: byte) div 4 < 64" "unat a mod 4 * 16 < 64"
  "unat a mod 4 * 16 + unat (b :: byte) div 16 < 64"
  "unat b mod 16 * 4 < 64"
  "unat b mod 16 * 4 + unat (c :: byte) div 64 < 64" "unat c mod 64 < 64"
  using unat_byte_less [of a] unat_byte_less [of b] unat_byte_less [of c] by linarith+

lemma join16: "(y::nat) < 16 \<Longrightarrow> (x * 16 + y) div 16 = x" "y < 16 \<Longrightarrow> (x * 16 + y) mod 16 = y"
  by simp_all

lemma join4: "(y::nat) < 4 \<Longrightarrow> (x * 4 + y) div 4 = x" "y < 4 \<Longrightarrow> (x * 4 + y) mod 4 = y"
  by simp_all

lemma byte_div_bounds: "unat (b :: byte) div 16 < 16" "unat (b :: byte) div 64 < 4"
  using unat_byte_less [of b] by linarith+

lemma byte_join_nat:
  "unat (a :: byte) div 4 * 4 + (unat a mod 4 * 16 + unat (b :: byte) div 16) div 16 = unat a"
  "unat a div 4 * 4 + (unat a mod 4 * 16) div 16 = unat a"
  "(unat a mod 4 * 16 + unat b div 16) mod 16 * 16 + (unat b mod 16 * 4 + unat (c :: byte) div 64) div 4 = unat b"
  "(unat a mod 4 * 16 + unat b div 16) mod 16 * 16 + (unat b mod 16 * 4) div 4 = unat b"
  "(unat b mod 16 * 4 + unat c div 64) mod 4 * 64 + unat c mod 64 = unat c"
  by (simp_all only: join16 [OF byte_div_bounds(1)] join4 [OF byte_div_bounds(2)]
      nonzero_mult_div_cancel_right div_mult_mod_eq)

lemma byte_shrink:
  "unat (b :: byte) div 16 div 16 = 0" "unat (b :: byte) div 16 mod 16 = unat b div 16"
  "unat (b :: byte) div 64 div 4 = 0" "unat (b :: byte) div 64 mod 4 = unat b div 64"
  using byte_div_bounds [of b] by simp_all

lemma byte_join:
  "of_nat (unat (a :: byte) div 4 * 4 + (unat a mod 4 * 16 + unat (b :: byte) div 16) div 16) = a"
  "of_nat (unat a div 4 * 4 + (unat a mod 4 * 16) div 16) = a"
  "of_nat ((unat a mod 4 * 16 + unat b div 16) mod 16 * 16 + (unat b mod 16 * 4 + unat (c :: byte) div 64) div 4) = b"
  "of_nat ((unat a mod 4 * 16 + unat b div 16) mod 16 * 16 + (unat b mod 16 * 4) div 4) = b"
  "of_nat ((unat b mod 16 * 4 + unat c div 64) mod 4 * 64 + unat c mod 64) = c"
  by (simp_all only: byte_join_nat) simp_all

lemma a2b_b64encode: "a2b (b64encode bs) 0 left pads False out = Inr (rev out @ bs)"
proof (induction bs arbitrary: left pads out rule: b64encode.induct)
  case (2 a)
  show ?case
    by (simp add: b64_char_props byte_parts byte_join byte_shrink del: of_nat_add of_nat_mult)
next
  case (3 a b)
  show ?case
    by (simp add: b64_char_props byte_parts byte_join byte_shrink del: of_nat_add of_nat_mult)
next
  case (4 a b c bs)
  show ?case
    by (simp add: b64_char_props byte_parts byte_join byte_shrink "4.IH" del: of_nat_add of_nat_mult)
qed simp

lemma b64encode_ascii: "is_ascii (b64encode bs)"
  by (induction bs rule: b64encode.induct)
    (simp_all add: is_ascii_def b64_char_props byte_parts code_def [of "CHR ''=''"])

lemma b64encode_no_leading_pad: "b64encode bs = [] \<or> hd (b64encode bs) \<noteq> CHR ''=''"
  by (induction bs rule: b64encode.induct) (simp_all add: b64_char_props byte_parts)

theorem b64decode_b64encode: "b64decode (b64encode bs) = Inr bs"
  using b64encode_no_leading_pad [of bs] by (auto simp: b64decode_def b64encode_ascii a2b_b64encode)

lemma length_b64encode: "length (b64encode bs) = 4 * ((length bs + 2) div 3)"
proof (induction bs rule: b64encode.induct)
  case (4 a b c bs)
  have "(length (a # b # c # bs) + 2) div 3 = (length bs + 2) div 3 + 1" by simp
  with 4 show ?case by simp
qed simp_all

lemma b64encode_inject [simp]: "b64encode a = b64encode b \<longleftrightarrow> a = b"
  by (metis b64decode_b64encode sum.inject(2))

end
