(* ===== verification/Json.thy ===== *)
theory Json
  imports Base64
begin

text \<open>
  JSON values: request bodies, WebSocket frames, replies and events. An object is a Python
  \<open>dict\<close>, so it keeps the order of its fields; a float is an exact rational (rounding and the
  values \<open>inf\<close> and \<open>nan\<close> are outside the model).
\<close>

datatype json =
    JNull
  | JBool bool
  | JInt int
  | JFloat rat
  | JStr string
  | JList "json list"
  | JObj "(string \<times> json) list"

type_synonym fields = "(string \<times> json) list"

text \<open>\<open>d.get(k)\<close> and \<open>d.get(k, default)\<close> on a dict.\<close>

definition field :: "string \<Rightarrow> fields \<Rightarrow> json" where
  "field k d = (case dict_get d k of None \<Rightarrow> JNull | Some v \<Rightarrow> v)"

definition field_default :: "string \<Rightarrow> json \<Rightarrow> fields \<Rightarrow> json" where
  "field_default k dflt d = (case dict_get d k of None \<Rightarrow> dflt | Some v \<Rightarrow> v)"

text \<open>\<open>{**a, **b}\<close>: the fields of \<open>b\<close> are assigned one after the other.\<close>

definition merge :: "fields \<Rightarrow> fields \<Rightarrow> fields" where
  "merge a b = fold (\<lambda>(k, v) d. dict_set k v d) b a"

text \<open>\<open>bool(v)\<close>.\<close>

fun truthy :: "json \<Rightarrow> bool" where
  "truthy JNull = False"
| "truthy (JBool b) = b"
| "truthy (JInt i) = (i \<noteq> 0)"
| "truthy (JFloat r) = (r \<noteq> 0)"
| "truthy (JStr s) = (s \<noteq> [])"
| "truthy (JList xs) = (xs \<noteq> [])"
| "truthy (JObj d) = (d \<noteq> [])"

text \<open>\<open>isinstance(v, str)\<close> and the string itself.\<close>

fun as_str :: "json \<Rightarrow> string option" where
  "as_str (JStr s) = Some s"
| "as_str _ = None"

fun as_bool :: "json \<Rightarrow> bool option" where
  "as_bool (JBool b) = Some b"
| "as_bool _ = None"

fun as_list :: "json \<Rightarrow> json list option" where
  "as_list (JList xs) = Some xs"
| "as_list _ = None"

fun as_obj :: "json \<Rightarrow> fields option" where
  "as_obj (JObj d) = Some d"
| "as_obj _ = None"

text \<open>
  \<open>isinstance(v, (int, float))\<close> with the number: \<open>bool\<close> is a subclass of \<open>int\<close>.
\<close>

fun as_number :: "json \<Rightarrow> rat option" where
  "as_number (JBool b) = Some (if b then 1 else 0)"
| "as_number (JInt i) = Some (of_int i)"
| "as_number (JFloat r) = Some r"
| "as_number _ = None"

text \<open>A list all of whose elements are strings.\<close>

fun all_str :: "json list \<Rightarrow> string list option" where
  "all_str [] = Some []"
| "all_str (v # vs) =
     (case (as_str v, all_str vs) of (Some s, Some ss) \<Rightarrow> Some (s # ss) | _ \<Rightarrow> None)"

definition jopt :: "string option \<Rightarrow> json" where
  "jopt x = (case x of None \<Rightarrow> JNull | Some s \<Rightarrow> JStr s)"

definition jhex :: "bytes \<Rightarrow> json" where
  "jhex b = JStr (bytes_hex b)"

definition jnat :: "nat \<Rightarrow> json" where
  "jnat n = JInt (int n)"

text \<open>The discriminator of a message, \<open>msg["type"]\<close>.\<close>

definition ev_type :: "json \<Rightarrow> string option" where
  "ev_type j = (case j of JObj d \<Rightarrow> as_str (field ''type'' d) | _ \<Rightarrow> None)"

definition ev_field :: "string \<Rightarrow> json \<Rightarrow> json" where
  "ev_field k j = (case j of JObj d \<Rightarrow> field k d | _ \<Rightarrow> JNull)"

section \<open>Lemmas\<close>

lemma field_Cons [simp, event_simps]: "field k ((k', v) # d) = (if k = k' then v else field k d)"
  by (simp add: field_def dict_get_def)

lemma field_Nil [simp, event_simps]: "field k [] = JNull"
  by (simp add: field_def)

lemma dict_get_fold_set:
  "dict_get (fold (\<lambda>(k, v) d. dict_set k v d) b a) k =
     (case map_of (rev b) k of None \<Rightarrow> dict_get a k | Some v \<Rightarrow> Some v)"
proof (induction b arbitrary: a)
  case (Cons p b)
  then show ?case
    by (cases p) (auto simp: map_add_def split: option.splits)
qed simp

lemma map_of_rev_dict: "distinct (map fst b) \<Longrightarrow> map_of (rev b) = map_of b"
  by (rule map_of_eqI) (auto simp: rev_map [symmetric] intro: map_of_is_SomeI dest: map_of_SomeD)

lemma field_merge:
  "distinct (map fst b) \<Longrightarrow>
   field k (merge a b) = (case dict_get b k of None \<Rightarrow> field k a | Some v \<Rightarrow> v)"
  unfolding field_def merge_def dict_get_fold_set
  by (simp add: dict_get_def map_of_rev_dict split: option.split)

text \<open>
  A merge of fields with fresh, distinct names is an append: this is what every
  \<open>{"type": ..., **snapshot}\<close> of the source computes.
\<close>

lemma dict_set_fresh: "k \<notin> fst ` set d \<Longrightarrow> dict_set k v d = d @ [(k, v)]"
  unfolding dict_set_def by (induction d) auto

lemma merge_disjoint:
  "distinct (map fst b) \<Longrightarrow> fst ` set a \<inter> fst ` set b = {} \<Longrightarrow> merge a b = a @ b"
proof (induction b arbitrary: a)
  case (Cons p b)
  obtain k v where p: "p = (k, v)" by (cases p)
  with Cons.prems have "dict_set k v a = a @ [(k, v)]"
    by (intro dict_set_fresh) auto
  moreover have "merge (a @ [(k, v)]) b = (a @ [(k, v)]) @ b"
    using Cons.prems p by (intro Cons.IH) auto
  ultimately show ?case by (simp add: merge_def p)
qed (simp add: merge_def)

lemma ev_type_obj [simp, event_simps]: "ev_type (JObj d) = as_str (field ''type'' d)"
  by (simp add: ev_type_def)

lemma ev_field_obj [simp, event_simps]: "ev_field k (JObj d) = field k d"
  by (simp add: ev_field_def)

lemma all_str_map [simp]: "all_str (map JStr ss) = Some ss"
  by (induction ss) auto

end
