(* ===== verification/Config.thy ===== *)
theory Config
  imports Json
begin

text \<open>
  \<open>config.py\<close>: the configuration dataclasses with their defaults, \<open>load\<close> and \<open>validate\<close>.
  The input of \<open>load\<close> is what \<open>configparser\<close> made of the file: the sections with, for each,
  the text of every option (\<open>section.get(key, "")\<close>). A \<open>ValueError\<close> is its message; where
  \<open>int\<close> or \<open>float\<close> raised it, the message is the interpreter's and is not spelled out; a
  dash outside Latin-1 in one message of \<open>validate\<close> is written as a colon.
\<close>

datatype tls_mode = SelfSigned | UserProvided | Disabled

record network_config =
  bind_host :: string
  bind_port :: int
  net_tls :: bool
  allow_http :: bool
  http_port :: int

record tls_config =
  mode :: tls_mode
  cert_file :: string
  key_file :: string
  self_signed_cn :: string

record auth_config =
  enabled :: bool
  username :: string
  password_hash :: string
  session_inactivity_timeout :: int
  session_max_lifetime :: int
  ws_auth_frame_timeout :: int

record rns_config =
  config_dir :: string
  log_level :: int

record storage_config =
  storage_root :: string
  identities_dir :: string
  certs_dir :: string
  logs_dir :: string

record logging_config =
  log_level_name :: string
  log_file :: string
  rotate_max_bytes :: int
  rotate_backup_count :: int

record limits_config =
  path_request_timeout :: int
  link_establish_timeout :: int
  request_default_timeout :: int
  max_ws_message_bytes :: int
  max_packet_bytes :: int

record resources_config =
  temp_dir :: string
  retention_seconds :: int
  sweep_interval_seconds :: int
  max_inline_bytes :: int
  progress_throttle_ms :: int
  progress_throttle_pct :: rat
  default_auto_accept :: bool

record config =
  network :: network_config
  tls :: tls_config
  auth :: auth_config
  rns :: rns_config
  storage :: storage_config
  logging :: logging_config
  limits :: limits_config
  resources :: resources_config

section \<open>Defaults\<close>

definition network_default :: network_config where
  "network_default =
     \<lparr>bind_host = ''127.0.0.1'', bind_port = 8000, net_tls = True, allow_http = False, http_port = 8001\<rparr>"

definition tls_default :: tls_config where
  "tls_default = \<lparr>mode = SelfSigned, cert_file = [], key_file = [], self_signed_cn = ''localhost''\<rparr>"

definition auth_default :: auth_config where
  "auth_default =
     \<lparr>enabled = False, username = ''admin'', password_hash = [], session_inactivity_timeout = 1800,
      session_max_lifetime = 86400, ws_auth_frame_timeout = 5\<rparr>"

definition rns_default :: rns_config where
  "rns_default = \<lparr>config_dir = [], log_level = 3\<rparr>"

definition storage_default :: storage_config where
  "storage_default =
     \<lparr>storage_root = ''~/.config/rnsapi'', identities_dir = ''identities'', certs_dir = ''certs'',
      logs_dir = ''logs''\<rparr>"

definition logging_default :: logging_config where
  "logging_default =
     \<lparr>log_level_name = ''INFO'', log_file = ''logs/rnsapid.log'', rotate_max_bytes = 10 * 1024 * 1024,
      rotate_backup_count = 5\<rparr>"

definition limits_default :: limits_config where
  "limits_default =
     \<lparr>path_request_timeout = 15, link_establish_timeout = 15, request_default_timeout = 30,
      max_ws_message_bytes = 1024 * 1024, max_packet_bytes = 65535\<rparr>"

definition resources_default :: resources_config where
  "resources_default =
     \<lparr>temp_dir = ''resources'', retention_seconds = 3600, sweep_interval_seconds = 300,
      max_inline_bytes = 65536, progress_throttle_ms = 250, progress_throttle_pct = 1,
      default_auto_accept = True\<rparr>"

definition config_default :: config where
  "config_default =
     \<lparr>network = network_default, tls = tls_default, auth = auth_default, rns = rns_default,
      storage = storage_default, logging = logging_default, limits = limits_default,
      resources = resources_default\<rparr>"

section \<open>Reading options\<close>

record ini_section =
  sec_name :: string
  sec_opts :: "(string, string) dict"

type_synonym ini = "(string, ini_section) dict"

definition sec_get :: "ini_section \<Rightarrow> string \<Rightarrow> string" where
  "sec_get s key = (case dict_get (sec_opts s) key of None \<Rightarrow> [] | Some v \<Rightarrow> v)"

definition get_bool :: "ini_section \<Rightarrow> string \<Rightarrow> bool \<Rightarrow> string + bool" where
  "get_bool s key dflt =
     (let raw = lower (strip (sec_get s key)) in
      if raw = [] then Inr dflt
      else if raw \<in> set [''true'', ''yes'', ''on'', ''1''] then Inr True
      else if raw \<in> set [''false'', ''no'', ''off'', ''0''] then Inr False
      else Inl (''['' @ sec_name s @ ''] '' @ key @ '' must be a boolean, got '' @ py_repr raw))"

definition get_int :: "ini_section \<Rightarrow> string \<Rightarrow> int \<Rightarrow> string + int" where
  "get_int s key dflt =
     (let raw = strip (sec_get s key) in
      if raw = [] then Inr dflt
      else (case py_int raw of None \<Rightarrow> Inl ''invalid literal for int()'' | Some i \<Rightarrow> Inr i))"

definition get_str :: "ini_section \<Rightarrow> string \<Rightarrow> string \<Rightarrow> string" where
  "get_str s key dflt = (let raw = strip (sec_get s key) in if raw \<noteq> [] then raw else dflt)"

text \<open>Sequencing of reads: the first failing one is the exception.\<close>

definition try_then :: "'e + 'a \<Rightarrow> ('a \<Rightarrow> 'e + 'b) \<Rightarrow> 'e + 'b" where
  "try_then r k = (case r of Inl e \<Rightarrow> Inl e | Inr x \<Rightarrow> k x)"

lemma try_then_simps [simp]: "try_then (Inl e) k = Inl e" "try_then (Inr x) k = k x"
  by (simp_all add: try_then_def)

lemma try_then_InrD: "try_then r k = Inr y \<Longrightarrow> \<exists>x. r = Inr x \<and> k x = Inr y"
  by (cases r) auto

definition load_network :: "ini_section \<Rightarrow> string + network_config" where
  "load_network s =
     try_then (get_int s ''bind_port'' (bind_port network_default)) (\<lambda>port.
     try_then (get_bool s ''tls'' (net_tls network_default)) (\<lambda>t.
     try_then (get_bool s ''allow_http'' (allow_http network_default)) (\<lambda>ah.
     try_then (get_int s ''http_port'' (http_port network_default)) (\<lambda>hp.
       Inr \<lparr>bind_host = get_str s ''bind_host'' (bind_host network_default), bind_port = port,
            net_tls = t, allow_http = ah, http_port = hp\<rparr>))))"

definition parse_tls_mode :: "string \<Rightarrow> string + tls_mode" where
  "parse_tls_mode m =
     (if m = ''self_signed'' then Inr SelfSigned
      else if m = ''user_provided'' then Inr UserProvided
      else if m = ''disabled'' then Inr Disabled
      else Inl (''[tls] mode must be self_signed|user_provided|disabled, got '' @ py_repr m))"

definition load_tls :: "ini_section \<Rightarrow> string + tls_config" where
  "load_tls s =
     try_then (parse_tls_mode (get_str s ''mode'' ''self_signed'')) (\<lambda>m.
       Inr \<lparr>mode = m, cert_file = get_str s ''cert_file'' (cert_file tls_default),
            key_file = get_str s ''key_file'' (key_file tls_default),
            self_signed_cn = get_str s ''self_signed_cn'' (self_signed_cn tls_default)\<rparr>)"

definition load_auth :: "ini_section \<Rightarrow> string + auth_config" where
  "load_auth s =
     try_then (get_bool s ''enabled'' (enabled auth_default)) (\<lambda>en.
     try_then (get_int s ''session_inactivity_timeout'' (session_inactivity_timeout auth_default)) (\<lambda>ina.
     try_then (get_int s ''session_max_lifetime'' (session_max_lifetime auth_default)) (\<lambda>life.
     try_then (get_int s ''ws_auth_frame_timeout'' (ws_auth_frame_timeout auth_default)) (\<lambda>ws.
       Inr \<lparr>enabled = en, username = get_str s ''username'' (username auth_default),
            password_hash = get_str s ''password_hash'' (password_hash auth_default),
            session_inactivity_timeout = ina, session_max_lifetime = life,
            ws_auth_frame_timeout = ws\<rparr>))))"

definition load_rns :: "ini_section \<Rightarrow> string + rns_config" where
  "load_rns s =
     try_then (get_int s ''log_level'' (log_level rns_default)) (\<lambda>l.
       Inr \<lparr>config_dir = get_str s ''config_dir'' (config_dir rns_default), log_level = l\<rparr>)"

definition load_storage :: "ini_section \<Rightarrow> string + storage_config" where
  "load_storage s =
     Inr \<lparr>storage_root = get_str s ''root'' (storage_root storage_default),
          identities_dir = get_str s ''identities_dir'' (identities_dir storage_default),
          certs_dir = get_str s ''certs_dir'' (certs_dir storage_default),
          logs_dir = get_str s ''logs_dir'' (logs_dir storage_default)\<rparr>"

definition load_logging :: "ini_section \<Rightarrow> string + logging_config" where
  "load_logging s =
     try_then (get_int s ''rotate_max_bytes'' (rotate_max_bytes logging_default)) (\<lambda>mb.
     try_then (get_int s ''rotate_backup_count'' (rotate_backup_count logging_default)) (\<lambda>bc.
       Inr \<lparr>log_level_name = get_str s ''level'' (log_level_name logging_default),
            log_file = get_str s ''file'' (log_file logging_default),
            rotate_max_bytes = mb, rotate_backup_count = bc\<rparr>))"

definition load_limits :: "ini_section \<Rightarrow> string + limits_config" where
  "load_limits s =
     try_then (get_int s ''path_request_timeout'' (path_request_timeout limits_default)) (\<lambda>a.
     try_then (get_int s ''link_establish_timeout'' (link_establish_timeout limits_default)) (\<lambda>b.
     try_then (get_int s ''request_default_timeout'' (request_default_timeout limits_default)) (\<lambda>c.
     try_then (get_int s ''max_ws_message_bytes'' (max_ws_message_bytes limits_default)) (\<lambda>d.
     try_then (get_int s ''max_packet_bytes'' (max_packet_bytes limits_default)) (\<lambda>e.
       Inr \<lparr>path_request_timeout = a, link_establish_timeout = b, request_default_timeout = c,
            max_ws_message_bytes = d, max_packet_bytes = e\<rparr>)))))"

text \<open>\<open>parse_float\<close> is the interpreter's \<open>float(str)\<close>, a parameter; \<open>None\<close> is its exception.\<close>

definition load_resources :: "(string \<Rightarrow> rat option) \<Rightarrow> ini_section \<Rightarrow> string + resources_config" where
  "load_resources parse_float s =
     (let pct_raw = strip (sec_get s ''progress_throttle_pct'') in
      try_then
        (if pct_raw \<noteq> [] then
           (case parse_float pct_raw of None \<Rightarrow> Inl ''could not convert string to float'' | Some r \<Rightarrow> Inr r)
         else Inr (progress_throttle_pct resources_default)) (\<lambda>pct.
      try_then (get_int s ''retention_seconds'' (retention_seconds resources_default)) (\<lambda>ret.
      try_then (get_int s ''sweep_interval_seconds'' (sweep_interval_seconds resources_default)) (\<lambda>sw.
      try_then (get_int s ''max_inline_bytes'' (max_inline_bytes resources_default)) (\<lambda>mi.
      try_then (get_int s ''progress_throttle_ms'' (progress_throttle_ms resources_default)) (\<lambda>ms.
      try_then (get_bool s ''default_auto_accept'' (default_auto_accept resources_default)) (\<lambda>aa.
        Inr \<lparr>temp_dir = get_str s ''temp_dir'' (temp_dir resources_default), retention_seconds = ret,
             sweep_interval_seconds = sw, max_inline_bytes = mi, progress_throttle_ms = ms,
             progress_throttle_pct = pct, default_auto_accept = aa\<rparr>)))))))"

section \<open>validate and load\<close>

definition validate :: "config \<Rightarrow> string + unit" where
  "validate cfg =
     (if \<not> (0 < bind_port (network cfg) \<and> bind_port (network cfg) < 65536)
        then Inl (''[network] bind_port out of range: '' @ int_str (bind_port (network cfg)))
      else if allow_http (network cfg) \<and> \<not> (0 < http_port (network cfg) \<and> http_port (network cfg) < 65536)
        then Inl (''[network] http_port out of range: '' @ int_str (http_port (network cfg)))
      else if allow_http (network cfg) \<and> http_port (network cfg) = bind_port (network cfg)
        then Inl ''[network] http_port must differ from bind_port when allow_http=true''
      else if net_tls (network cfg) \<and> mode (tls cfg) = UserProvided \<and>
              (cert_file (tls cfg) = [] \<or> key_file (tls cfg) = [])
        then Inl ''[tls] user_provided mode requires cert_file and key_file''
      else if net_tls (network cfg) \<and> mode (tls cfg) = Disabled
        then Inl ''[network] tls=true but [tls] mode=disabled: inconsistent''
      else if enabled (auth cfg) \<and> password_hash (auth cfg) = []
        then Inl ''[auth] enabled=true but password_hash is empty''
      else Inr ())"

definition opt_section :: "ini \<Rightarrow> string \<Rightarrow> (ini_section \<Rightarrow> string + 'a) \<Rightarrow> 'a \<Rightarrow> string + 'a" where
  "opt_section ini name f dflt = (case dict_get ini name of None \<Rightarrow> Inr dflt | Some s \<Rightarrow> f s)"

definition load_config :: "(string \<Rightarrow> rat option) \<Rightarrow> ini \<Rightarrow> string + config" where
  "load_config parse_float ini =
     try_then (opt_section ini ''network'' load_network network_default) (\<lambda>nw.
     try_then (opt_section ini ''tls'' load_tls tls_default) (\<lambda>tl.
     try_then (opt_section ini ''auth'' load_auth auth_default) (\<lambda>au.
     try_then (opt_section ini ''rns'' load_rns rns_default) (\<lambda>rn.
     try_then (opt_section ini ''storage'' load_storage storage_default) (\<lambda>st.
     try_then (opt_section ini ''logging'' load_logging logging_default) (\<lambda>lo.
     try_then (opt_section ini ''limits'' load_limits limits_default) (\<lambda>li.
     try_then (opt_section ini ''resources'' (load_resources parse_float) resources_default) (\<lambda>re.
       let cfg = \<lparr>network = nw, tls = tl, auth = au, rns = rn, storage = st, logging = lo,
                  limits = li, resources = re\<rparr>
       in try_then (validate cfg) (\<lambda>_. Inr cfg)))))))))"

section \<open>Serving plan\<close>

text \<open>
  \<open>server.run\<close> and \<open>build_ssl\<close>: which ports are opened, and with what TLS material. The
  certificate paths and the generation of a self-signed one are the TLS layer's.
\<close>

datatype ssl_source = CertFiles string string | SelfSignedFor string

definition build_ssl :: "config \<Rightarrow> ssl_source option" where
  "build_ssl cfg =
     (if \<not> net_tls (network cfg) then None
      else case mode (tls cfg) of
        Disabled \<Rightarrow> None
      | UserProvided \<Rightarrow> Some (CertFiles (cert_file (tls cfg)) (key_file (tls cfg)))
      | SelfSigned \<Rightarrow> Some (SelfSignedFor (self_signed_cn (tls cfg))))"

record site =
  site_host :: string
  site_port :: int
  site_ssl :: "ssl_source option"

definition run_sites :: "config \<Rightarrow> site list" where
  "run_sites cfg =
     (if net_tls (network cfg)
      then [\<lparr>site_host = bind_host (network cfg), site_port = bind_port (network cfg), site_ssl = build_ssl cfg\<rparr>]
      else []) @
     (if allow_http (network cfg) \<or> \<not> net_tls (network cfg)
      then [\<lparr>site_host = bind_host (network cfg),
             site_port = (if \<not> net_tls (network cfg) then bind_port (network cfg) else http_port (network cfg)),
             site_ssl = None\<rparr>]
      else [])"

section \<open>Lemmas\<close>

lemma load_config_validated:
  assumes "load_config pf ini = Inr cfg"
  shows "validate cfg = Inr ()"
  using assms unfolding load_config_def Let_def
  by (auto dest!: try_then_InrD)

lemma validate_InrD:
  assumes "validate cfg = Inr ()"
  shows "0 < bind_port (network cfg)" "bind_port (network cfg) < 65536"
    "allow_http (network cfg) \<Longrightarrow> 0 < http_port (network cfg) \<and> http_port (network cfg) < 65536"
    "allow_http (network cfg) \<Longrightarrow> http_port (network cfg) \<noteq> bind_port (network cfg)"
    "net_tls (network cfg) \<Longrightarrow> mode (tls cfg) \<noteq> Disabled"
    "net_tls (network cfg) \<Longrightarrow> mode (tls cfg) = UserProvided \<Longrightarrow> cert_file (tls cfg) \<noteq> [] \<and> key_file (tls cfg) \<noteq> []"
    "enabled (auth cfg) \<Longrightarrow> password_hash (auth cfg) \<noteq> []"
  using assms by (auto simp: validate_def split: if_splits)

text \<open>C33. A configuration that loads opens its ports safely: at least one site, every port in
  range, no port twice, the TLS site really has a certificate source, and no plaintext site is
  opened unless the operator allowed HTTP or turned TLS off.\<close>

theorem loaded_config_serves_safely:
  assumes "load_config pf ini = Inr cfg"
  shows "run_sites cfg \<noteq> [] \<and>
    distinct (map site_port (run_sites cfg)) \<and>
    list_all (\<lambda>s. 0 < site_port s \<and> site_port s < 65536) (run_sites cfg) \<and>
    list_all (\<lambda>s. site_ssl s = None \<longrightarrow> allow_http (network cfg) \<or> \<not> net_tls (network cfg)) (run_sites cfg) \<and>
    (net_tls (network cfg) \<longrightarrow> list_ex (\<lambda>s. site_ssl s \<noteq> None) (run_sites cfg))"
proof -
  have v: "validate cfg = Inr ()" using assms by (rule load_config_validated)
  show ?thesis
    using validate_InrD [OF v]
    by (cases "mode (tls cfg)") (auto simp: run_sites_def build_ssl_def)
qed

lemma load_config_empty: "load_config pf [] = Inr config_default"
  by (simp add: load_config_def opt_section_def Let_def config_default_def validate_def network_default_def
      tls_default_def auth_default_def)

theorem loaded_config_serves_safely_witness:
  "load_config (\<lambda>_. None) [] = Inr config_default \<and> run_sites config_default \<noteq> []"
  using load_config_empty loaded_config_serves_safely [OF load_config_empty [of "\<lambda>_. None"]] by blast

end
