(* ===== verification/Default_Config.thy ===== *)
theory Default_Config
  imports Config
begin

text \<open>
  The configuration file that \<open>rnsapid --init\<close> writes (\<open>DEFAULT_CONFIG_TEXT\<close> of \<open>config.py\<close>), line
  by line, and the part of \<open>configparser\<close> that reads such a file: comments, section headers and
  options on one line each. Continuation lines, interpolation and the \<open>DEFAULT\<close> section, which the
  file does not use, are left out.
\<close>

section \<open>Reading an INI file\<close>

definition is_delim :: "char \<Rightarrow> bool" where
  "is_delim c \<longleftrightarrow> c = CHR ''='' \<or> c = CHR '':''"

definition is_comment :: "string \<Rightarrow> bool" where
  "is_comment t \<longleftrightarrow> t = [] \<or> hd t = CHR ''#'' \<or> hd t = CHR '';''"

definition section_header :: "string \<Rightarrow> string option" where
  "section_header t =
     (if 2 < length t \<and> hd t = CHR ''['' \<and> last t = CHR '']'' then Some (butlast (tl t)) else None)"

text \<open>\<open>optionxform\<close> is \<open>lower\<close>; the first delimiter ends the name.\<close>

fun split_delim :: "string \<Rightarrow> (string \<times> string) option" where
  "split_delim [] = None"
| "split_delim (c # cs) =
     (if is_delim c then Some ([], cs)
      else case split_delim cs of None \<Rightarrow> None | Some (k, v) \<Rightarrow> Some (c # k, v))"

definition option_line :: "string \<Rightarrow> (string \<times> string) option" where
  "option_line t =
     (case split_delim t of
        None \<Rightarrow> None
      | Some (k, v) \<Rightarrow> (case strip k of [] \<Rightarrow> None | x # xs \<Rightarrow> Some (lower (x # xs), strip v)))"

datatype ini_line = Skip | Header string | Option string string | Bad

definition classify :: "string \<Rightarrow> ini_line" where
  "classify l =
     (let t = strip l in
      if is_comment t then Skip
      else case section_header t of
        Some name \<Rightarrow> Header name
      | None \<Rightarrow> (case option_line t of Some (k, v) \<Rightarrow> Option k v | None \<Rightarrow> Bad))"

fun read_lines :: "ini_line list \<Rightarrow> string option \<Rightarrow> ini \<Rightarrow> string + ini" where
  "read_lines [] current ini = Inr ini"
| "read_lines (Skip # ls) current ini = read_lines ls current ini"
| "read_lines (Header name # ls) current ini =
     (if dict_get ini name \<noteq> None then Inl ''DuplicateSectionError''
      else read_lines ls (Some name) (dict_set name \<lparr>sec_name = name, sec_opts = []\<rparr> ini))"
| "read_lines (Option k v # ls) current ini =
     (case current of
        None \<Rightarrow> Inl ''MissingSectionHeaderError''
      | Some sec \<Rightarrow>
         (case dict_get ini sec of
            None \<Rightarrow> Inl ''MissingSectionHeaderError''
          | Some s \<Rightarrow>
             (if dict_get (sec_opts s) k \<noteq> None then Inl ''DuplicateOptionError''
              else read_lines ls current (dict_set sec (s\<lparr>sec_opts := dict_set k v (sec_opts s)\<rparr>) ini))))"
| "read_lines (Bad # ls) current ini =
     Inl (if current = None then ''MissingSectionHeaderError'' else ''ParsingError'')"

definition read_ini :: "string list \<Rightarrow> string + ini" where
  "read_ini ls = read_lines (map classify ls) None []"

lemma classify_comment: "classify (CHR ''#'' # xs) = Skip"
proof -
  have sp: "\<not> py_space (CHR ''#'')" by code_simp
  have "dropWhile py_space (rev xs @ [CHR ''#'']) \<noteq> []" "last (dropWhile py_space (rev xs @ [CHR ''#''])) = CHR ''#''"
    by (induction xs rule: rev_induct) (use sp in auto)
  then have "hd (strip (CHR ''#'' # xs)) = CHR ''#''" using sp by (simp add: strip_def strip_with_def hd_rev)
  then show ?thesis by (simp add: classify_def is_comment_def Let_def)
qed

lemmas classify_line = classify_def strip_def strip_with_def py_space_def code_def is_comment_def section_header_def
  option_line_def is_delim_def lower_def lower_char_def

section \<open>The file\<close>

definition default_config_lines :: "string list" where
  "default_config_lines =
     [''# rnsapid configuration'',
      ''# See docs/config.md for the full reference.'',
      [],
      ''[network]'',
      ''bind_host = 127.0.0.1'',
      ''bind_port = 8000'',
      ''tls = true'',
      ''# When true, also expose a plaintext HTTP+WS port (useful for development)'',
      ''allow_http = false'',
      ''http_port = 8001'',
      [],
      ''[tls]'',
      ''# Options: self_signed | user_provided | disabled'',
      ''mode = self_signed'',
      ''cert_file ='',
      ''key_file ='',
      ''self_signed_cn = localhost'',
      [],
      ''[auth]'',
      ''enabled = false'',
      ''username = admin'',
      ''# argon2 or bcrypt hash of the password; never store plaintext here.'',
      ''password_hash ='',
      ''session_inactivity_timeout = 1800'',
      ''session_max_lifetime = 86400'',
      ''ws_auth_frame_timeout = 5'',
      [],
      ''[rns]'',
      (''# Empty = use RNS'' @ [CHR 0x27] @ ''s default (~/.config/reticulum). Overriding lets rnsapid run''),
      ''# against its own private Reticulum config, isolated from other apps.'',
      ''config_dir ='',
      ''log_level = 3'',
      [],
      ''[storage]'',
      ''root = ~/.config/rnsapi'',
      ''identities_dir = identities'',
      ''certs_dir = certs'',
      ''logs_dir = logs'',
      [],
      ''[logging]'',
      ''level = INFO'',
      ''file = logs/rnsapid.log'',
      ''rotate_max_bytes = 10485760'',
      ''rotate_backup_count = 5'',
      [],
      ''[limits]'',
      ''path_request_timeout = 15'',
      ''link_establish_timeout = 15'',
      ''request_default_timeout = 30'',
      ''max_ws_message_bytes = 1048576'',
      ''max_packet_bytes = 65535'',
      [],
      ''[resources]'',
      ''# Directory (relative to storage root) for received/uploaded resource files.'',
      ''temp_dir = resources'',
      ''# Auto-cleanup of completed transfers older than this many seconds.'',
      ''retention_seconds = 3600'',
      ''# How often the cleanup sweep runs.'',
      ''sweep_interval_seconds = 300'',
      ''# Inline base64-encode the received bytes in the resource.completed event when'',
      ''# the resource is this small or smaller. Larger resources require a REST'',
      ''# download via GET /resources/{id}/data.'',
      ''max_inline_bytes = 65536'',
      ''# Progress events coalesced to at most this rate.'',
      ''progress_throttle_ms = 250'',
      ''progress_throttle_pct = 1.0'',
      ''# Auto-accept every incoming Resource advertisement on every session-owned Link.'',
      ''# Per-link override available via POST /links/{id}/resources/policy.'',
      ''default_auto_accept = true'']"

definition default_config_text :: string where
  "default_config_text = concat (map (\<lambda>l. l @ [CHR 0x0A]) default_config_lines)"

section \<open>It means the defaults\<close>

text \<open>The options the file sets.\<close>

definition default_ini :: ini where
  "default_ini =
     map (\<lambda>(n, opts). (n, \<lparr>sec_name = n, sec_opts = opts\<rparr>))
       [(''network'',
          [(''bind_host'', ''127.0.0.1''), (''bind_port'', ''8000''), (''tls'', ''true''),
          (''allow_http'', ''false''), (''http_port'', ''8001'')]),
        (''tls'',
          [(''mode'', ''self_signed''), (''cert_file'', []), (''key_file'', []), (''self_signed_cn'', ''localhost'')]),
        (''auth'',
          [(''enabled'', ''false''), (''username'', ''admin''), (''password_hash'', []),
          (''session_inactivity_timeout'', ''1800''), (''session_max_lifetime'', ''86400''),
          (''ws_auth_frame_timeout'', ''5'')]),
        (''rns'',
          [(''config_dir'', []), (''log_level'', ''3'')]),
        (''storage'',
          [(''root'', ''~/.config/rnsapi''), (''identities_dir'', ''identities''), (''certs_dir'', ''certs''),
          (''logs_dir'', ''logs'')]),
        (''logging'',
          [(''level'', ''INFO''), (''file'', ''logs/rnsapid.log''), (''rotate_max_bytes'', ''10485760''),
          (''rotate_backup_count'', ''5'')]),
        (''limits'',
          [(''path_request_timeout'', ''15''), (''link_establish_timeout'', ''15''),
          (''request_default_timeout'', ''30''), (''max_ws_message_bytes'', ''1048576''),
          (''max_packet_bytes'', ''65535'')]),
        (''resources'',
          [(''temp_dir'', ''resources''), (''retention_seconds'', ''3600''), (''sweep_interval_seconds'', ''300''),
          (''max_inline_bytes'', ''65536''), (''progress_throttle_ms'', ''250''),
          (''progress_throttle_pct'', ''1.0''), (''default_auto_accept'', ''true'')])]"

lemma default_config_tokens:
  "map classify default_config_lines =
     [Skip, Skip, Skip, Header ''network'', Option ''bind_host'' ''127.0.0.1'', Option ''bind_port'' ''8000'',
      Option ''tls'' ''true'', Skip, Option ''allow_http'' ''false'', Option ''http_port'' ''8001'', Skip,
      Header ''tls'', Skip, Option ''mode'' ''self_signed'', Option ''cert_file'' [], Option ''key_file'' [],
      Option ''self_signed_cn'' ''localhost'', Skip, Header ''auth'', Option ''enabled'' ''false'',
      Option ''username'' ''admin'', Skip, Option ''password_hash'' [],
      Option ''session_inactivity_timeout'' ''1800'', Option ''session_max_lifetime'' ''86400'',
      Option ''ws_auth_frame_timeout'' ''5'', Skip, Header ''rns'', Skip, Skip, Option ''config_dir'' [],
      Option ''log_level'' ''3'', Skip, Header ''storage'', Option ''root'' ''~/.config/rnsapi'',
      Option ''identities_dir'' ''identities'', Option ''certs_dir'' ''certs'', Option ''logs_dir'' ''logs'', Skip,
      Header ''logging'', Option ''level'' ''INFO'', Option ''file'' ''logs/rnsapid.log'',
      Option ''rotate_max_bytes'' ''10485760'', Option ''rotate_backup_count'' ''5'', Skip, Header ''limits'',
      Option ''path_request_timeout'' ''15'', Option ''link_establish_timeout'' ''15'',
      Option ''request_default_timeout'' ''30'', Option ''max_ws_message_bytes'' ''1048576'',
      Option ''max_packet_bytes'' ''65535'', Skip, Header ''resources'', Skip, Option ''temp_dir'' ''resources'',
      Skip, Option ''retention_seconds'' ''3600'', Skip, Option ''sweep_interval_seconds'' ''300'', Skip, Skip, Skip,
      Option ''max_inline_bytes'' ''65536'', Skip, Option ''progress_throttle_ms'' ''250'',
      Option ''progress_throttle_pct'' ''1.0'', Skip, Skip, Option ''default_auto_accept'' ''true'']"
  by (simp only: default_config_lines_def list.map classify_comment) (simp add: classify_line)

lemma default_config_read: "read_ini default_config_lines = Inr default_ini"
  by (simp add: read_ini_def default_config_tokens default_ini_def dict_get_def dict_set_def)

lemmas option_value = opt_section_def default_ini_def dict_get_def get_int_def get_bool_def get_str_def sec_get_def
  strip_def strip_with_def py_space_def code_def lower_def lower_char_def py_int_def is_ascii_def ascii_space_def
  unsigned_val_def digit_val_def Let_def

lemma default_sections:
  "opt_section default_ini ''network'' load_network network_default = Inr network_default"
  "opt_section default_ini ''tls'' load_tls tls_default = Inr tls_default"
  "opt_section default_ini ''auth'' load_auth auth_default = Inr auth_default"
  "opt_section default_ini ''rns'' load_rns rns_default = Inr rns_default"
  "opt_section default_ini ''storage'' load_storage storage_default = Inr storage_default"
  "opt_section default_ini ''logging'' load_logging logging_default = Inr logging_default"
  "opt_section default_ini ''limits'' load_limits limits_default = Inr limits_default"
  by (simp_all add: option_value load_network_def network_default_def load_tls_def tls_default_def parse_tls_mode_def
      load_auth_def auth_default_def load_rns_def rns_default_def load_storage_def storage_default_def
      load_logging_def logging_default_def load_limits_def limits_default_def)

lemma default_resources_section:
  "parse_float ''1.0'' = Some 1 \<Longrightarrow>
   opt_section default_ini ''resources'' (load_resources parse_float) resources_default = Inr resources_default"
  by (simp add: option_value load_resources_def resources_default_def)

lemma default_config_valid: "validate config_default = Inr ()"
  by (simp add: validate_def config_default_def network_default_def tls_default_def auth_default_def)

lemma default_config_loads:
  assumes "parse_float ''1.0'' = Some 1"
  shows "load_config parse_float default_ini = Inr config_default"
  unfolding load_config_def default_sections default_resources_section [of parse_float, OF assms] try_then_simps Let_def
    config_default_def [symmetric] default_config_valid ..

text \<open>The configuration file that \<open>--init\<close> writes means what the code means by its defaults: it can
  be read, it loads, and the loaded configuration is the default one, option by option.\<close>

theorem init_config_is_default:
  assumes "parse_float ''1.0'' = Some 1"
  shows "\<exists>ini. read_ini default_config_lines = Inr ini \<and> load_config parse_float ini = Inr config_default"
  using default_config_read default_config_loads [of parse_float, OF assms] by blast

theorem init_config_is_default_witness:
  "\<exists>ini. read_ini default_config_lines = Inr ini \<and> load_config (\<lambda>_. Some 1) ini = Inr config_default"
  by (rule init_config_is_default) simp

end
