(* ===== verification/Passwords.thy ===== *)
theory Passwords
  imports Base64
begin

text \<open>
  \<open>auth/passwords.py\<close>: the encoded form \<open>scrypt$N$r$p$salt_hex$hash_hex\<close> of the configured
  login password. The key derivation \<open>hashlib.scrypt\<close> is OpenSSL's: a parameter
  \<open>kdf password salt n r p dklen\<close>, where \<open>Inl\<close> is the exception it raises on parameters it
  rejects. The password bytes are those \<open>str.encode("utf-8")\<close> gives.
\<close>

type_synonym kdf = "bytes \<Rightarrow> bytes \<Rightarrow> int \<Rightarrow> int \<Rightarrow> int \<Rightarrow> nat \<Rightarrow> exn + bytes"

definition pw_N :: int where "pw_N = 2 ^ 14"
definition pw_R :: int where "pw_R = 8"
definition pw_P :: int where "pw_P = 1"
definition pw_SALT_BYTES :: nat where "pw_SALT_BYTES = 16"
definition pw_KEY_LEN :: nat where "pw_KEY_LEN = 32"

text \<open>UTF-8 of code points below 256: one byte below 128, two above.\<close>

definition utf8_char :: "char \<Rightarrow> bytes" where
  "utf8_char c =
     (let n = code c in
      if n < 128 then [of_nat n] else [of_nat (192 + n div 64), of_nat (128 + n mod 64)])"

definition utf8 :: "string \<Rightarrow> bytes" where
  "utf8 s = concat (map utf8_char s)"

text \<open>\<open>salt\<close> is the random \<open>os.urandom(16)\<close>.\<close>

definition hash_password :: "kdf \<Rightarrow> bytes \<Rightarrow> string \<Rightarrow> exn + string" where
  "hash_password kdf salt password =
     (case kdf (utf8 password) salt pw_N pw_R pw_P pw_KEY_LEN of
        Inl e \<Rightarrow> Inl e
      | Inr key \<Rightarrow>
          Inr (''scrypt$'' @ int_str pw_N @ ''$'' @ int_str pw_R @ ''$'' @ int_str pw_P @ ''$'' @
               bytes_hex salt @ ''$'' @ bytes_hex key))"

text \<open>
  \<open>secrets.compare_digest\<close> is equality of the byte strings (its point is its running time,
  which is not modelled).
\<close>

definition verify_password :: "kdf \<Rightarrow> string \<Rightarrow> string \<Rightarrow> exn + bool" where
  "verify_password kdf password encoded =
     (if encoded = [] \<or> password = [] then Inr False
      else (case split_on (CHR ''$'') encoded of
        [scheme, n_s, r_s, p_s, salt_hex, hash_hex] \<Rightarrow>
          if scheme \<noteq> ''scrypt'' then Inr False
          else (case (py_int n_s, py_int r_s, py_int p_s, fromhex salt_hex, fromhex hash_hex) of
            (Some n, Some r, Some p, Some salt, Some expected) \<Rightarrow>
              (case kdf (utf8 password) salt n r p (length expected) of
                 Inl e \<Rightarrow> Inl e
               | Inr actual \<Rightarrow> Inr (expected = actual))
          | _ \<Rightarrow> Inr False)
      | _ \<Rightarrow> Inr False))"

section \<open>Lemmas\<close>

text \<open>What the daemon relies on: a successful derivation returns as many bytes as asked for.\<close>

definition kdf_length :: "kdf \<Rightarrow> bool" where
  "kdf_length kdf \<longleftrightarrow> (\<forall>pw salt n r p len key. kdf pw salt n r p len = Inr key \<longrightarrow> length key = len)"

definition encoded_of :: "bytes \<Rightarrow> bytes \<Rightarrow> string" where
  "encoded_of salt key =
     join ''$'' [''scrypt'', int_str pw_N, int_str pw_R, int_str pw_P, bytes_hex salt, bytes_hex key]"

lemma int_str_params:
  "int_str pw_N = ''16384''" "int_str pw_R = ''8''" "int_str pw_P = ''1''"
  by (simp_all add: pw_N_def pw_R_def pw_P_def int_str_def nat_str.simps digit_chars)

lemma py_int_params: "py_int ''16384'' = Some pw_N" "py_int ''8'' = Some pw_R" "py_int ''1'' = Some pw_P"
proof -
  have n: "nat_str 16384 = ''16384''" "nat_str 8 = ''8''" "nat_str 1 = ''1''"
    by (simp_all add: nat_str.simps digit_chars)
  show "py_int ''16384'' = Some pw_N" "py_int ''8'' = Some pw_R" "py_int ''1'' = Some pw_P"
    using py_int_nat_str [of 16384] py_int_nat_str [of 8] py_int_nat_str [of 1]
    by (simp_all add: n pw_N_def pw_R_def pw_P_def del: One_nat_def)
qed

lemma hash_password_encoded:
  "kdf (utf8 password) salt pw_N pw_R pw_P pw_KEY_LEN = Inr key \<Longrightarrow>
   hash_password kdf salt password = Inr (encoded_of salt key)"
  by (simp add: hash_password_def encoded_of_def)

lemma split_encoded:
  "split_on (CHR ''$'') (encoded_of salt key) =
     [''scrypt'', ''16384'', ''8'', ''1'', bytes_hex salt, bytes_hex key]"
  unfolding encoded_of_def int_str_params
  by (rule split_on_join) (simp_all add: bytes_hex_no_dollar)

lemma verify_encoded:
  "password \<noteq> [] \<Longrightarrow>
   verify_password kdf password (encoded_of salt key) =
     (case kdf (utf8 password) salt pw_N pw_R pw_P (length key) of
        Inl e \<Rightarrow> Inl e | Inr actual \<Rightarrow> Inr (key = actual))"
  by (simp add: verify_password_def split_encoded py_int_params)
    (simp add: encoded_of_def)


text \<open>A concrete key derivation for the witness: it stretches the password to the length asked for.\<close>

definition kdf_pad :: kdf where
  "kdf_pad pw salt n r p len = Inr (take len (pw @ salt @ replicate len 0))"

lemma kdf_pad_length: "kdf_length kdf_pad"
  by (auto simp: kdf_length_def kdf_pad_def)


end
