(* ===== verification/Model.thy ===== *)
theory Model
  imports Config
begin

text \<open>
  The data of the daemon: the objects the RNS package hands out, as far as the source looks at
  them; the \<open>Session\<close> of \<open>auth/session.py\<close>; \<open>_LinkEntry\<close> of \<open>rns/links.py\<close> and
  \<open>TransferState\<close> of \<open>rns/resources.py\<close>, which live in a store because closures and
  background tasks keep references to them; and the trace of outward actions.

  RNS itself is not under \<open>src/\<close>: its objects are plain data that the environment may change
  between steps, and the calls the daemon makes on them are recorded in the trace.
\<close>

section \<open>Objects of the RNS package\<close>

text \<open>\<open>RNS.Link.PENDING\<close> to \<open>CLOSED\<close>; any other value prints as \<open>UNKNOWN\<close>.\<close>

datatype link_status = LPending | LHandshake | LActive | LStale | LClosed | LOther

datatype teardown_reason = TrTimeout | TrInitiatorClosed | TrDestinationClosed | TrOther

datatype resource_status =
  RNone | RQueued | RAdvertised | RTransferring | RAwaitingProof | RAssembling | RComplete
| RFailed | RCorrupt | RRejected | ROther

datatype dest_direction = DirIn | DirOut

datatype dest_type = TSingle | TGroup | TPlain | TLink

record rns_identity =
  id_hash :: bytes
  id_hexhash :: string
  id_public_key :: bytes

record rns_destination =
  d_hash :: bytes
  d_identity :: "rns_identity option"
  d_name :: string
  d_direction :: dest_direction
  d_type :: dest_type

record rns_link =
  rl_status :: link_status
  rl_mtu :: json
  rl_mdu :: json
  rl_teardown_reason :: teardown_reason
  rl_remote :: "string option"

section \<open>References\<close>

text \<open>Addresses of link entries, RNS links, transfers, RNS resources and packet receipts.\<close>

type_synonym eref = nat
type_synonym lref = nat
type_synonym tref = nat
type_synonym rref = nat
type_synonym receipt_ref = nat

section \<open>Bookkeeping records\<close>

record link_entry =
  le_link :: "lref option"
  le_destination_hash :: bytes
  le_aspect :: string
  le_app_name :: string
  le_sub_aspects :: "string list"
  le_identified :: bool
  le_open_client_id :: json
  le_suppress :: bool

record transfer =
  t_id :: string
  t_session_id :: string
  t_direction :: string
  t_link_id_hex :: string
  t_status :: string
  t_total_size :: int
  t_bytes_transferred :: int
  t_progress :: rat
  t_temp_path :: "string option"
  t_upload_temp_path :: "string option"
  t_metadata :: json
  t_created_at :: rat
  t_completed_at :: "rat option"
  t_failure_reason :: "string option"
  t_resource :: "rref option"
  t_done_event :: "bool option"
  t_last_emit_ts :: rat
  t_last_emit_pct :: rat
  t_poller :: "bool option"

text \<open>
  \<open>t_done_event\<close> is the \<open>asyncio.Event\<close> and whether it is set, \<open>t_poller\<close> the polling task
  and whether it still runs.
\<close>

record session =
  s_id :: string
  s_token :: string
  created_at :: rat
  last_seen_at :: rat
  is_anonymous :: bool
  active_identity_hash :: "bytes option"
  owned_destinations :: "(bytes, rns_destination) dict"
  open_links :: "(bytes, eref) dict"
  packet_listeners :: "bytes list"
  pending_receipts :: "(string, receipt_ref option) dict"
  active_transfers :: "(string, tref) dict"
  link_resource_policy :: "(bytes, bool) dict"
  ws_connections :: "string list"

definition new_session :: "string \<Rightarrow> string \<Rightarrow> rat \<Rightarrow> bool \<Rightarrow> session" where
  "new_session sid token now anon =
     \<lparr>s_id = sid, s_token = token, created_at = now, last_seen_at = now, is_anonymous = anon,
      active_identity_hash = None, owned_destinations = [], open_links = [], packet_listeners = [],
      pending_receipts = [], active_transfers = [], link_resource_policy = [], ws_connections = []\<rparr>"

definition touch :: "rat \<Rightarrow> session \<Rightarrow> session" where
  "touch now s = s\<lparr>last_seen_at := now\<rparr>"

section \<open>Outward actions\<close>

datatype rns_call =
    RequestPath bytes
  | NewDestination rns_destination
  | OutDestination rns_destination
  | Deregister rns_destination
  | SetDestCallback bytes bool
  | Announce bytes "bytes option"
  | SendPacket bytes bytes
  | ReceiptCallbacks receipt_ref bool
  | ReceiptTimeout receipt_ref json
  | NewLink lref bytes
  | WireLink lref eref
  | TeardownLink lref
  | IdentifyLink lref bytes
  | SendLinkPacket lref bytes
  | LinkRequest lref string json json
  | SetStrategy lref bool
  | WireResources lref
  | NewResource rref lref
  | CancelResource rref
  | RegisterAnnounceHandler
  | DeregisterAnnounceHandler

text \<open>
  \<open>OutDestination\<close> is the throw-away outgoing destination that a packet or a link is made to;
  \<open>HubSession\<close>, \<open>HubBroadcast\<close>: an awaited \<open>hub.send_session\<close>, \<open>hub.broadcast\<close>;
  \<open>BridgeSession\<close>, \<open>BridgeBroadcast\<close>: the same handed to \<open>AsyncBridge.run_async\<close> from a
  callback; \<open>ConnSend\<close>: a reply to one connection; \<open>ConnClose\<close>: a close frame.
\<close>

datatype effect =
    HubSession string json
  | HubBroadcast json
  | BridgeSession string json
  | BridgeBroadcast json
  | ConnSend string json
  | ConnClose string int string
  | Rns rns_call
  | Unlink string
  | WriteFile string bytes

section \<open>State\<close>

text \<open>\<open>StoragePaths\<close> of \<open>paths.py\<close>; \<open>p / x\<close> on paths is \<open>path_join\<close>.\<close>

record storage_paths =
  sp_root :: string
  sp_config_file :: string
  sp_identities_dir :: string
  sp_default_identity_file :: string
  sp_certs_dir :: string
  sp_logs_dir :: string
  sp_resources_dir :: string

definition path_join :: "string \<Rightarrow> string \<Rightarrow> string" where
  "path_join p x = p @ ''/'' @ x"

text \<open>
  \<open>paths.resolve\<close>: the argument, else \<open>$RNSAPI_HOME\<close>, else the default root; \<open>canon\<close> is
  the operating system's \<open>expanduser().resolve()\<close>.
\<close>

definition resolve_paths :: "(string \<Rightarrow> string) \<Rightarrow> string option \<Rightarrow> string option \<Rightarrow> storage_paths" where
  "resolve_paths canon env_home arg =
     (let root = canon (case arg of Some r \<Rightarrow> r
                       | None \<Rightarrow> (case env_home of Some h \<Rightarrow> h | None \<Rightarrow> ''~/.config/rnsapi''))
      in \<lparr>sp_root = root, sp_config_file = path_join root ''config'',
          sp_identities_dir = path_join root ''identities'',
          sp_default_identity_file = path_join root ''default_identity'',
          sp_certs_dir = path_join root ''certs'', sp_logs_dir = path_join root ''logs'',
          sp_resources_dir = path_join root ''resources''\<rparr>)"

text \<open>
  \<open>shared\<close> is what all sessions share: the store, the files and the trace. A service operation
  works on a \<open>sys\<close>: the shared part and the one session it is given. \<open>res_files\<close> are the
  files of transfers by path, \<open>res_tags\<close> the \<open>_rnsapi_transfer_id\<close> that is set on an
  RNS resource.
\<close>

record shared =
  entries :: "eref \<Rightarrow> link_entry"
  rlinks :: "lref \<Rightarrow> rns_link"
  transfers :: "tref \<Rightarrow> transfer"
  store_paths :: storage_paths
  id_files :: "(string, bytes) dict"
  default_id_file :: "bytes option"
  res_files :: "(string, bytes) dict"
  res_tags :: "rref \<Rightarrow> string option"
  next_ref :: nat
  trace :: "effect list"

record sys = shared +
  ses :: session

definition emit :: "effect \<Rightarrow> 'a shared_scheme \<Rightarrow> 'a shared_scheme" where
  "emit e s = s\<lparr>trace := trace s @ [e]\<rparr>"

definition upd_ses :: "(session \<Rightarrow> session) \<Rightarrow> sys \<Rightarrow> sys" where
  "upd_ses f s = s\<lparr>ses := f (ses s)\<rparr>"

definition upd_entry :: "eref \<Rightarrow> (link_entry \<Rightarrow> link_entry) \<Rightarrow> 'a shared_scheme \<Rightarrow> 'a shared_scheme" where
  "upd_entry e f s = s\<lparr>entries := (entries s)(e := f (entries s e))\<rparr>"

definition upd_transfer :: "tref \<Rightarrow> (transfer \<Rightarrow> transfer) \<Rightarrow> 'a shared_scheme \<Rightarrow> 'a shared_scheme" where
  "upd_transfer t f s = s\<lparr>transfers := (transfers s)(t := f (transfers s t))\<rparr>"

lemma emit_frame [simp, frame_simps]:
  "entries (emit e s) = entries s" "rlinks (emit e s) = rlinks s" "transfers (emit e s) = transfers s"
  "store_paths (emit e s) = store_paths s" "id_files (emit e s) = id_files s" "default_id_file (emit e s) = default_id_file s"
  "res_files (emit e s) = res_files s" "res_tags (emit e s) = res_tags s" "next_ref (emit e s) = next_ref s"
  "trace (emit e s) = trace s @ [e]"
  by (simp_all add: emit_def)

lemma emit_ses [simp, frame_simps]: "ses (emit e s) = ses s"
  by (simp add: emit_def)

lemma upd_ses_frame [simp, frame_simps]:
  "entries (upd_ses f s) = entries s" "rlinks (upd_ses f s) = rlinks s" "transfers (upd_ses f s) = transfers s"
  "store_paths (upd_ses f s) = store_paths s" "id_files (upd_ses f s) = id_files s" "default_id_file (upd_ses f s) = default_id_file s"
  "res_files (upd_ses f s) = res_files s" "res_tags (upd_ses f s) = res_tags s" "next_ref (upd_ses f s) = next_ref s"
  "trace (upd_ses f s) = trace s" "ses (upd_ses f s) = f (ses s)"
  by (simp_all add: upd_ses_def)

lemma upd_entry_frame [simp, frame_simps]:
  "entries (upd_entry e f s) = (entries s)(e := f (entries s e))"
  "rlinks (upd_entry e f s) = rlinks s" "transfers (upd_entry e f s) = transfers s"
  "store_paths (upd_entry e f s) = store_paths s" "id_files (upd_entry e f s) = id_files s" "default_id_file (upd_entry e f s) = default_id_file s"
  "res_files (upd_entry e f s) = res_files s" "res_tags (upd_entry e f s) = res_tags s" "next_ref (upd_entry e f s) = next_ref s"
  "trace (upd_entry e f s) = trace s"
  by (simp_all add: upd_entry_def)

lemma upd_entry_ses [simp, frame_simps]: "ses (upd_entry e f s) = ses s"
  by (simp add: upd_entry_def)

lemma upd_transfer_frame [simp, frame_simps]:
  "entries (upd_transfer t f s) = entries s" "rlinks (upd_transfer t f s) = rlinks s"
  "transfers (upd_transfer t f s) = (transfers s)(t := f (transfers s t))"
  "store_paths (upd_transfer t f s) = store_paths s" "id_files (upd_transfer t f s) = id_files s" "default_id_file (upd_transfer t f s) = default_id_file s"
  "res_files (upd_transfer t f s) = res_files s" "res_tags (upd_transfer t f s) = res_tags s" "next_ref (upd_transfer t f s) = next_ref s"
  "trace (upd_transfer t f s) = trace s"
  by (simp_all add: upd_transfer_def)

lemma upd_transfer_ses [simp, frame_simps]: "ses (upd_transfer t f s) = ses s"
  by (simp add: upd_transfer_def)

lemma touch_frame [simp, frame_simps]:
  "s_id (touch now x) = s_id x" "s_token (touch now x) = s_token x" "created_at (touch now x) = created_at x"
  "last_seen_at (touch now x) = now" "is_anonymous (touch now x) = is_anonymous x"
  "owned_destinations (touch now x) = owned_destinations x" "open_links (touch now x) = open_links x"
  "packet_listeners (touch now x) = packet_listeners x" "ws_connections (touch now x) = ws_connections x"
  by (simp_all add: touch_def)

section \<open>The RNS package as a parameter\<close>

text \<open>
  The answers of RNS that decide what the daemon does. \<open>has_path_at i\<close> is the answer to the
  \<open>i\<close>-th path probe of one operation, \<open>clock_at i\<close> the clock read with it, and
  \<open>recall_at i\<close> the announce cache once \<open>i\<close> probes have been made (a path response also
  fills that cache).
\<close>

record rns_env =
  identity_from_file :: "bytes \<Rightarrow> exn + rns_identity option"
  identity_to_file :: "rns_identity \<Rightarrow> bytes"
  destination_hash :: "bytes \<Rightarrow> string \<Rightarrow> string list \<Rightarrow> bytes"
  make_destination ::
    "rns_identity \<Rightarrow> dest_direction \<Rightarrow> dest_type \<Rightarrow> string \<Rightarrow> string list \<Rightarrow> exn + rns_destination"
  has_path_at :: "nat \<Rightarrow> bytes \<Rightarrow> bool"
  recall_at :: "nat \<Rightarrow> bytes \<Rightarrow> rns_identity option"
  clock_at :: "nat \<Rightarrow> rat"

section \<open>Session teardown: the contract of a cleanup hook\<close>

text \<open>
  \<open>SessionRegistry.register_cleanup\<close> takes one hook per service and \<open>_teardown\<close> awaits them in
  order. What the registry relies on: a hook empties its own tables, never refills another
  service's, leaves the identity of the session alone and only appends to the trace.
\<close>

definition same_person :: "session \<Rightarrow> session \<Rightarrow> bool" where
  "same_person a b \<longleftrightarrow>
     s_id b = s_id a \<and> s_token b = s_token a \<and> created_at b = created_at a \<and>
     last_seen_at b = last_seen_at a \<and> is_anonymous b = is_anonymous a \<and>
     ws_connections b = ws_connections a"

definition shrinks :: "session \<Rightarrow> session \<Rightarrow> bool" where
  "shrinks a b \<longleftrightarrow>
     (owned_destinations b = [] \<or> owned_destinations b = owned_destinations a) \<and>
     (open_links b = [] \<or> open_links b = open_links a) \<and>
     (packet_listeners b = [] \<or> packet_listeners b = packet_listeners a) \<and>
     (pending_receipts b = [] \<or> pending_receipts b = pending_receipts a) \<and>
     (active_transfers b = [] \<or> active_transfers b = active_transfers a)"

definition trace_ext :: "'a shared_scheme \<Rightarrow> 'a shared_scheme \<Rightarrow> bool" where
  "trace_ext s s' \<longleftrightarrow> (\<exists>es. trace s' = trace s @ es)"

definition hook_ok :: "(sys \<Rightarrow> sys) \<Rightarrow> bool" where
  "hook_ok h \<longleftrightarrow>
     (\<forall>s. shrinks (ses s) (ses (h s)) \<and> same_person (ses s) (ses (h s)) \<and> trace_ext s (h s))"

definition run_hooks :: "(sys \<Rightarrow> sys) list \<Rightarrow> sys \<Rightarrow> sys" where
  "run_hooks hs s = fold (\<lambda>h s. h s) hs s"

lemma shrinks_refl [simp]: "shrinks a a"
  by (simp add: shrinks_def)

lemma shrinks_trans: "shrinks a b \<Longrightarrow> shrinks b c \<Longrightarrow> shrinks a c"
  unfolding shrinks_def by (elim conjE, intro conjI; metis)

lemma same_person_refl [simp]: "same_person a a"
  by (simp add: same_person_def)

lemma same_person_trans: "same_person a b \<Longrightarrow> same_person b c \<Longrightarrow> same_person a c"
  by (simp add: same_person_def)

lemma trace_ext_refl [simp]: "trace_ext s s"
  by (simp add: trace_ext_def)

lemma trace_ext_trans: "trace_ext s t \<Longrightarrow> trace_ext t u \<Longrightarrow> trace_ext s u"
  by (fastforce simp: trace_ext_def)

lemma trace_ext_mem: "trace_ext s t \<Longrightarrow> e \<in> set (trace s) \<Longrightarrow> e \<in> set (trace t)"
  by (auto simp: trace_ext_def)

lemma trace_ext_emit [simp]: "trace_ext s (emit e s)"
  by (simp add: trace_ext_def)

lemma run_hooks_simps [simp]:
  "run_hooks [] s = s" "run_hooks (h # hs) s = run_hooks hs (h s)"
  "run_hooks (hs @ hs') s = run_hooks hs' (run_hooks hs s)"
  by (simp_all add: run_hooks_def)

lemma run_hooks_ok: "\<forall>h \<in> set hs. hook_ok h \<Longrightarrow> hook_ok (run_hooks hs)"
proof (induction hs)
  case (Cons h hs)
  then show ?case
    by (simp add: hook_ok_def) (meson shrinks_trans same_person_trans trace_ext_trans)
qed (simp add: hook_ok_def)

lemma hook_okD:
  assumes "hook_ok h"
  shows "shrinks (ses s) (ses (h s))" "same_person (ses s) (ses (h s))" "trace_ext s (h s)"
  using assms by (simp_all add: hook_ok_def)

locale cleanup_hook =
  fixes hook :: "sys \<Rightarrow> sys"
    and cleared :: "session \<Rightarrow> bool"
  assumes hook_is_ok: "hook_ok hook"
    and hook_clears: "cleared (ses (hook s))"
    and cleared_shrinks: "cleared a \<Longrightarrow> shrinks a b \<Longrightarrow> cleared b"
begin

text \<open>Whatever well-behaved hooks run before and after it, the hook's tables end up empty.\<close>

lemma cleared_after:
  assumes "\<forall>h \<in> set post. hook_ok h"
  shows "cleared (ses (run_hooks (pre @ hook # post) s))"
proof -
  have "hook_ok (run_hooks post)" using assms by (rule run_hooks_ok)
  from cleared_shrinks [OF hook_clears hook_okD(1) [OF this]] show ?thesis by simp
qed

lemma hook_effects_stay:
  assumes "\<forall>h \<in> set post. hook_ok h" and "e \<in> set (trace (hook (run_hooks pre s)))"
  shows "e \<in> set (trace (run_hooks (pre @ hook # post) s))"
  using assms(2) trace_ext_mem [OF hook_okD(3) [OF run_hooks_ok [OF assms(1)]]] by simp

end

end
