(* ===== verification/Daemon.thy ===== *)
theory Daemon
  imports Default_Config Passwords Model
begin

text \<open>
  \<open>cli.py\<close>, \<open>tls.py\<close>, \<open>logging_setup.py\<close>, \<open>rns/service.py\<close> and the life of the application in
  \<open>server.py\<close>: what one run of \<open>rnsapid\<close> does to the host, from its arguments to its exit status.
  The terminal, the X.509 library, the INI reader, RNS and the sockets are the fields of
  \<open>daemon_env\<close>. A signal that arrives before all sites are open is not modelled.
\<close>

section \<open>The host\<close>

datatype log_handler = LogStream | LogFile string int int

datatype act =
    Print string
  | PrintErr string
  | MakeDir string
  | WriteBytes string bytes
  | MakePrivate string
  | ConfigureLogging int "log_handler list"
  | StartRns "string option" int
  | StopRns
  | SetMainLoop
  | AttachPaths
  | StartAnnounces
  | StartResources
  | StartReaper
  | StopReaper
  | StopResources
  | StopAnnounces
  | ClearMainLoop
  | OpenSite site
  | CloseSite site

text \<open>\<open>ho_rns\<close> is the \<open>_started\<close> flag of the one \<open>RNSService\<close>.\<close>

record host =
  ho_files :: "(string, bytes) dict"
  ho_rns :: bool
  ho_acts :: "act list"

definition act :: "act \<Rightarrow> host \<Rightarrow> host" where
  "act a h = h\<lparr>ho_acts := ho_acts h @ [a]\<rparr>"

definition acts :: "act list \<Rightarrow> host \<Rightarrow> host" where
  "acts as h = h\<lparr>ho_acts := ho_acts h @ as\<rparr>"

definition file_exists :: "string \<Rightarrow> host \<Rightarrow> bool" where
  "file_exists p h \<longleftrightarrow> dict_get (ho_files h) p \<noteq> None"

definition write_file :: "string \<Rightarrow> bytes \<Rightarrow> host \<Rightarrow> host" where
  "write_file p b h = act (WriteBytes p b) (h\<lparr>ho_files := dict_set p b (ho_files h)\<rparr>)"

definition path_parent :: "string \<Rightarrow> string" where
  "path_parent p = rev (drop 1 (dropWhile (\<lambda>c. c \<noteq> CHR ''/'') (rev p)))"

text \<open>What a certificate is asked for: the names, the addresses and the validity in seconds.\<close>

record cert_request =
  cr_common_name :: string
  cr_names :: "string list"
  cr_addresses :: "string list"
  cr_from :: rat
  cr_until :: rat

record daemon_env =
  de_canon :: "string \<Rightarrow> string"
  de_expand :: "string \<Rightarrow> string"
  de_home :: "string option"
  de_password :: string
  de_confirm :: string
  de_salt :: bytes
  de_kdf :: kdf
  de_parse_ini :: "bytes \<Rightarrow> string + ini"
  de_parse_float :: "string \<Rightarrow> rat option"
  de_now :: rat
  de_issue :: "cert_request \<Rightarrow> bytes \<times> bytes"
  de_digest :: "bytes \<Rightarrow> string + bytes"
  de_chain :: "bytes option \<Rightarrow> bytes option \<Rightarrow> string option"
  de_rns_refuses :: "string option"
  de_bind_refuses :: "site \<Rightarrow> string option"

section \<open>TLS\<close>

definition certificate_request :: "string \<Rightarrow> rat \<Rightarrow> cert_request" where
  "certificate_request common_name now =
     \<lparr>cr_common_name = common_name, cr_names = common_name # filter (\<lambda>c. c \<noteq> common_name) [''localhost''],
      cr_addresses = [''127.0.0.1'', ''::1''], cr_from = now - 5 * 60, cr_until = now + 3650 * 86400\<rparr>"

text \<open>The pair of paths, certificate first; \<open>de_issue\<close> gives the key first.\<close>

definition ensure_self_signed :: "daemon_env \<Rightarrow> string \<Rightarrow> string \<Rightarrow> host \<Rightarrow> (string \<times> string) \<times> host" where
  "ensure_self_signed D dir common_name h =
     (let h1 = act (MakeDir dir) h;
          cert = path_join dir ''rnsapid.crt'';
          key = path_join dir ''rnsapid.key''
      in if file_exists cert h1 \<and> file_exists key h1 then ((cert, key), h1)
         else (let (kb, cb) = de_issue D (certificate_request common_name (de_now D))
               in ((cert, key), write_file cert cb (act (MakePrivate key) (write_file key kb h1)))))"

definition build_ssl_context :: "daemon_env \<Rightarrow> string \<Rightarrow> string \<Rightarrow> host \<Rightarrow> exn + unit" where
  "build_ssl_context D cert key h =
     (case de_chain D (dict_get (ho_files h) cert) (dict_get (ho_files h) key) of
        None \<Rightarrow> Inr () | Some m \<Rightarrow> Inl (PyExn ''SSLError'' m))"

definition upper_hex :: "byte \<Rightarrow> string" where
  "upper_hex b = map (\<lambda>c. if code c < 97 then c else char_of (code c - 32)) (byte_hex b)"

definition cert_fingerprint_sha256 :: "daemon_env \<Rightarrow> string \<Rightarrow> host \<Rightarrow> exn + string" where
  "cert_fingerprint_sha256 D cert h =
     (case dict_get (ho_files h) cert of
        None \<Rightarrow> Inl (PyExn ''FileNotFoundError'' cert)
      | Some b \<Rightarrow>
         (case de_digest D b of
            Inl m \<Rightarrow> Inl (PyExn ''ValueError'' m)
          | Inr fp \<Rightarrow> Inr (join '':'' (map upper_hex fp))))"

text \<open>\<open>build_ssl\<close> for the source that \<open>Config.build_ssl\<close> chooses.\<close>

definition prepare_ssl :: "daemon_env \<Rightarrow> storage_paths \<Rightarrow> ssl_source \<Rightarrow> host \<Rightarrow> (exn + unit) \<times> host" where
  "prepare_ssl D sp src h =
     (case src of
        CertFiles cert key \<Rightarrow> (build_ssl_context D (de_expand D cert) (de_expand D key) h, h)
      | SelfSignedFor cn \<Rightarrow>
         (let ((cert, key), h1) = ensure_self_signed D (sp_certs_dir sp) cn h
          in case cert_fingerprint_sha256 D cert h1 of
               Inl e \<Rightarrow> (Inl e, h1)
             | Inr _ \<Rightarrow> (build_ssl_context D cert key h1, h1)))"

section \<open>Logging\<close>

text \<open>\<open>getattr(logging, level.upper(), logging.INFO)\<close> for the level names.\<close>

definition log_level_number :: "string \<Rightarrow> int" where
  "log_level_number level =
     (case map_of [(''notset'', 0), (''debug'', 10), (''warn'', 30), (''warning'', 30), (''error'', 40),
                   (''critical'', 50), (''fatal'', 50)] (lower level) of
        None \<Rightarrow> 20 | Some n \<Rightarrow> n)"

definition configure_logging :: "string \<Rightarrow> string option \<Rightarrow> int \<Rightarrow> int \<Rightarrow> host \<Rightarrow> host" where
  "configure_logging level file max_bytes backup_count h =
     (case file of
        None \<Rightarrow> act (ConfigureLogging (log_level_number level) [LogStream]) h
      | Some f \<Rightarrow>
          act (ConfigureLogging (log_level_number level) [LogStream, LogFile f max_bytes backup_count])
            (act (MakeDir (path_parent f)) h))"

section \<open>The RNS service\<close>

definition rns_start :: "daemon_env \<Rightarrow> config \<Rightarrow> host \<Rightarrow> (exn + unit) \<times> host" where
  "rns_start D cfg h =
     (if ho_rns h then (Inr (), h)
      else (let dir = config_dir (rns cfg);
                h1 = act (StartRns (if dir = [] then None else Some (de_expand D dir)) (log_level (rns cfg))) h
            in case de_rns_refuses D of
                 Some m \<Rightarrow> (Inl (PyExn ''Exception'' m), h1)
               | None \<Rightarrow> (Inr (), h1\<lparr>ho_rns := True\<rparr>)))"

definition rns_stop :: "host \<Rightarrow> host" where
  "rns_stop h = (if \<not> ho_rns h then h else act StopRns (h\<lparr>ho_rns := False\<rparr>))"

section \<open>The application's life\<close>

definition on_startup :: "host \<Rightarrow> host" where
  "on_startup = acts [SetMainLoop, AttachPaths, StartAnnounces, StartResources, StartReaper]"

definition on_cleanup :: "bool \<Rightarrow> host \<Rightarrow> host" where
  "on_cleanup start_rns h =
     (let h1 = acts [StopReaper, StopResources, StopAnnounces] h
      in act ClearMainLoop (if start_rns then rns_stop h1 else h1))"

fun open_sites :: "daemon_env \<Rightarrow> storage_paths \<Rightarrow> site list \<Rightarrow> host \<Rightarrow> (exn + unit) \<times> host" where
  "open_sites D sp [] h = (Inr (), h)"
| "open_sites D sp (s # ss) h =
     (case (case site_ssl s of None \<Rightarrow> (Inr (), h) | Some src \<Rightarrow> prepare_ssl D sp src h) of
        (Inl e, h1) \<Rightarrow> (Inl e, h1)
      | (Inr _, h1) \<Rightarrow>
          (case de_bind_refuses D s of
             Some m \<Rightarrow> (Inl (PyExn ''OSError'' m), h1)
           | None \<Rightarrow> open_sites D sp ss (act (OpenSite s) h1)))"

text \<open>
  \<open>server.run\<close>, until a signal cancels it. The sites are closed and the application is cleaned up
  only once all sites were opened: an exception before that leaves \<open>run\<close> at once.
\<close>

definition server_run :: "daemon_env \<Rightarrow> config \<Rightarrow> storage_paths \<Rightarrow> bool \<Rightarrow> host \<Rightarrow> (exn + unit) \<times> host" where
  "server_run D cfg sp start_rns h =
     (case open_sites D sp (run_sites cfg) (on_startup h) of
        (Inl e, h1) \<Rightarrow> (Inl e, h1)
      | (Inr _, h1) \<Rightarrow> (Inr (), on_cleanup start_rns (acts (map CloseSite (run_sites cfg)) h1)))"

section \<open>The command\<close>

record cli_args =
  ar_config :: "string option"
  ar_home :: "string option"
  ar_init :: bool
  ar_fingerprint :: bool
  ar_hash :: bool

definition ensure_storage :: "storage_paths \<Rightarrow> host \<Rightarrow> host" where
  "ensure_storage sp =
     acts (map MakeDir [sp_root sp, sp_identities_dir sp, sp_certs_dir sp, sp_logs_dir sp, sp_resources_dir sp])"

definition write_default :: "string \<Rightarrow> host \<Rightarrow> (exn + unit) \<times> host" where
  "write_default p h =
     (if file_exists p h then (Inl (PyExn ''FileExistsError'' p), h)
      else (Inr (), write_file p (utf8 default_config_text) (act (MakeDir (path_parent p)) h)))"

definition init_home :: "storage_paths \<Rightarrow> string \<Rightarrow> host \<Rightarrow> (exn + int) \<times> host" where
  "init_home sp config_path h =
     (let h1 = ensure_storage sp h in
      if file_exists config_path h1
      then (Inr 1, act (PrintErr (''config already exists at '' @ config_path)) h1)
      else (case write_default config_path h1 of
              (Inl e, h2) \<Rightarrow> (Inl e, h2)
            | (Inr _, h2) \<Rightarrow>
                (Inr 0, acts [Print (''wrote default config to '' @ config_path),
                              Print (''storage root:      '' @ sp_root sp),
                              Print (''identities dir:    '' @ sp_identities_dir sp),
                              Print (''certs dir:         '' @ sp_certs_dir sp),
                              Print (''logs dir:          '' @ sp_logs_dir sp)] h2)))"

definition print_hash :: "daemon_env \<Rightarrow> host \<Rightarrow> (exn + int) \<times> host" where
  "print_hash D h =
     (if de_password D \<noteq> de_confirm D then (Inr 1, act (PrintErr ''passwords do not match'') h)
      else if de_password D = [] then (Inr 1, act (PrintErr ''empty password not allowed'') h)
      else (case hash_password (de_kdf D) (de_salt D) (de_password D) of
              Inl e \<Rightarrow> (Inl e, h)
            | Inr t \<Rightarrow> (Inr 0, act (Print t) h)))"

definition print_fingerprint :: "daemon_env \<Rightarrow> storage_paths \<Rightarrow> config \<Rightarrow> host \<Rightarrow> (exn + int) \<times> host" where
  "print_fingerprint D sp cfg h =
     (let ((cert, key), h1) = ensure_self_signed D (sp_certs_dir sp) (self_signed_cn (tls cfg)) h
      in case cert_fingerprint_sha256 D cert h1 of
           Inl e \<Rightarrow> (Inl e, h1)
         | Inr t \<Rightarrow> (Inr 0, act (Print t) h1))"

definition load_file :: "daemon_env \<Rightarrow> string \<Rightarrow> host \<Rightarrow> exn + config" where
  "load_file D p h =
     (case de_parse_ini D (case dict_get (ho_files h) p of None \<Rightarrow> [] | Some b \<Rightarrow> b) of
        Inl m \<Rightarrow> Inl (PyExn ''configparser.Error'' m)
      | Inr ini \<Rightarrow>
         (case load_config (de_parse_float D) ini of
            Inl m \<Rightarrow> Inl (PyExn ''ValueError'' m) | Inr cfg \<Rightarrow> Inr cfg))"

definition log_path :: "storage_paths \<Rightarrow> string \<Rightarrow> string option" where
  "log_path sp f =
     (if f = [] then None else if hd f = CHR ''/'' then Some f else Some (path_join (sp_root sp) f))"

definition serve :: "daemon_env \<Rightarrow> config \<Rightarrow> storage_paths \<Rightarrow> host \<Rightarrow> (exn + int) \<times> host" where
  "serve D cfg sp h =
     (case rns_start D cfg h of
        (Inl e, h1) \<Rightarrow> (Inl e, h1)
      | (Inr _, h1) \<Rightarrow>
          (case server_run D cfg sp False h1 of
             (Inl e, h2) \<Rightarrow> (Inl e, rns_stop h2)
           | (Inr _, h2) \<Rightarrow> (Inr 0, rns_stop h2)))"

definition cli_main :: "daemon_env \<Rightarrow> cli_args \<Rightarrow> host \<Rightarrow> (exn + int) \<times> host" where
  "cli_main D args h =
     (let sp = resolve_paths (de_canon D) (de_home D) (ar_home args);
          config_path = (case ar_config args of None \<Rightarrow> sp_config_file sp | Some p \<Rightarrow> p)
      in if ar_hash args then print_hash D h
         else if ar_init args then init_home sp config_path h
         else if \<not> file_exists config_path h
         then (Inr 2, act (PrintErr (''config file not found: '' @ config_path @ [CHR 0x0A] @
                ''Run `rnsapid --init` to create one.'')) h)
         else (case load_file D config_path h of
           Inl e \<Rightarrow> (Inl e, h)
         | Inr cfg \<Rightarrow>
            (let lg = logging cfg;
                 h1 = configure_logging (log_level_name lg) (log_path sp (log_file lg)) (rotate_max_bytes lg)
                        (rotate_backup_count lg) (ensure_storage sp h)
             in if ar_fingerprint args then print_fingerprint D sp cfg h1 else serve D cfg sp h1)))"

section \<open>What a run does, in order\<close>

text \<open>\<open>calm\<close>: only acts that neither start nor stop anything are appended.\<close>

fun rns_act :: "act \<Rightarrow> bool" where
  "rns_act (StartRns _ _) = True" | "rns_act StopRns = True" | "rns_act _ = False"

fun calm_act :: "act \<Rightarrow> bool" where
  "calm_act (CloseSite _) = False" | "calm_act StopReaper = False" | "calm_act a = (\<not> rns_act a)"

definition calm :: "host \<Rightarrow> host \<Rightarrow> bool" where
  "calm h h' \<longleftrightarrow> ho_rns h' = ho_rns h \<and> (\<exists>as. ho_acts h' = ho_acts h @ as \<and> list_all calm_act as)"

lemma calm_refl [simp]: "calm h h" by (simp add: calm_def)

lemma calm_trans: "calm h h1 \<Longrightarrow> calm h1 h2 \<Longrightarrow> calm h h2"
  by (auto simp: calm_def)

lemma acts_frame [simp]:
  "ho_files (act a h) = ho_files h" "ho_rns (act a h) = ho_rns h" "ho_acts (act a h) = ho_acts h @ [a]"
  "ho_files (acts as h) = ho_files h" "ho_rns (acts as h) = ho_rns h" "ho_acts (acts as h) = ho_acts h @ as"
  "ho_files (write_file p b h) = dict_set p b (ho_files h)" "ho_rns (write_file p b h) = ho_rns h"
  "ho_acts (write_file p b h) = ho_acts h @ [WriteBytes p b]"
  by (simp_all add: act_def acts_def write_file_def)

lemma calm_act: "calm_act a \<Longrightarrow> calm h h1 \<Longrightarrow> calm h (act a h1)"
  by (auto simp: calm_def)

lemma calm_acts: "list_all calm_act as \<Longrightarrow> calm h h1 \<Longrightarrow> calm h (acts as h1)"
  by (auto simp: calm_def)

lemma calm_write: "calm h h1 \<Longrightarrow> calm h (write_file p b h1)"
  by (auto simp: calm_def)

lemma calm_self_signed: "calm h (snd (ensure_self_signed D dir cn h))"
  by (simp add: ensure_self_signed_def Let_def calm_act calm_write split: prod.split)

lemma calm_prepare: "calm h (snd (prepare_ssl D sp src h))"
  using calm_self_signed by (simp add: prepare_ssl_def split_beta split: ssl_source.split sum.split)

lemma calm_sites: "calm h (snd (open_sites D sp ss h))"
proof (induction ss arbitrary: h)
  case (Cons s ss)
  obtain r h1 where p: "(case site_ssl s of None \<Rightarrow> (Inr (), h) | Some src \<Rightarrow> prepare_ssl D sp src h) = (r, h1)" by fastforce
  then have "calm h h1" using calm_prepare [of h D sp "the (site_ssl s)"] by (cases "site_ssl s") simp_all
  moreover from this have "calm h (snd (open_sites D sp ss (act (OpenSite s) h1)))"
    by (rule calm_trans [OF calm_act Cons.IH, rotated]) simp
  ultimately show ?case by (cases r) (simp_all add: p split: option.split)
qed simp

lemma calm_configure: "calm h (configure_logging level f a b h)"
  by (simp add: configure_logging_def calm_act split: option.split)

lemma calm_ensure: "calm h (ensure_storage sp h)"
  by (simp add: ensure_storage_def calm_acts)

lemma calm_print_hash: "calm h (snd (print_hash D h))"
  by (simp add: print_hash_def calm_act split: sum.split)

lemma calm_fingerprint: "calm h (snd (print_fingerprint D sp cfg h))"
  using calm_self_signed by (simp add: print_fingerprint_def split_beta calm_act split: sum.split)

lemma calm_init: "calm h (snd (init_home sp p h))"
proof -
  note e = calm_ensure [of h sp]
  show ?thesis
  proof (cases "file_exists p (ensure_storage sp h)")
    case True
    then show ?thesis using e by (simp add: init_home_def Let_def calm_act)
  next
    case False
    then show ?thesis using e by (simp add: init_home_def write_default_def Let_def calm_act calm_acts calm_write)
  qed
qed

lemma server_run_acts:
  assumes "server_run D cfg sp False h = (r, h1)"
  shows "ho_rns h1 = ho_rns h \<and> (\<exists>as. ho_acts h1 = ho_acts h @ as \<and> list_all (\<lambda>a. \<not> rns_act a) as \<and>
    (StopReaper \<in> set as) = (r = Inr ()) \<and>
    (r = Inr () \<longrightarrow> (\<exists>bs. as = bs @ map CloseSite (run_sites cfg) @ [StopReaper, StopResources, StopAnnounces, ClearMainLoop])))"
proof -
  obtain x h2 where x: "open_sites D sp (run_sites cfg) (on_startup h) = (x, h2)" by fastforce
  have "calm (on_startup h) h2" using calm_sites [of "on_startup h" D sp "run_sites cfg"] x by simp
  moreover have "calm h (on_startup h)" unfolding on_startup_def by (rule calm_acts) simp_all
  ultimately have "calm h h2" by (rule calm_trans [rotated])
  then obtain as where as: "ho_rns h2 = ho_rns h" "ho_acts h2 = ho_acts h @ as" "list_all calm_act as"
    by (auto simp: calm_def)
  have quiet: "\<not> rns_act a \<and> a \<noteq> StopReaper" if "calm_act a" for a using that by (cases a) simp_all
  have as': "list_all (\<lambda>a. \<not> rns_act a) as" "StopReaper \<notin> set as"
    using as(3) quiet by (auto simp: list_all_iff)
  show ?thesis
  proof (cases x)
    case (Inl e)
    then show ?thesis using assms x as as' by (auto simp: server_run_def)
  next
    case (Inr u)
    have "list_all (\<lambda>a. \<not> rns_act a) (map CloseSite ss)" for ss by (simp add: list_all_iff)
    then show ?thesis using assms x as as' Inr by (auto simp: server_run_def on_cleanup_def Let_def)
  qed
qed

lemma calm_filter: "list_all calm_act as \<Longrightarrow> filter rns_act as = [] \<and> StopReaper \<notin> set as"
proof (induction as)
  case (Cons a as)
  then show ?case by (cases a) simp_all
qed simp

lemma no_rns_filter: "list_all (\<lambda>a. \<not> rns_act a) as \<Longrightarrow> filter rns_act as = []"
  by (induction as) simp_all

definition rns_balanced :: "daemon_env \<Rightarrow> exn + int \<Rightarrow> act list \<Rightarrow> bool" where
  "rns_balanced D r as \<longleftrightarrow>
     (\<exists>d l. if de_rns_refuses D = None then filter rns_act as = [StartRns d l, StopRns] \<and> last as = StopRns
            else filter rns_act as = [StartRns d l] \<and> is_error r)"

lemma serve_acts:
  assumes "serve D cfg sp h = (r, h')" and "\<not> ho_rns h"
  shows "\<not> ho_rns h' \<and> (\<exists>as. ho_acts h' = ho_acts h @ as \<and> rns_balanced D r as \<and> (StopReaper \<in> set as) = (r = Inr 0))"
proof (cases "de_rns_refuses D")
  case (Some m)
  then show ?thesis
    using assms by (auto simp: serve_def rns_start_def Let_def rns_balanced_def is_error_def)
next
  case None
  let ?d = "if config_dir (rns cfg) = [] then None else Some (de_expand D (config_dir (rns cfg)))"
  let ?h1 = "act (StartRns ?d (log_level (rns cfg))) h\<lparr>ho_rns := True\<rparr>"
  obtain x h2 where x: "server_run D cfg sp False ?h1 = (x, h2)" by fastforce
  obtain as where as: "ho_rns h2" "ho_acts h2 = ho_acts h @ StartRns ?d (log_level (rns cfg)) # as"
    "list_all (\<lambda>a. \<not> rns_act a) as" "(StopReaper \<in> set as) = (x = Inr ())"
    using server_run_acts [OF x] by (auto simp: act_def)
  have s: "serve D cfg sp h = (case x of Inl e \<Rightarrow> Inl e | Inr _ \<Rightarrow> Inr 0, rns_stop h2)"
    using None assms(2) x by (cases x) (simp_all add: serve_def rns_start_def Let_def)
  have "ho_acts (rns_stop h2) = ho_acts h @ StartRns ?d (log_level (rns cfg)) # as @ [StopRns]" "\<not> ho_rns (rns_stop h2)"
    using as(1,2) by (simp_all add: rns_stop_def act_def)
  moreover have "rns_balanced D r (StartRns ?d (log_level (rns cfg)) # as @ [StopRns])"
    using None no_rns_filter [OF as(3)] by (simp add: rns_balanced_def)
  moreover have "(StopReaper \<in> set (StartRns ?d (log_level (rns cfg)) # as @ [StopRns])) = (r = Inr 0)"
    using as(4) s assms(1) by (cases x) auto
  ultimately show ?thesis using s assms(1) by auto
qed

text \<open>Every run is calm, or calm until it serves.\<close>

lemma cli_main_cases:
  assumes "cli_main D args h = (r, h')"
  obtains "calm h h'"
  | p cfg sp h1 where "\<not> ar_hash args" "\<not> ar_init args" "\<not> ar_fingerprint args" "load_file D p h = Inr cfg"
      "calm h h1" "serve D cfg sp h1 = (r, h')"
proof -
  define sp where "sp = resolve_paths (de_canon D) (de_home D) (ar_home args)"
  define p where "p = (case ar_config args of None \<Rightarrow> sp_config_file sp | Some p \<Rightarrow> p)"
  note main = cli_main_def [of D args h, folded sp_def, unfolded Let_def, folded p_def]
  consider "ar_hash args \<or> ar_init args \<or> \<not> file_exists p h"
    | e where "\<not> ar_hash args" "\<not> ar_init args" "file_exists p h" "load_file D p h = Inl e"
    | cfg where "\<not> ar_hash args" "\<not> ar_init args" "file_exists p h" "load_file D p h = Inr cfg"
    by (cases "load_file D p h") auto
  then show thesis
  proof cases
    case 1
    have "snd (print_hash D h) = h' \<or> snd (init_home sp p h) = h' \<or>
        h' = act (PrintErr (''config file not found: '' @ p @ [CHR 0x0A] @ ''Run `rnsapid --init` to create one.'')) h"
      using assms 1 by (auto simp: main split: if_splits)
    then have "calm h h'" using calm_print_hash [of h D] calm_init [of h sp p] by (auto intro: calm_act)
    then show thesis by (rule that(1))
  next
    case 2
    then show thesis using assms that(1) by (simp add: main)
  next
    case (3 cfg)
    let ?lg = "logging cfg"
    define h1 where "h1 = configure_logging (log_level_name ?lg) (log_path sp (log_file ?lg)) (rotate_max_bytes ?lg)
        (rotate_backup_count ?lg) (ensure_storage sp h)"
    have c: "calm h h1" unfolding h1_def by (rule calm_trans [OF calm_ensure calm_configure])
    have "if ar_fingerprint args then h' = snd (print_fingerprint D sp cfg h1) else serve D cfg sp h1 = (r, h')"
      using assms 3 by (auto simp: main h1_def)
    then show thesis
      using that(1) calm_trans [OF c calm_fingerprint] that(2) [OF 3(1,2) _ 3(4) c] by (cases "ar_fingerprint args") simp_all
  qed
qed

text \<open>C26. One run of \<open>rnsapid\<close> starts RNS at most once, and only when it is to serve, with a configuration
  that loads; whatever happens afterwards it stops RNS again, exactly once and as the last thing it does. The
  application's own cleanup, in contrast, runs only when no exception ended the serving: if a site cannot be
  opened, the reaper, the sweeps and the announce handler are not stopped.\<close>

theorem rns_started_and_stopped:
  assumes "cli_main D args h = (r, h')" and "\<not> ho_rns h"
  shows "\<not> ho_rns h' \<and> (\<exists>as. ho_acts h' = ho_acts h @ as \<and>
     (filter rns_act as = [] \<or> rns_balanced D r as) \<and>
     (filter rns_act as \<noteq> [] \<longrightarrow> \<not> ar_hash args \<and> \<not> ar_init args \<and> \<not> ar_fingerprint args \<and>
        (\<exists>p cfg. load_file D p h = Inr cfg)) \<and>
     (StopReaper \<in> set as) = (r = Inr 0 \<and> filter rns_act as \<noteq> []))"
  using assms(1)
proof (cases rule: cli_main_cases)
  case 1
  then show ?thesis using assms(2) calm_filter by (fastforce simp: calm_def)
next
  case (2 p cfg sp h1)
  obtain bs where bs: "ho_acts h1 = ho_acts h @ bs" "filter rns_act bs = []" "StopReaper \<notin> set bs" "\<not> ho_rns h1"
    using 2(5) calm_filter assms(2) by (auto simp: calm_def)
  obtain as where as: "\<not> ho_rns h'" "ho_acts h' = ho_acts h1 @ as" "rns_balanced D r as" "(StopReaper \<in> set as) = (r = Inr 0)"
    using serve_acts [OF 2(6) bs(4)] by blast
  have "as \<noteq> []" using as(3) by (auto simp: rns_balanced_def split: if_splits)
  then have "rns_balanced D r (bs @ as)" "filter rns_act (bs @ as) \<noteq> []"
    using as(3) bs(2) by (auto simp: rns_balanced_def split: if_splits)
  then have "ho_acts h' = ho_acts h @ (bs @ as) \<and> (filter rns_act (bs @ as) = [] \<or> rns_balanced D r (bs @ as)) \<and>
      (StopReaper \<in> set (bs @ as)) = (r = Inr 0 \<and> filter rns_act (bs @ as) \<noteq> [])"
    using as(2,4) bs(1,3) by simp
  then show ?thesis using as(1) 2(1-4) by blast
qed

section \<open>From nothing to a serving daemon\<close>

lemma run_sites_default:
  "run_sites config_default =
     [\<lparr>site_host = ''127.0.0.1'', site_port = 8000, site_ssl = Some (SelfSignedFor ''localhost'')\<rparr>]"
  by (simp add: run_sites_def build_ssl_def config_default_def network_default_def tls_default_def)

text \<open>Nothing in the environment refuses.\<close>

definition willing :: "daemon_env \<Rightarrow> bool" where
  "willing D \<longleftrightarrow>
     de_rns_refuses D = None \<and> (\<forall>s. de_bind_refuses D s = None) \<and> (\<forall>c k. de_chain D (Some c) (Some k) = None) \<and>
     (\<forall>b. \<exists>fp. de_digest D b = Inr fp)"

lemma ensure_self_signed_files:
  assumes "ensure_self_signed D dir cn h = ((cert, key), h')"
  shows "cert = path_join dir ''rnsapid.crt'' \<and> key = path_join dir ''rnsapid.key'' \<and> file_exists cert h' \<and> file_exists key h' \<and>
    (\<forall>p. file_exists p h \<longrightarrow> file_exists p h') \<and>
    (file_exists cert h \<and> file_exists key h \<longrightarrow> ho_files h' = ho_files h) \<and>
    (file_exists cert h \<and> file_exists key h \<or> MakePrivate key \<in> set (ho_acts h'))"
  using assms by (auto simp: ensure_self_signed_def Let_def file_exists_def split: if_splits prod.splits)

lemma prepare_ssl_willing:
  assumes "willing D"
  shows "prepare_ssl D sp (SelfSignedFor cn) h = (Inr (), snd (ensure_self_signed D (sp_certs_dir sp) cn h))"
proof -
  obtain cert key h1 where e: "ensure_self_signed D (sp_certs_dir sp) cn h = ((cert, key), h1)" by (metis prod.exhaust)
  then obtain cb kb where f: "dict_get (ho_files h1) cert = Some cb" "dict_get (ho_files h1) key = Some kb"
    using ensure_self_signed_files [OF e] by (auto simp: file_exists_def)
  obtain fp where fp: "de_digest D cb = Inr fp" using assms unfolding willing_def by blast
  have ch: "de_chain D (Some cb) (Some kb) = None" using assms unfolding willing_def by blast
  show ?thesis by (simp add: prepare_ssl_def e cert_fingerprint_sha256_def f fp build_ssl_context_def ch)
qed

lemma default_serves:
  assumes "willing D" and "\<not> ho_rns h" and "serve D config_default sp h = (r, h')"
  shows "r = Inr 0 \<and> (\<exists>as. ho_acts h' = ho_acts h @ as \<and>
     filter (\<lambda>a. case a of OpenSite _ \<Rightarrow> True | _ \<Rightarrow> False) as = map OpenSite (run_sites config_default)) \<and>
     file_exists (path_join (sp_certs_dir sp) ''rnsapid.crt'') h' \<and> file_exists (path_join (sp_certs_dir sp) ''rnsapid.key'') h'"
proof -
  let ?s = "\<lparr>site_host = ''127.0.0.1'', site_port = 8000, site_ssl = Some (SelfSignedFor ''localhost'')\<rparr>"
  let ?start = "StartRns None 3"
  define h1 where "h1 = on_startup (act ?start h\<lparr>ho_rns := True\<rparr>)"
  obtain cert key h2 where e: "ensure_self_signed D (sp_certs_dir sp) ''localhost'' h1 = ((cert, key), h2)" by (metis prod.exhaust)
  have rs: "rns_start D config_default h = (Inr (), act ?start h\<lparr>ho_rns := True\<rparr>)"
    using assms(1,2) by (simp add: rns_start_def willing_def config_default_def rns_default_def)
  have "open_sites D sp (run_sites config_default) h1 = (Inr (), act (OpenSite ?s) h2)"
    using assms(1) prepare_ssl_willing [OF assms(1), of sp "''localhost''" h1]
    by (simp add: run_sites_default e willing_def)
  then have sr: "server_run D config_default sp False (act ?start h\<lparr>ho_rns := True\<rparr>) =
      (Inr (), on_cleanup False (acts (map CloseSite (run_sites config_default)) (act (OpenSite ?s) h2)))"
    by (simp add: server_run_def h1_def)
  have h': "r = Inr 0 \<and> h' = rns_stop (on_cleanup False (acts (map CloseSite (run_sites config_default)) (act (OpenSite ?s) h2)))"
    using assms(3) by (simp add: serve_def rs sr)
  obtain bs where bs: "ho_acts h2 = ho_acts h1 @ bs" "list_all calm_act bs"
    "filter (\<lambda>a. case a of OpenSite _ \<Rightarrow> True | _ \<Rightarrow> False) bs = []"
    using e by (auto simp: ensure_self_signed_def Let_def split: if_splits prod.splits)
  have h1: "ho_acts h1 = ho_acts h @ [?start, SetMainLoop, AttachPaths, StartAnnounces, StartResources, StartReaper]"
    by (simp add: h1_def on_startup_def act_def acts_def)
  have "ho_acts h' = ho_acts h @ ([?start, SetMainLoop, AttachPaths, StartAnnounces, StartResources, StartReaper] @ bs @
      OpenSite ?s # CloseSite ?s # [StopReaper, StopResources, StopAnnounces, ClearMainLoop] @ (if ho_rns h2 then [StopRns] else []))"
    using h' bs(1) h1 by (simp add: rns_stop_def on_cleanup_def act_def acts_def run_sites_default)
  then have "\<exists>as. ho_acts h' = ho_acts h @ as \<and>
     filter (\<lambda>a. case a of OpenSite _ \<Rightarrow> True | _ \<Rightarrow> False) as = map OpenSite (run_sites config_default)"
    using bs(3) by - (rule exI, rule conjI, assumption, simp add: run_sites_default)
  moreover have "file_exists p h' = file_exists p h2" for p using h' by (simp add: rns_stop_def on_cleanup_def file_exists_def)
  ultimately show ?thesis using h' ensure_self_signed_files [OF e] by auto
qed


section \<open>Witnesses\<close>

text \<open>
  A host where everything works: every file reads as the default configuration, keys and
  certificates are constant.
\<close>

definition sample_daemon :: daemon_env where
  "sample_daemon =
     \<lparr>de_canon = id, de_expand = id, de_home = None, de_password = ''pw'', de_confirm = ''pw'', de_salt = [1],
      de_kdf = (\<lambda>_ _ _ _ _ n. Inr (replicate n 0)), de_parse_ini = (\<lambda>b. read_ini default_config_lines),
      de_parse_float = (\<lambda>_. Some 1), de_now = 0, de_issue = (\<lambda>_. ([1], [2])), de_digest = (\<lambda>b. Inr b),
      de_chain = (\<lambda>_ _. None), de_rns_refuses = None, de_bind_refuses = (\<lambda>_. None)\<rparr>"

definition sample_args :: cli_args where
  "sample_args = \<lparr>ar_config = None, ar_home = Some ''/home'', ar_init = False, ar_fingerprint = False, ar_hash = False\<rparr>"

definition fresh_host :: host where
  "fresh_host = \<lparr>ho_files = [], ho_rns = False, ho_acts = []\<rparr>"

theorem rns_started_and_stopped_witness:
  "\<not> ho_rns (snd (cli_main (sample_daemon\<lparr>de_bind_refuses := \<lambda>_. Some ''in use''\<rparr>) sample_args
     (fresh_host\<lparr>ho_files := [(''/home/config'', [])]\<rparr>)))"
  using rns_started_and_stopped [OF prod.collapse [symmetric], of "fresh_host\<lparr>ho_files := [(''/home/config'', [])]\<rparr>"
      "sample_daemon\<lparr>de_bind_refuses := \<lambda>_. Some ''in use''\<rparr>" sample_args]
  by (simp add: fresh_host_def)


end
