(* ===== verification/Identities.thy ===== *)
theory Identities
  imports Model "HOL-Library.List_Lexorder" "HOL-Library.Char_ord"
begin

text \<open>
  \<open>rns/identities.py\<close>: the identity files under \<open>identities/\<close>, one per identity and named by
  its hash, and the daemon-wide default identity.
\<close>

record identity_info =
  ii_hash_hex :: string
  ii_path :: string
  ii_public_key_hex :: string

definition identity_info_to_dict :: "identity_info \<Rightarrow> fields" where
  "identity_info_to_dict i =
     [(''hash'', JStr (ii_hash_hex i)), (''public_key'', JStr (ii_public_key_hex i)), (''path'', JStr (ii_path i))]"

definition rid_name :: "string \<Rightarrow> string" where
  "rid_name hex = hex @ ''.rid''"

definition identity_path :: "'a shared_scheme \<Rightarrow> rns_identity \<Rightarrow> string" where
  "identity_path s i = path_join (sp_identities_dir (store_paths s)) (rid_name (id_hexhash i))"

definition identity_info_at :: "rns_identity \<Rightarrow> string \<Rightarrow> identity_info" where
  "identity_info_at i path =
     \<lparr>ii_hash_hex = id_hexhash i, ii_path = path, ii_public_key_hex = bytes_hex (id_public_key i)\<rparr>"

definition identity_info_for :: "'a shared_scheme \<Rightarrow> rns_identity \<Rightarrow> identity_info" where
  "identity_info_for s i = identity_info_at i (identity_path s i)"

text \<open>\<open>create\<close>: \<open>fresh\<close> is the new \<open>RNS.Identity()\<close>.\<close>

definition identity_create ::
  "rns_env \<Rightarrow> rns_identity \<Rightarrow> 'a shared_scheme \<Rightarrow> (rns_identity \<times> identity_info) \<times> 'a shared_scheme" where
  "identity_create E fresh s =
     (let content = identity_to_file E fresh;
          s' = s\<lparr>id_files := dict_set (rid_name (id_hexhash fresh)) content (id_files s)\<rparr>
      in ((fresh, identity_info_for s fresh), emit (WriteFile (identity_path s fresh) content) s'))"

definition ends_with :: "string \<Rightarrow> string \<Rightarrow> bool" where
  "ends_with suffix s = starts_with (rev suffix) (rev s)"

text \<open>\<open>list\<close>: files that do not load are skipped.\<close>

definition identity_list :: "rns_env \<Rightarrow> 'a shared_scheme \<Rightarrow> identity_info list" where
  "identity_list E s =
     concat (map (\<lambda>name.
         case dict_get (id_files s) name of
           None \<Rightarrow> []
         | Some content \<Rightarrow>
             (case identity_from_file E content of
                Inr (Some i) \<Rightarrow> [identity_info_at i (path_join (sp_identities_dir (store_paths s)) name)]
              | _ \<Rightarrow> []))
       (sort (filter (ends_with ''.rid'') (dict_keys (id_files s)))))"

definition identity_load :: "rns_env \<Rightarrow> 'a shared_scheme \<Rightarrow> string \<Rightarrow> exn + rns_identity" where
  "identity_load E s hash_hex =
     (let h = lower hash_hex in
      if \<not> hex_hash_match h then Inl (IdentityError (''invalid identity hash: '' @ py_repr hash_hex))
      else (case dict_get (id_files s) (rid_name h) of
        None \<Rightarrow> Inl (IdentityError (''identity not found for '' @ hash_hex))
      | Some content \<Rightarrow>
          (case identity_from_file E content of
             Inl e \<Rightarrow> Inl e
           | Inr None \<Rightarrow>
               Inl (IdentityError (''identity file corrupt: '' @
                 path_join (sp_identities_dir (store_paths s)) (rid_name h)))
           | Inr (Some i) \<Rightarrow> Inr i)))"

text \<open>\<open>default_identity\<close>: the file if it loads, else a new identity written over it.\<close>

definition default_identity ::
  "rns_env \<Rightarrow> rns_identity \<Rightarrow> 'a shared_scheme \<Rightarrow> (exn + rns_identity) \<times> 'a shared_scheme" where
  "default_identity E fresh s =
     (let regenerate =
        (let content = identity_to_file E fresh in
         (Inr fresh,
          emit (WriteFile (sp_default_identity_file (store_paths s)) content)
            (s\<lparr>default_id_file := Some content\<rparr>)))
      in case default_id_file s of
           None \<Rightarrow> regenerate
         | Some content \<Rightarrow>
             (case identity_from_file E content of
                Inl e \<Rightarrow> (Inl e, s)
              | Inr (Some i) \<Rightarrow> (Inr i, s)
              | Inr None \<Rightarrow> regenerate))"

text \<open>\<open>_try_local_identity\<close> of the link and packet services: any failure is \<open>None\<close>.\<close>

definition try_local_identity :: "rns_env \<Rightarrow> 'a shared_scheme \<Rightarrow> bytes \<Rightarrow> rns_identity option" where
  "try_local_identity E s input_hash =
     (case identity_load E s (bytes_hex input_hash) of Inl _ \<Rightarrow> None | Inr i \<Rightarrow> Some i)"

section \<open>Lemmas\<close>

text \<open>
  What RNS documents of identity files and hashes: \<open>from_file\<close> reads back what \<open>to_file\<close>
  wrote, the hash has 16 bytes and \<open>hexhash\<close> is its hexadecimal form.
\<close>

definition identity_hash_ok :: "rns_identity \<Rightarrow> bool" where
  "identity_hash_ok i \<longleftrightarrow> length (id_hash i) = 16 \<and> id_hexhash i = bytes_hex (id_hash i)"

definition identity_files_ok :: "rns_env \<Rightarrow> bool" where
  "identity_files_ok E \<longleftrightarrow>
     (\<forall>i. identity_hash_ok i \<longrightarrow> identity_from_file E (identity_to_file E i) = Inr (Some i))"

lemma rid_name_inject [simp]: "rid_name a = rid_name b \<longleftrightarrow> a = b"
  by (simp add: rid_name_def)

lemma ends_with_rid [simp]: "ends_with ''.rid'' (rid_name h)"
  by (simp add: ends_with_def rid_name_def)

text \<open>C31. An identity that was created is found by its hash, in either case of the hex digits,
  and the other identities are found as before.\<close>

theorem identity_create_load:
  assumes "identity_files_ok E" and "identity_hash_ok i"
    and "lower hash_hex = bytes_hex (id_hash i)"
    and "identity_create E i s = (res, s')"
  shows "identity_load E s' hash_hex = Inr i \<and>
    (\<forall>other. lower other \<noteq> bytes_hex (id_hash i) \<longrightarrow> identity_load E s' other = identity_load E s other)"
proof -
  have s': "id_files s' = dict_set (rid_name (bytes_hex (id_hash i))) (identity_to_file E i) (id_files s)"
    "store_paths s' = store_paths s"
    using assms(2,4) by (auto simp: identity_create_def Let_def identity_hash_ok_def)
  show ?thesis
    using assms(1,2,3) s'
    by (auto simp: identity_load_def Let_def identity_files_ok_def identity_hash_ok_def
        split: option.split sum.split)
qed

text \<open>The default identity is stable: whatever the first call returns, every later call
  returns the same identity and writes nothing, and no other file is touched.\<close>

theorem default_identity_stable:
  assumes "identity_files_ok E" and "identity_hash_ok fresh"
    and "default_identity E fresh s = (Inr i, s')"
  shows "default_identity E fresh' s' = (Inr i, s') \<and> id_files s' = id_files s"
  using assms
  by (auto simp: default_identity_def Let_def identity_files_ok_def
      split: option.splits sum.splits)

section \<open>A concrete environment\<close>

text \<open>
  An RNS that satisfies the documented behaviour, for the witnesses: identity files are the hash
  followed by the public key, every destination hash is constant, every path is known and the
  announce cache is empty.
\<close>

definition sample_identity :: rns_identity where
  "sample_identity =
     \<lparr>id_hash = replicate 16 7, id_hexhash = bytes_hex (replicate 16 7), id_public_key = [1, 2]\<rparr>"

definition sample_env :: rns_env where
  "sample_env =
     \<lparr>identity_from_file = (\<lambda>c. Inr (Some \<lparr>id_hash = take 16 c, id_hexhash = bytes_hex (take 16 c),
                                            id_public_key = drop 16 c\<rparr>)),
      identity_to_file = (\<lambda>i. id_hash i @ id_public_key i),
      destination_hash = (\<lambda>_ _ _. replicate 16 9),
      make_destination = (\<lambda>i d t app aspects. Inr
        \<lparr>d_hash = replicate 16 9, d_identity = Some i,
         d_name = join ''.'' (app # aspects @ [id_hexhash i]), d_direction = d, d_type = t\<rparr>),
      has_path_at = (\<lambda>_ _. True), recall_at = (\<lambda>_ _. None), clock_at = (\<lambda>i. of_nat i)\<rparr>"

definition sample_sys :: sys where
  "sample_sys =
     \<lparr>entries = (\<lambda>_. \<lparr>le_link = None, le_destination_hash = [], le_aspect = [], le_app_name = [],
         le_sub_aspects = [], le_identified = False, le_open_client_id = JNull, le_suppress = False\<rparr>),
      rlinks = (\<lambda>_. \<lparr>rl_status = LPending, rl_mtu = JNull, rl_mdu = JNull,
         rl_teardown_reason = TrOther, rl_remote = None\<rparr>),
      transfers = (\<lambda>_. \<lparr>t_id = [], t_session_id = [], t_direction = [], t_link_id_hex = [], t_status = [],
         t_total_size = 0, t_bytes_transferred = 0, t_progress = 0, t_temp_path = None,
         t_upload_temp_path = None, t_metadata = JNull, t_created_at = 0, t_completed_at = None,
         t_failure_reason = None, t_resource = None, t_done_event = None, t_last_emit_ts = 0,
         t_last_emit_pct = - 1, t_poller = None\<rparr>),
      store_paths = resolve_paths id None None, id_files = [], default_id_file = None, res_files = [], res_tags = (\<lambda>_. None),
      next_ref = 0, trace = [], ses = new_session ''sid'' ''token'' 0 False\<rparr>"

lemma sample_sys_simps:
  "id_files sample_sys = []" "default_id_file sample_sys = None" "res_files sample_sys = []"
  "next_ref sample_sys = 0" "trace sample_sys = []" "ses sample_sys = new_session ''sid'' ''token'' 0 False"
  by (simp_all add: sample_sys_def)

lemma sample_identity_ok: "identity_hash_ok sample_identity"
  by (simp add: identity_hash_ok_def sample_identity_def)

lemma sample_env_files: "identity_files_ok sample_env"
  by (auto simp: identity_files_ok_def identity_hash_ok_def sample_env_def)

theorem identity_create_load_witness:
  "identity_load sample_env (snd (identity_create sample_env sample_identity sample_sys))
     (bytes_hex (replicate 16 7)) = Inr sample_identity"
  using identity_create_load [OF sample_env_files sample_identity_ok, of "bytes_hex (replicate 16 7)" sample_sys]
  by (metis lower_bytes_hex prod.collapse rns_identity.select_convs(1) sample_identity_def)

theorem default_identity_stable_witness:
  "default_identity sample_env sample_identity sample_sys =
     (Inr sample_identity, snd (default_identity sample_env sample_identity sample_sys)) \<and>
   default_identity sample_env sample_identity (snd (default_identity sample_env sample_identity sample_sys)) =
     (Inr sample_identity, snd (default_identity sample_env sample_identity sample_sys))"
proof -
  have "default_identity sample_env sample_identity sample_sys =
      (Inr sample_identity, snd (default_identity sample_env sample_identity sample_sys))"
    by (simp add: default_identity_def Let_def sample_sys_simps)
  with default_identity_stable [OF sample_env_files sample_identity_ok this] show ?thesis by blast
qed

end
