(* ===== verification/Destinations.thy ===== *)
theory Destinations
  imports Identities
begin

text \<open>
  \<open>rns/destinations.py\<close>: the destinations a session owns, keyed by their 16-byte hash. The
  \<open>RNS.Destination\<close> constructor registers with \<open>RNS.Transport\<close>; it is the parameter
  \<open>make_destination\<close>, which raises \<open>KeyError\<close> when the hash is registered already.
\<close>

record destination_info =
  di_hash_hex :: string
  di_identity_hash_hex :: string
  di_direction :: string
  di_type :: string
  di_app_name :: string
  di_aspects :: "string list"

definition destination_info_to_dict :: "destination_info \<Rightarrow> fields" where
  "destination_info_to_dict i =
     [(''hash'', JStr (di_hash_hex i)), (''identity_hash'', JStr (di_identity_hash_hex i)),
      (''direction'', JStr (di_direction i)), (''type'', JStr (di_type i)),
      (''app_name'', JStr (di_app_name i)), (''aspects'', JList (map JStr (di_aspects i)))]"

definition direction_map :: "(string, dest_direction) dict" where
  "direction_map = [(''in'', DirIn), (''out'', DirOut)]"

definition type_map :: "(string, dest_type) dict" where
  "type_map = [(''single'', TSingle), (''group'', TGroup), (''plain'', TPlain)]"

fun reverse_lookup :: "(string, 'v) dict \<Rightarrow> 'v \<Rightarrow> string" where
  "reverse_lookup [] value = ''unknown''"
| "reverse_lookup ((k, v) # m) value = (if v = value then k else reverse_lookup m value)"

definition info_from_destination :: "rns_destination \<Rightarrow> destination_info" where
  "info_from_destination d =
     (let parts = split_on (CHR ''.'') (d_name d);
          app_name = (case parts of [] \<Rightarrow> [] | p # _ \<Rightarrow> p);
          aspects = tl parts;
          aspects' = (case d_identity d of
              Some i \<Rightarrow> if aspects \<noteq> [] \<and> last aspects = id_hexhash i then butlast aspects else aspects
            | None \<Rightarrow> aspects)
      in \<lparr>di_hash_hex = bytes_hex (d_hash d),
          di_identity_hash_hex = (case d_identity d of Some i \<Rightarrow> id_hexhash i | None \<Rightarrow> []),
          di_direction = reverse_lookup direction_map (d_direction d),
          di_type = reverse_lookup type_map (d_type d),
          di_app_name = app_name, di_aspects = aspects'\<rparr>)"

definition find_bad_aspect :: "string list \<Rightarrow> string option" where
  "find_bad_aspect aspects = List.find (\<lambda>a. \<not> aspect_match a) aspects"

text \<open>The checks of \<open>create\<close>, in the order of the code.\<close>

definition destination_check ::
  "json \<Rightarrow> json \<Rightarrow> string \<Rightarrow> string list \<Rightarrow> exn + (dest_direction \<times> dest_type)" where
  "destination_check direction dtype app_name aspects =
     (case (as_str direction, as_str dtype) of
        (Some d0, Some t0) \<Rightarrow>
          (case dict_get direction_map (lower d0) of
             None \<Rightarrow> Inl (DestinationError (''invalid direction: '' @ py_repr d0))
           | Some d \<Rightarrow>
               (case dict_get type_map (lower t0) of
                  None \<Rightarrow> Inl (DestinationError (''invalid type: '' @ py_repr t0))
                | Some t \<Rightarrow>
                    if app_name = [] \<or> \<not> aspect_match app_name
                    then Inl (DestinationError ''app_name must match [a-zA-Z0-9_]+'')
                    else (case find_bad_aspect aspects of
                      Some a \<Rightarrow> Inl (DestinationError (''aspect must match [a-zA-Z0-9_]+: '' @ py_repr a))
                    | None \<Rightarrow> Inr (d, t))))
      | _ \<Rightarrow> Inl (PyExn ''AttributeError'' ''object has no attribute lower''))"

definition destination_create ::
  "rns_env \<Rightarrow> rns_identity \<Rightarrow> json \<Rightarrow> json \<Rightarrow> string \<Rightarrow> string list \<Rightarrow> sys \<Rightarrow>
   (exn + destination_info) \<times> sys" where
  "destination_create E identity direction dtype app_name aspects s =
     (case destination_check direction dtype app_name aspects of
        Inl e \<Rightarrow> (Inl e, s)
      | Inr (d, t) \<Rightarrow>
          (case make_destination E identity d t app_name aspects of
             Inl (PyExn cls m) \<Rightarrow>
               (if cls = ''KeyError''
                then (Inl (DestinationError (''destination already registered: '' @ m)), s)
                else (Inl (PyExn cls m), s))
           | Inl e \<Rightarrow> (Inl e, s)
           | Inr dest \<Rightarrow>
               (Inr (info_from_destination dest),
                upd_ses (\<lambda>x. x\<lparr>owned_destinations := dict_set (d_hash dest) dest (owned_destinations x)\<rparr>)
                  (emit (Rns (NewDestination dest)) s))))"

definition destination_remove :: "string \<Rightarrow> sys \<Rightarrow> (exn + destination_info) \<times> sys" where
  "destination_remove hash_hex s =
     (let h = lower hash_hex in
      if \<not> hex_hash_match h then (Inl (DestinationError (''invalid destination hash: '' @ py_repr hash_hex)), s)
      else (case fromhex h of
        None \<Rightarrow> (Inl (PyExn ''ValueError'' ''non-hexadecimal number found in fromhex() arg''), s)
      | Some hb \<Rightarrow>
          (case dict_get (owned_destinations (ses s)) hb of
             None \<Rightarrow> (Inl (DestinationError (''destination not owned by this session: '' @ hash_hex)), s)
           | Some dest \<Rightarrow>
               (Inr (info_from_destination dest),
                emit (Rns (Deregister dest))
                  (upd_ses (\<lambda>x. x\<lparr>owned_destinations := dict_pop hb (owned_destinations x)\<rparr>) s)))))"

definition destination_list :: "session \<Rightarrow> destination_info list" where
  "destination_list x = map info_from_destination (dict_values (owned_destinations x))"

definition destination_get :: "session \<Rightarrow> string \<Rightarrow> rns_destination option" where
  "destination_get x hash_hex =
     (let h = lower hash_hex in
      if \<not> hex_hash_match h then None
      else (case fromhex h of None \<Rightarrow> None | Some hb \<Rightarrow> dict_get (owned_destinations x) hb))"

text \<open>\<open>cleanup_session\<close>: an exception of the deregistration is logged and the loop goes on.\<close>

definition destination_cleanup :: "sys \<Rightarrow> sys" where
  "destination_cleanup s =
     upd_ses (\<lambda>x. x\<lparr>owned_destinations := []\<rparr>)
       (fold (\<lambda>d s. emit (Rns (Deregister d)) s) (dict_values (owned_destinations (ses s))) s)"

section \<open>Lemmas\<close>

lemma fold_emit_frame [simp, frame_simps]:
  "ses (fold (\<lambda>d s. emit (f d) s) ds s) = ses s"
  "entries (fold (\<lambda>d s. emit (f d) s) ds s) = entries s"
  "rlinks (fold (\<lambda>d s. emit (f d) s) ds s) = rlinks s"
  "transfers (fold (\<lambda>d s. emit (f d) s) ds s) = transfers s"
  "next_ref (fold (\<lambda>d s. emit (f d) s) ds s) = next_ref s"
  "res_files (fold (\<lambda>d s. emit (f d) s) ds s) = res_files s"
  "res_tags (fold (\<lambda>d s. emit (f d) s) ds s) = res_tags s"
  "trace (fold (\<lambda>d s. emit (f d) s) ds s) = trace s @ map f ds"
  by (induction ds arbitrary: s) auto

text \<open>The keys of the table are the hashes of the destinations in it.\<close>

definition destinations_ok :: "session \<Rightarrow> bool" where
  "destinations_ok x \<longleftrightarrow>
     dict_ok (owned_destinations x) \<and>
     list_all (\<lambda>(h, d). d_hash d = h) (owned_destinations x)"

lemma destinations_okD:
  "destinations_ok x \<Longrightarrow> dict_get (owned_destinations x) h = Some d \<Longrightarrow> d_hash d = h"
  by (auto simp: destinations_ok_def list_all_iff dest!: dict_get_in_items)

lemma destination_create_InrD:
  assumes "destination_create E identity direction dtype app_name aspects s = (Inr info, s')"
  obtains d t dest where "destination_check direction dtype app_name aspects = Inr (d, t)"
    "make_destination E identity d t app_name aspects = Inr dest"
    "info = info_from_destination dest"
    "s' = upd_ses (\<lambda>x. x\<lparr>owned_destinations := dict_set (d_hash dest) dest (owned_destinations x)\<rparr>)
            (emit (Rns (NewDestination dest)) s)"
  using assms
  by (auto simp: destination_create_def split: sum.splits exn.splits if_splits prod.splits)

lemma destination_create_ok:
  assumes "destinations_ok (ses s)" and "destination_create E i dir ty app aspects s = (r, s')"
  shows "destinations_ok (ses s')"
proof (cases r)
  case (Inl e)
  with assms show ?thesis
    by (auto simp: destination_create_def split: sum.splits exn.splits if_splits prod.splits)
next
  case (Inr info)
  with assms(2) obtain dest where s': "ses s' =
      (ses s)\<lparr>owned_destinations := dict_set (d_hash dest) dest (owned_destinations (ses s))\<rparr>"
    by (auto elim!: destination_create_InrD)
  show ?thesis
    using assms(1) dict_set_items [of "d_hash dest" dest "owned_destinations (ses s)"]
    by (auto simp: s' destinations_ok_def list_all_iff)
qed

lemma destination_remove_ok:
  assumes "destinations_ok (ses s)" and "destination_remove h s = (r, s')"
  shows "destinations_ok (ses s')"
  using assms
  by (auto simp: destination_remove_def Let_def destinations_ok_def list_all_iff dict_pop_items
      split: if_splits option.splits)

interpretation destination_hook: cleanup_hook destination_cleanup "\<lambda>x. owned_destinations x = []"
  by unfold_locales
    (auto simp: hook_ok_def destination_cleanup_def shrinks_def same_person_def trace_ext_def)

lemma destination_cleanup_deregisters:
  "d \<in> set (dict_values (owned_destinations (ses s))) \<Longrightarrow>
   Rns (Deregister d) \<in> set (trace (destination_cleanup s))"
  by (simp add: destination_cleanup_def)

lemma reverse_lookup_direction:
  "dict_get direction_map (lower d0) = Some d \<Longrightarrow> reverse_lookup direction_map d = lower d0"
  by (auto simp: direction_map_def dict_get_def split: if_splits)

lemma reverse_lookup_type:
  "dict_get type_map (lower t0) = Some t \<Longrightarrow> reverse_lookup type_map t = lower t0"
  by (auto simp: type_map_def dict_get_def split: if_splits)

text \<open>What RNS documents of a destination's name: the application name and the aspects joined
  by dots, followed by the identity's hash; the constructor keeps its arguments.\<close>

definition make_destination_ok :: "rns_env \<Rightarrow> bool" where
  "make_destination_ok E \<longleftrightarrow>
     (\<forall>i d t app aspects dest. make_destination E i d t app aspects = Inr dest \<longrightarrow>
        d_identity dest = Some i \<and> d_direction dest = d \<and> d_type dest = t \<and>
        d_name dest = join ''.'' (app # aspects @ [id_hexhash i]) \<and>
        length (d_hash dest) = 16)"

lemma word_char_no_dot: "word_char c \<Longrightarrow> c \<noteq> CHR ''.''"
  by (auto simp: word_char_def Let_def code_def)

lemma aspect_match_no_dot: "aspect_match a \<Longrightarrow> CHR ''.'' \<notin> set a"
proof
  assume m: "aspect_match a" and dot: "CHR ''.'' \<in> set a"
  have "set a \<subseteq> insert (CHR 0x0A) (set (drop_newline a))"
    using drop_newline_cases [of a] by (metis Un_insert_right empty_set list.simps(15) order.refl set_append subset_insertI sup_bot.right_neutral)
  with dot have "CHR ''.'' \<in> set (drop_newline a)" by auto
  with m show False by (auto simp: aspect_match_def Let_def list_all_iff dest: word_char_no_dot)
qed

lemma bytes_hex_no_dot: "CHR ''.'' \<notin> set (bytes_hex bs)"
  by (rule notI, drule bytes_hex_charD) (simp add: lower_hex_char_def code_def)

lemma find_bad_aspect_None: "find_bad_aspect aspects = None \<Longrightarrow> a \<in> set aspects \<Longrightarrow> aspect_match a"
  by (auto simp: find_bad_aspect_def find_None_iff)

lemma destination_check_InrD:
  assumes "destination_check direction dtype app_name aspects = Inr (d, t)"
  obtains d0 t0 where "direction = JStr d0" "dtype = JStr t0"
    "dict_get direction_map (lower d0) = Some d" "dict_get type_map (lower t0) = Some t"
    "aspect_match app_name" "\<forall>a \<in> set aspects. aspect_match a"
proof -
  have str: "as_str j = Some x \<longleftrightarrow> j = JStr x" for j x by (cases j) auto
  obtain d0 t0 where *: "as_str direction = Some d0" "as_str dtype = Some t0"
    using assms by (auto simp: destination_check_def split: option.splits)
  note assms [unfolded destination_check_def *, simplified]
  then have "dict_get direction_map (lower d0) = Some d" "dict_get type_map (lower t0) = Some t"
    "aspect_match app_name" "find_bad_aspect aspects = None"
    by (auto split: option.splits if_splits)
  then show thesis
    using * by (intro that) (auto simp: str intro: find_bad_aspect_None)
qed

text \<open>C30. A destination that was created is listed back with exactly the parameters it was
  created from, and it is the one the session now owns under its hash.\<close>

theorem destination_create_roundtrip:
  assumes "make_destination_ok E" and "identity_hash_ok i"
    and "destination_create E i (JStr dir) (JStr ty) app aspects s = (Inr info, s')"
  shows "di_direction info = lower dir \<and> di_type info = lower ty \<and> di_app_name info = app \<and>
    di_aspects info = aspects \<and> di_identity_hash_hex info = bytes_hex (id_hash i) \<and>
    map_option info_from_destination (destination_get (ses s') (di_hash_hex info)) = Some info \<and>
    info \<in> set (destination_list (ses s'))"
proof -
  from assms(3) obtain d t dest where
    chk: "destination_check (JStr dir) (JStr ty) app aspects = Inr (d, t)"
    and mk: "make_destination E i d t app aspects = Inr dest"
    and info: "info = info_from_destination dest"
    and s': "s' = upd_ses (\<lambda>x. x\<lparr>owned_destinations := dict_set (d_hash dest) dest (owned_destinations x)\<rparr>)
            (emit (Rns (NewDestination dest)) s)"
    by (rule destination_create_InrD)
  from chk have dir: "dict_get direction_map (lower dir) = Some d" "dict_get type_map (lower ty) = Some t"
    and ok: "aspect_match app" "\<forall>a \<in> set aspects. aspect_match a"
    by (auto elim: destination_check_InrD)
  have dest: "d_identity dest = Some i" "d_direction dest = d" "d_type dest = t"
    "d_name dest = join ''.'' (app # aspects @ [id_hexhash i])" "length (d_hash dest) = 16"
    using mk assms(1) by (auto simp: make_destination_ok_def)
  have "split_on (CHR ''.'') (d_name dest) = app # aspects @ [id_hexhash i]"
    unfolding dest
    by (rule split_on_join)
      (use ok assms(2) in \<open>auto simp: identity_hash_ok_def bytes_hex_no_dot dest: aspect_match_no_dot\<close>)
  then have parts: "di_app_name info = app" "di_aspects info = aspects"
    by (simp_all add: info info_from_destination_def dest Let_def)
  have get: "destination_get (ses s') (di_hash_hex info) = Some dest"
    by (simp add: info info_from_destination_def destination_get_def Let_def dest s')
  then have "dest \<in> set (dict_values (owned_destinations (ses s')))"
    by (auto simp: destination_get_def Let_def intro: dict_get_in_values split: if_splits option.splits)
  then have "info \<in> set (destination_list (ses s'))"
    by (simp add: destination_list_def info)
  moreover have "di_direction info = lower dir" "di_type info = lower ty"
    "di_identity_hash_hex info = bytes_hex (id_hash i)"
    using reverse_lookup_direction [OF dir(1)] reverse_lookup_type [OF dir(2)] assms(2)
    by (simp_all add: info info_from_destination_def dest Let_def identity_hash_ok_def)
  ultimately show ?thesis
    using parts get info by simp
qed

lemma sample_env_destinations: "make_destination_ok sample_env"
  by (auto simp: make_destination_ok_def sample_env_def)

theorem destination_create_roundtrip_witness:
  "\<exists>info s'. destination_create sample_env sample_identity (JStr ''IN'') (JStr ''single'') ''app'' [''echo''] sample_sys =
      (Inr info, s') \<and> di_direction info = ''in'' \<and> di_aspects info = [''echo''] \<and>
      map_option info_from_destination (destination_get (ses s') (di_hash_hex info)) = Some info"
proof -
  let ?dest = "\<lparr>d_hash = replicate 16 9, d_identity = Some sample_identity,
      d_name = join ''.'' (''app'' # [''echo''] @ [id_hexhash sample_identity]), d_direction = DirIn, d_type = TSingle\<rparr>"
  have low: "lower ''IN'' = ''in''" "lower ''single'' = ''single''"
    by (simp_all flip: code_inject add: lower_def lower_char_def code_def Let_def)
  have "destination_check (JStr ''IN'') (JStr ''single'') ''app'' [''echo''] = Inr (DirIn, TSingle)"
    by (simp add: destination_check_def low direction_map_def type_map_def dict_get_def aspect_match_def
        drop_newline_def word_char_def code_def Let_def find_bad_aspect_def)
  then have "fst (destination_create sample_env sample_identity (JStr ''IN'') (JStr ''single'') ''app'' [''echo''] sample_sys) =
      Inr (info_from_destination ?dest)"
    by (simp add: destination_create_def sample_env_def)
  then obtain s' where *: "destination_create sample_env sample_identity (JStr ''IN'') (JStr ''single'') ''app'' [''echo''] sample_sys =
      (Inr (info_from_destination ?dest), s')" by (metis prod.collapse)
  from destination_create_roundtrip [OF sample_env_destinations sample_identity_ok this] this low(1)
  show ?thesis by metis
qed

end
