(* ===== verification/Service_Common.thy ===== *)
theory Service_Common
  imports Destinations
begin

text \<open>
  What several services share: the polling loops with a deadline, the path lookup that precedes
  a send or a link (\<open>_request_path\<close>, the same code in \<open>rns/links.py\<close> and
  \<open>rns/packets.py\<close>), and the validation of aspects.
\<close>

section \<open>Polling\<close>

text \<open>
  \<open>while not done() and time.monotonic() < deadline: await asyncio.sleep(0.02)\<close>, where the
  \<open>i\<close>-th evaluation of the condition sees \<open>stop i\<close> and reads \<open>clk i\<close>. The result is the number
  of sleeps; \<open>None\<close> means that the fuel ran out.
\<close>

fun poll_until :: "nat \<Rightarrow> (nat \<Rightarrow> bool) \<Rightarrow> (nat \<Rightarrow> rat) \<Rightarrow> rat \<Rightarrow> nat \<Rightarrow> nat option" where
  "poll_until 0 stop clk deadline i = None"
| "poll_until (Suc n) stop clk deadline i =
     (if \<not> stop i \<and> clk i < deadline then poll_until n stop clk deadline (Suc i) else Some i)"

definition poll_interval :: rat where
  "poll_interval = 1 / 50"

text \<open>Enough fuel for a loop that starts no earlier than the clock the deadline was computed from.\<close>

definition poll_fuel :: "rat \<Rightarrow> nat" where
  "poll_fuel timeout = nat \<lceil>timeout / poll_interval\<rceil> + 1"

text \<open>\<open>asyncio.sleep(d)\<close> sleeps for at least \<open>d\<close> on the monotonic clock.\<close>

definition clock_advances :: "(nat \<Rightarrow> rat) \<Rightarrow> bool" where
  "clock_advances clk \<longleftrightarrow> (\<forall>i. clk i + poll_interval \<le> clk (Suc i))"

lemma poll_until_enough:
  assumes "clock_advances clk" and "deadline \<le> clk i + of_nat n * poll_interval"
  shows "\<exists>k. poll_until (Suc n) stop clk deadline i = Some k"
  using assms(2)
proof (induction n arbitrary: i)
  case (Suc n)
  have "clk i + poll_interval \<le> clk (Suc i)"
    using assms(1) by (simp add: clock_advances_def)
  with Suc.prems have "deadline \<le> clk (Suc i) + of_nat n * poll_interval"
    by (simp add: algebra_simps)
  from Suc.IH [OF this] show ?case by (subst poll_until.simps) simp
qed simp

lemma poll_until_returns:
  assumes "clock_advances clk" and "t0 \<le> clk 0"
  shows "\<exists>k. poll_until (poll_fuel timeout) stop clk (t0 + timeout) 0 = Some k"
proof -
  let ?n = "nat \<lceil>timeout / poll_interval\<rceil>"
  have "timeout / poll_interval \<le> of_nat ?n" by linarith
  then have "timeout \<le> of_nat ?n * poll_interval"
    by (simp add: poll_interval_def field_simps)
  with assms(2) have "t0 + timeout \<le> clk 0 + of_nat ?n * poll_interval" by linarith
  from poll_until_enough [OF assms(1) this] show ?thesis by (simp add: poll_fuel_def)
qed

lemma poll_until_SomeD:
  assumes "poll_until n stop clk deadline i = Some k"
  shows "i \<le> k" "stop k \<or> deadline \<le> clk k" "\<forall>j. i \<le> j \<and> j < k \<longrightarrow> \<not> stop j \<and> clk j < deadline"
proof -
  have "i \<le> k \<and> (stop k \<or> deadline \<le> clk k) \<and> (\<forall>j. i \<le> j \<and> j < k \<longrightarrow> \<not> stop j \<and> clk j < deadline)"
    using assms
  proof (induction n arbitrary: i)
    case (Suc n)
    show ?case
    proof (cases "\<not> stop i \<and> clk i < deadline")
      case True
      with Suc.prems have "poll_until n stop clk deadline (Suc i) = Some k" by simp
      from Suc.IH [OF this] True show ?thesis
        by (metis Suc_leD Suc_leI le_neq_implies_less)
    next
      case False
      with Suc.prems show ?thesis by auto
    qed
  qed simp
  then show "i \<le> k" "stop k \<or> deadline \<le> clk k" "\<forall>j. i \<le> j \<and> j < k \<longrightarrow> \<not> stop j \<and> clk j < deadline"
    by blast+
qed

lemma clock_mono:
  assumes "clock_advances clk" and "i \<le> j"
  shows "clk i \<le> clk j"
  using assms(2)
proof (induction j rule: dec_induct)
  case (step j)
  have "clk j + poll_interval \<le> clk (Suc j)" "0 < poll_interval"
    using assms(1) by (simp_all add: clock_advances_def poll_interval_def)
  with step show ?case by linarith
qed simp

text \<open>An answer that comes before the deadline ends the loop at that very probe.\<close>

lemma poll_until_first:
  assumes "poll_until n stop clk deadline 0 = Some k"
    and "stop m" "\<forall>j < m. \<not> stop j" "\<forall>j < m. clk j < deadline"
  shows "k = m"
proof -
  have "stop k \<or> deadline \<le> clk k" "\<forall>j < k. \<not> stop j"
    using poll_until_SomeD [OF assms(1)] by auto
  then show ?thesis using assms(2-4) by (metis linorder_neqE_nat not_le)
qed

section \<open>Path lookup\<close>

text \<open>
  \<open>if not has_path(h): await _request_path(h, timeout)\<close>: whether a path request was issued and
  how many probes were made; the announce cache is consulted after them.
\<close>

definition path_phase :: "rns_env \<Rightarrow> bytes \<Rightarrow> rat \<Rightarrow> (bool \<times> nat) option" where
  "path_phase E dest timeout =
     (if has_path_at E 0 dest then Some (False, 1)
      else map_option (\<lambda>i. (True, i + 2))
        (poll_until (poll_fuel timeout) (\<lambda>i. has_path_at E (Suc i) dest) (\<lambda>i. clock_at E (Suc i))
          (clock_at E 0 + timeout) 0))"

definition env_clock_ok :: "rns_env \<Rightarrow> bool" where
  "env_clock_ok E \<longleftrightarrow> clock_advances (\<lambda>i. clock_at E (Suc i)) \<and> clock_at E 0 \<le> clock_at E 1"

lemma path_phase_returns: "env_clock_ok E \<Longrightarrow> \<exists>r. path_phase E dest timeout = Some r"
  using poll_until_returns [of "\<lambda>i. clock_at E (Suc i)" "clock_at E 0" timeout]
  by (auto simp: path_phase_def env_clock_ok_def)

text \<open>
  The identity the send or the link is made to: the local file if there is one, else what the
  announce cache holds after the lookup.
\<close>

definition resolve_target :: "rns_env \<Rightarrow> 'a shared_scheme \<Rightarrow> bytes \<Rightarrow> bytes \<Rightarrow> nat \<Rightarrow> rns_identity option" where
  "resolve_target E s input dest probes =
     (case try_local_identity E s input of Some i \<Rightarrow> Some i | None \<Rightarrow> recall_at E probes dest)"

section \<open>Aspects\<close>

text \<open>
  \<open>all(_ASPECT_RE.match(a) for a in aspects)\<close> over a JSON list: a value that is no string raises
  \<open>TypeError\<close> when the iteration reaches it.
\<close>

fun aspects_all_match :: "json list \<Rightarrow> exn + bool" where
  "aspects_all_match [] = Inr True"
| "aspects_all_match (v # vs) =
     (case as_str v of
        None \<Rightarrow> Inl (PyExn ''TypeError'' ''expected string or bytes-like object'')
      | Some a \<Rightarrow> if aspect_match a then aspects_all_match vs else Inr False)"

definition str_items :: "json list \<Rightarrow> string list" where
  "str_items vs = concat (map (\<lambda>v. case as_str v of None \<Rightarrow> [] | Some a \<Rightarrow> [a]) vs)"

lemma str_items_map [simp]: "str_items (map JStr ss) = ss"
  by (induction ss) (auto simp: str_items_def)

lemma aspects_all_match_iff:
  "aspects_all_match vs = Inr True \<longleftrightarrow> (\<exists>ss. vs = map JStr ss \<and> (\<forall>a \<in> set ss. aspect_match a))"
proof (induction vs)
  case (Cons v vs)
  show ?case
  proof (cases v)
    case (JStr a)
    have "(\<exists>ss. v # vs = map JStr ss \<and> (\<forall>b \<in> set ss. aspect_match b)) \<longleftrightarrow>
        aspect_match a \<and> (\<exists>ss. vs = map JStr ss \<and> (\<forall>b \<in> set ss. aspect_match b))"
      using JStr by (auto simp: Cons_eq_map_conv) (metis list.set_intros(1) list.set_intros(2) set_ConsD)
    with Cons JStr show ?thesis by simp
  qed auto
qed simp

lemma aspects_all_match_no_loop: "aspects_all_match vs \<noteq> Inl Diverges"
  by (induction vs) (auto split: option.splits)

lemma sample_env_clock: "env_clock_ok sample_env"
  by (simp add: env_clock_ok_def clock_advances_def sample_env_def poll_interval_def)

text \<open>A session that owns one destination, for the witnesses.\<close>

definition sample_dest :: rns_destination where
  "sample_dest =
     \<lparr>d_hash = replicate 16 9, d_identity = Some sample_identity, d_name = ''app.echo'',
      d_direction = DirIn, d_type = TSingle\<rparr>"

definition owning_sys :: sys where
  "owning_sys = upd_ses (\<lambda>x. x\<lparr>owned_destinations := [(replicate 16 9, sample_dest)]\<rparr>) sample_sys"

lemma owning_sys_ok: "destinations_ok (ses owning_sys)"
  by (simp add: owning_sys_def destinations_ok_def dict_ok_def sample_dest_def)

end
