(* ===== verification/Packets.thy ===== *)
theory Packets
  imports Service_Common
begin

text \<open>
  \<open>rns/packets.py\<close>: packet listeners on the session's own destinations, and packet sends with
  their delivery receipts. The callbacks (\<open>_on_packet\<close>, \<open>_on_delivered\<close>, \<open>_on_timeout\<close>) are
  operations of their own, which RNS threads run later. (A dash outside Latin-1 in one error
  message is written as a hyphen.)
\<close>

definition fromhex_error :: exn where
  "fromhex_error = PyExn ''ValueError'' ''non-hexadecimal number found in fromhex() arg''"

section \<open>Listening\<close>

definition packet_listen :: "string \<Rightarrow> sys \<Rightarrow> (exn + fields) \<times> sys" where
  "packet_listen dest_hex s =
     (let h = lower dest_hex in
      if \<not> hex_hash_match h then (Inl (PacketError (''invalid destination hash: '' @ py_repr dest_hex)), s)
      else (case fromhex h of
        None \<Rightarrow> (Inl fromhex_error, s)
      | Some hb \<Rightarrow>
          if dict_get (owned_destinations (ses s)) hb = None
          then (Inl (PacketError (''destination not owned by this session: '' @ dest_hex)), s)
          else if hb \<in> set (packet_listeners (ses s))
          then (Inr [(''ok'', JBool True), (''destination_hash'', JStr h), (''note'', JStr ''already_listening'')], s)
          else (Inr [(''ok'', JBool True), (''destination_hash'', JStr h)],
                upd_ses (\<lambda>x. x\<lparr>packet_listeners := set_add hb (packet_listeners x)\<rparr>)
                  (emit (Rns (SetDestCallback hb True)) s))))"

record inbound_packet =
  pk_packet_hash :: "bytes option"
  pk_hops :: json
  pk_rssi :: json
  pk_snr :: json

definition on_packet :: "string \<Rightarrow> string \<Rightarrow> bytes \<Rightarrow> inbound_packet \<Rightarrow> sys \<Rightarrow> sys" where
  "on_packet session_id h data packet s =
     emit (BridgeSession session_id (JObj
       [(''type'', JStr ''packet.received''), (''session_id'', JStr session_id),
        (''destination_hash'', JStr h), (''data_b64'', jopt (b64_or_none (Some data))),
        (''size'', jnat (length data)),
        (''packet_hash'', case pk_packet_hash packet of None \<Rightarrow> JNull | Some b \<Rightarrow> if b = [] then JNull else jhex b),
        (''hops'', pk_hops packet), (''rssi'', pk_rssi packet), (''snr'', pk_snr packet)])) s"

definition packet_unlisten :: "string \<Rightarrow> sys \<Rightarrow> (exn + fields) \<times> sys" where
  "packet_unlisten dest_hex s =
     (let h = lower dest_hex in
      if \<not> hex_hash_match h then (Inl (PacketError (''invalid destination hash: '' @ py_repr dest_hex)), s)
      else (case fromhex h of
        None \<Rightarrow> (Inl fromhex_error, s)
      | Some hb \<Rightarrow>
          if hb \<notin> set (packet_listeners (ses s))
          then (Inl (PacketError (''no listener on destination: '' @ dest_hex)), s)
          else
            (Inr [(''ok'', JBool True), (''destination_hash'', JStr h)],
             upd_ses (\<lambda>x. x\<lparr>packet_listeners := set_discard hb (packet_listeners x)\<rparr>)
               (if dict_get (owned_destinations (ses s)) hb = None then s
                else emit (Rns (SetDestCallback hb False)) s))))"

definition list_listeners :: "session \<Rightarrow> string list" where
  "list_listeners x = map bytes_hex (packet_listeners x)"

section \<open>Sending\<close>

record packet_job =
  pj_input :: bytes
  pj_dest :: bytes
  pj_app_name :: string
  pj_aspects :: "string list"
  pj_data :: bytes

text \<open>The checks of \<open>send\<close> in the order of the code.\<close>

definition packet_prepare :: "rns_env \<Rightarrow> string \<Rightarrow> string \<Rightarrow> json list \<Rightarrow> string \<Rightarrow> exn + packet_job" where
  "packet_prepare E hash_hex app_name aspects data_b64 =
     (let h = lower hash_hex in
      if \<not> hex_hash_match h then Inl (PacketError (''invalid identity hash: '' @ py_repr hash_hex))
      else if \<not> aspect_match app_name then Inl (PacketError ''app_name must match [a-zA-Z0-9_]+'')
      else (case aspects_all_match aspects of
        Inl e \<Rightarrow> Inl e
      | Inr False \<Rightarrow> Inl (PacketError ''aspects must be a list of [a-zA-Z0-9_]+ strings'')
      | Inr True \<Rightarrow>
          (case b64decode data_b64 of
             Inl m \<Rightarrow> Inl (PacketError (''data_b64 is not valid base64: '' @ m))
           | Inr data \<Rightarrow>
               (case fromhex h of
                  None \<Rightarrow> Inl fromhex_error
                | Some input \<Rightarrow>
                    Inr \<lparr>pj_input = input,
                         pj_dest = destination_hash E input app_name (str_items aspects),
                         pj_app_name = app_name, pj_aspects = str_items aspects, pj_data = data\<rparr>))))"

text \<open>
  \<open>RNS.Packet(dest, data).send()\<close>: \<open>Inl\<close> the message of the exception, \<open>Inr\<close> the packet's
  hash, if RNS gave it one, and the receipt, if it returned one.
\<close>

type_synonym send_answer = "string + (bytes option \<times> receipt_ref option)"

definition packet_hash_hex :: "bytes option \<Rightarrow> string option" where
  "packet_hash_hex ph = (case ph of None \<Rightarrow> None | Some b \<Rightarrow> if b = [] then None else Some (bytes_hex b))"

definition packet_send ::
  "rns_env \<Rightarrow> send_answer \<Rightarrow> string \<Rightarrow> string \<Rightarrow> json list \<Rightarrow> string \<Rightarrow> json \<Rightarrow> rat \<Rightarrow> sys \<Rightarrow>
   (exn + fields) \<times> sys" where
  "packet_send E ans hash_hex app_name aspects data_b64 proof_timeout lookup_timeout s =
     (case packet_prepare E hash_hex app_name aspects data_b64 of
        Inl e \<Rightarrow> (Inl e, s)
      | Inr job \<Rightarrow>
         (case path_phase E (pj_dest job) lookup_timeout of
            None \<Rightarrow> (Inl Diverges, emit (Rns (RequestPath (pj_dest job))) s)
          | Some (requested, probes) \<Rightarrow>
             (let s1 = (if requested then emit (Rns (RequestPath (pj_dest job))) s else s) in
              case resolve_target E s (pj_input job) (pj_dest job) probes of
                None \<Rightarrow>
                  (Inl (PacketError ''no known identity for hash - send an announce or issue a path request first''), s1)
              | Some target \<Rightarrow>
                 (case make_destination E target DirOut TSingle (pj_app_name job) (pj_aspects job) of
                    Inl e \<Rightarrow> (Inl e, s1)
                  | Inr out \<Rightarrow>
                     (let s2 = emit (Rns (SendPacket (d_hash out) (pj_data job))) (emit (Rns (OutDestination out)) s1) in
                      case ans of
                        Inl m \<Rightarrow> (Inl (PacketError (''RNS refused to send packet: '' @ m)), s2)
                      | Inr (ph, receipt) \<Rightarrow>
                         (let pkt = packet_hash_hex ph;
                              s3 = (case pkt of None \<Rightarrow> s2
                                    | Some k \<Rightarrow> upd_ses (\<lambda>x. x\<lparr>pending_receipts := dict_set k receipt (pending_receipts x)\<rparr>) s2);
                              s4 = (case receipt of None \<Rightarrow> s3
                                    | Some r \<Rightarrow>
                                       (if proof_timeout = JNull then emit (Rns (ReceiptCallbacks r True)) s3
                                        else emit (Rns (ReceiptTimeout r proof_timeout)) (emit (Rns (ReceiptCallbacks r True)) s3)));
                              report = [(''destination_hash'', jhex (d_hash out)),
                                        (''identity_hash'', JStr (id_hexhash target)),
                                        (''packet_hash'', jopt pkt), (''size'', jnat (length (pj_data job))),
                                        (''has_receipt'', JBool (receipt \<noteq> None))]
                          in (Inr ((''ok'', JBool True) # report),
                              emit (HubSession (s_id (ses s4))
                                (JObj ([(''type'', JStr ''packet.sent''), (''session_id'', JStr (s_id (ses s4)))] @ report)))
                                s4)))))))"

section \<open>Receipt callbacks\<close>

datatype receipt_status = RsFailed | RsSent | RsDelivered | RsCulled | RsOther

fun receipt_status_str :: "receipt_status \<Rightarrow> string" where
  "receipt_status_str RsFailed = ''FAILED''"
| "receipt_status_str RsSent = ''SENT''"
| "receipt_status_str RsDelivered = ''DELIVERED''"
| "receipt_status_str RsCulled = ''CULLED''"
| "receipt_status_str RsOther = ''UNKNOWN''"

definition forget_receipt :: "string option \<Rightarrow> sys \<Rightarrow> sys" where
  "forget_receipt pkt s =
     (case pkt of None \<Rightarrow> s
      | Some k \<Rightarrow> upd_ses (\<lambda>x. x\<lparr>pending_receipts := dict_pop k (pending_receipts x)\<rparr>) s)"

definition on_delivered :: "string \<Rightarrow> bytes \<Rightarrow> string option \<Rightarrow> rat option \<Rightarrow> receipt_status \<Rightarrow> sys \<Rightarrow> sys" where
  "on_delivered session_id dest pkt rtt status s =
     forget_receipt pkt (emit (BridgeSession session_id (JObj
       [(''type'', JStr ''packet.receipt.delivered''), (''session_id'', JStr session_id),
        (''destination_hash'', jhex dest), (''packet_hash'', jopt pkt),
        (''rtt'', case rtt of None \<Rightarrow> JNull | Some r \<Rightarrow> JFloat r),
        (''status'', JStr (receipt_status_str status))])) s)"

definition on_timeout :: "string \<Rightarrow> bytes \<Rightarrow> string option \<Rightarrow> receipt_status \<Rightarrow> sys \<Rightarrow> sys" where
  "on_timeout session_id dest pkt status s =
     forget_receipt pkt (emit (BridgeSession session_id (JObj
       [(''type'', JStr ''packet.receipt.failed''), (''session_id'', JStr session_id),
        (''destination_hash'', jhex dest), (''packet_hash'', jopt pkt),
        (''status'', JStr (receipt_status_str status))])) s)"

section \<open>Cleanup\<close>

text \<open>
  Callbacks are cleared on the listened destinations the session still owns, and on the pending
  receipts; a pending entry without a receipt raises inside the \<open>try\<close> and is only logged.
\<close>

definition packet_cleanup :: "sys \<Rightarrow> sys" where
  "packet_cleanup s =
     (let s1 = fold (\<lambda>hb s. emit (Rns (SetDestCallback hb False)) s)
                 (filter (\<lambda>hb. dict_get (owned_destinations (ses s)) hb \<noteq> None) (packet_listeners (ses s))) s;
          s2 = upd_ses (\<lambda>x. x\<lparr>packet_listeners := []\<rparr>) s1;
          s3 = fold (\<lambda>r s. emit (Rns (ReceiptCallbacks r False)) s)
                 (concat (map (\<lambda>r. case r of None \<Rightarrow> [] | Some r \<Rightarrow> [r]) (dict_values (pending_receipts (ses s))))) s2
      in upd_ses (\<lambda>x. x\<lparr>pending_receipts := []\<rparr>) s3)"

section \<open>Lemmas\<close>

text \<open>
  Whether the destination object that is currently registered under a hash has a packet
  callback, read off the trace.
\<close>

fun callback_step :: "bytes \<Rightarrow> effect \<Rightarrow> bool \<Rightarrow> bool" where
  "callback_step hb (Rns (NewDestination d)) b = (if d_hash d = hb then False else b)"
| "callback_step hb (Rns (Deregister d)) b = (if d_hash d = hb then False else b)"
| "callback_step hb (Rns (SetDestCallback h on)) b = (if h = hb then on else b)"
| "callback_step hb _ b = b"

definition callback_set :: "bytes \<Rightarrow> effect list \<Rightarrow> bool" where
  "callback_set hb tr = fold (callback_step hb) tr False"

lemma callback_set_snoc [simp]: "callback_set hb (tr @ [e]) = callback_step hb e (callback_set hb tr)"
  by (simp add: callback_set_def)

lemma callback_set_append: "callback_set hb (tr @ es) = fold (callback_step hb) es (callback_set hb tr)"
  by (simp add: callback_set_def)

text \<open>Packets are delivered to the client for exactly the destinations it listens on.\<close>

definition listeners_exact :: "sys \<Rightarrow> bool" where
  "listeners_exact s \<longleftrightarrow>
     (\<forall>hb. dict_get (owned_destinations (ses s)) hb \<noteq> None \<longrightarrow>
        (callback_set hb (trace s) \<longleftrightarrow> hb \<in> set (packet_listeners (ses s))))"

lemma fold_clear_callbacks:
  "fold (callback_step hb) (map (\<lambda>h. Rns (SetDestCallback h False)) hs) b = (b \<and> hb \<notin> set hs)"
  by (induction hs arbitrary: b) auto

lemma fold_clear_receipts:
  "fold (callback_step hb) (map (\<lambda>r. Rns (ReceiptCallbacks r x)) rs) b = b"
  by (induction rs arbitrary: b) auto

lemma packet_listen_exact: "listeners_exact s \<Longrightarrow> listeners_exact (snd (packet_listen h s))"
  by (auto simp: packet_listen_def Let_def listeners_exact_def split: option.splits)

lemma packet_unlisten_exact: "listeners_exact s \<Longrightarrow> listeners_exact (snd (packet_unlisten h s))"
  by (auto simp: packet_unlisten_def Let_def listeners_exact_def split: option.splits)

lemma packet_cleanup_frame:
  "ses (packet_cleanup s) = (ses s)\<lparr>packet_listeners := [], pending_receipts := []\<rparr>"
  "trace (packet_cleanup s) = trace s @
     map (\<lambda>h. Rns (SetDestCallback h False))
       (filter (\<lambda>hb. dict_get (owned_destinations (ses s)) hb \<noteq> None) (packet_listeners (ses s))) @
     map (\<lambda>r. Rns (ReceiptCallbacks r False))
       (concat (map (\<lambda>r. case r of None \<Rightarrow> [] | Some r \<Rightarrow> [r]) (dict_values (pending_receipts (ses s)))))"
  by (simp_all add: packet_cleanup_def Let_def)

lemma packet_cleanup_exact: "listeners_exact s \<Longrightarrow> listeners_exact (packet_cleanup s)"
  by (auto simp: listeners_exact_def packet_cleanup_frame callback_set_append fold_clear_callbacks
      fold_clear_receipts)

lemma packet_send_frame:
  assumes "packet_send E ans h app aspects b64 pt lt s = (r, s')"
  shows "packet_listeners (ses s') = packet_listeners (ses s)"
    "owned_destinations (ses s') = owned_destinations (ses s)"
    "callback_set hb (trace s') = callback_set hb (trace s)"
  using assms
  by (auto simp: packet_send_def Let_def callback_set_append split: sum.splits option.splits if_splits)

lemma destination_remove_exact:
  assumes "destinations_ok (ses s)" and "listeners_exact s"
  shows "listeners_exact (snd (destination_remove h s))"
  using assms
  by (auto simp: listeners_exact_def destination_remove_def Let_def dest: destinations_okD split: option.splits)

text \<open>C14. Every operation of the packet service, a destination's removal, and a destination's
  creation under a hash that has no left-over listener keep the listener table exact: a
  registered destination has a packet callback if and only if the session listens on it.\<close>

theorem listener_table_exact:
  assumes "destinations_ok (ses s)" and "listeners_exact s"
  shows "listeners_exact (snd (packet_listen h s)) \<and>
    listeners_exact (snd (packet_unlisten h s)) \<and>
    listeners_exact (packet_cleanup s) \<and>
    listeners_exact (snd (packet_send E ans ih app aspects b64 pt lt s)) \<and>
    listeners_exact (snd (destination_remove h s)) \<and>
    (\<forall>i dir ty as info s'. destination_create E i dir ty app as s = (Inr info, s') \<longrightarrow>
       (\<forall>hb \<in> set (packet_listeners (ses s)). bytes_hex hb \<noteq> di_hash_hex info) \<longrightarrow> listeners_exact s')"
proof (intro conjI allI impI)
  show "listeners_exact (snd (packet_send E ans ih app aspects b64 pt lt s))"
    using packet_send_frame [of E ans ih app aspects b64 pt lt s] assms(2)
    by (metis listeners_exact_def prod.collapse)
next
  fix i dir ty as info s'
  assume "destination_create E i dir ty app as s = (Inr info, s')"
    and fresh: "\<forall>hb \<in> set (packet_listeners (ses s)). bytes_hex hb \<noteq> di_hash_hex info"
  then obtain dest where "info = info_from_destination dest"
    and s': "s' = upd_ses (\<lambda>x. x\<lparr>owned_destinations := dict_set (d_hash dest) dest (owned_destinations x)\<rparr>)
            (emit (Rns (NewDestination dest)) s)"
    by (auto elim!: destination_create_InrD)
  with fresh have "d_hash dest \<notin> set (packet_listeners (ses s))"
    by (auto simp: info_from_destination_def Let_def)
  with assms(2) show "listeners_exact s'"
    by (auto simp: listeners_exact_def s')
qed (use assms in \<open>simp_all add: packet_listen_exact packet_unlisten_exact packet_cleanup_exact
      destination_remove_exact\<close>)

text \<open>C40. Without that condition it fails: a listener outlives the removal of its destination, and
  when the destination is created again under the same hash, listening on it answers
  \<open>already_listening\<close> and installs no callback, so no packet is ever delivered.\<close>

theorem stale_listener_after_recreation:
  assumes "destinations_ok (ses s)" and "fromhex (lower h) = Some hb" and "hb \<in> set (packet_listeners (ses s))"
    and "destination_remove h s = (Inr info, s1)"
    and "destination_create E i dir ty app as s1 = (Inr info', s2)" and "di_hash_hex info' = bytes_hex hb"
  shows "packet_listen h s2 =
      (Inr [(''ok'', JBool True), (''destination_hash'', JStr (lower h)), (''note'', JStr ''already_listening'')], s2) \<and>
    dict_get (owned_destinations (ses s2)) hb \<noteq> None \<and> \<not> callback_set hb (trace s2)"
proof -
  have m: "hex_hash_match (lower h)"
    using assms(4) by (auto simp: destination_remove_def Let_def split: if_splits)
  have listeners: "packet_listeners (ses s1) = packet_listeners (ses s)"
    using assms(4) by (auto simp: destination_remove_def Let_def split: if_splits option.splits)
  obtain dest where info': "info' = info_from_destination dest"
    and s2: "s2 = upd_ses (\<lambda>x. x\<lparr>owned_destinations := dict_set (d_hash dest) dest (owned_destinations x)\<rparr>)
            (emit (Rns (NewDestination dest)) s1)"
    using assms(5) by (auto elim!: destination_create_InrD)
  from assms(6) info' have "d_hash dest = hb"
    by (auto simp: info_from_destination_def Let_def)
  with assms(2,3) m listeners show ?thesis
    by (simp add: packet_listen_def Let_def s2)
qed

section \<open>Sends\<close>

lemma packet_prepare_InrD:
  assumes "packet_prepare E h app aspects b64 = Inr job"
  obtains input data ss where "fromhex (lower h) = Some input" "length input = 16" "aspect_match app"
    "aspects = map JStr ss" "\<forall>a \<in> set ss. aspect_match a" "b64decode b64 = Inr data"
    "job = \<lparr>pj_input = input, pj_dest = destination_hash E input app ss, pj_app_name = app,
            pj_aspects = ss, pj_data = data\<rparr>"
proof -
  have m: "hex_hash_match (lower h)"
    using assms by (auto simp: packet_prepare_def Let_def split: if_splits)
  obtain input where input: "fromhex (lower h) = Some input" "length input = 16"
    using hex_hash_fromhex [OF m] by blast
  have "aspects_all_match aspects = Inr True" and app: "aspect_match app"
    using assms by (auto simp: packet_prepare_def Let_def split: if_splits sum.splits bool.splits)
  then obtain ss where ss: "aspects = map JStr ss" "\<forall>a \<in> set ss. aspect_match a"
    by (auto simp: aspects_all_match_iff)
  obtain data where data: "b64decode b64 = Inr data"
    using assms by (auto simp: packet_prepare_def Let_def split: if_splits sum.splits bool.splits)
  have "job = \<lparr>pj_input = input, pj_dest = destination_hash E input app ss, pj_app_name = app,
            pj_aspects = ss, pj_data = data\<rparr>"
    using assms m app \<open>aspects_all_match aspects = Inr True\<close> data input(1)
    by (simp add: packet_prepare_def Let_def ss(1))
  with input app ss data show thesis by (rule that)
qed

text \<open>C28. A send to an identity that is not known yet succeeds when its announce arrives in time:
  if the path appears at a probe before the deadline and the announce cache then knows the
  identity, the packet goes to that identity, after exactly one path request, and the session is
  told so.\<close>

theorem packet_send_after_discovery:
  assumes "packet_prepare E h app aspects b64 = Inr job" and "env_clock_ok E"
    and "try_local_identity E s (pj_input job) = None"
    and "\<forall>j \<le> m. \<not> has_path_at E j (pj_dest job)" and "has_path_at E (Suc m) (pj_dest job)"
    and "clock_at E m < clock_at E 0 + lt \<or> m = 0"
    and "recall_at E (m + 2) (pj_dest job) = Some target"
    and "make_destination E target DirOut TSingle (pj_app_name job) (pj_aspects job) = Inr out"
  shows "\<exists>report ev s'. packet_send E (Inr (ph, receipt)) h app aspects b64 JNull lt s =
      (Inr ((''ok'', JBool True) # report), s') \<and>
    field ''identity_hash'' report = JStr (id_hexhash target) \<and>
    (\<exists>mid. trace s' = trace s @ [Rns (RequestPath (pj_dest job)), Rns (OutDestination out),
                                 Rns (SendPacket (d_hash out) (pj_data job))] @ mid @ [HubSession (s_id (ses s)) ev] \<and>
           mid = (case receipt of None \<Rightarrow> [] | Some r \<Rightarrow> [Rns (ReceiptCallbacks r True)])) \<and>
    ev_type ev = Some ''packet.sent''"
proof -
  let ?stop = "\<lambda>i. has_path_at E (Suc i) (pj_dest job)"
  let ?clk = "\<lambda>i. clock_at E (Suc i)"
  obtain k where k: "poll_until (poll_fuel lt) ?stop ?clk (clock_at E 0 + lt) 0 = Some k"
    using poll_until_returns [of ?clk "clock_at E 0" lt] assms(2) by (auto simp: env_clock_ok_def)
  have early: "?clk j < clock_at E 0 + lt" if jm: "j < m" for j
  proof -
    obtain m' where m': "m = Suc m'" using jm by (cases m) auto
    have "?clk j \<le> ?clk m'"
      using clock_mono [of ?clk j m'] assms(2) jm m' by (auto simp: env_clock_ok_def)
    also have "\<dots> < clock_at E 0 + lt" using assms(6) m' by auto
    finally show ?thesis .
  qed
  have "k = m"
    using poll_until_first [OF k assms(5)] assms(4) early by simp
  then have phase: "path_phase E (pj_dest job) lt = Some (True, m + 2)"
    using k assms(4) by (simp add: path_phase_def)
  have target: "resolve_target E s (pj_input job) (pj_dest job) (m + 2) = Some target"
    using assms(3,7) by (simp add: resolve_target_def)
  show ?thesis
    using assms(1,8) phase target
    by (cases receipt; cases "packet_hash_hex ph") (simp_all add: packet_send_def Let_def)
qed

text \<open>C29. A receipt is tracked from the send until RNS reports on it: the send files it under the
  packet's hash, the delivery and the timeout callback each tell the session once and drop
  exactly that entry.\<close>

theorem receipt_tracked_until_reported:
  assumes "packet_send E (Inr (Some ph, Some r)) h app aspects b64 pt lt s = (Inr res, s')" and "ph \<noteq> []"
    and "report \<in> {on_delivered sid dest (Some (bytes_hex ph)) rtt st, on_timeout sid dest (Some (bytes_hex ph)) st}"
  shows "dict_get (pending_receipts (ses s')) (bytes_hex ph) = Some (Some r) \<and>
    dict_get (pending_receipts (ses (report s'))) (bytes_hex ph) = None \<and>
    (\<forall>k. k \<noteq> bytes_hex ph \<longrightarrow>
       dict_get (pending_receipts (ses (report s'))) k = dict_get (pending_receipts (ses s)) k) \<and>
    (\<exists>ev. trace (report s') = trace s' @ [BridgeSession sid ev] \<and>
          ev_type ev \<in> {Some ''packet.receipt.delivered'', Some ''packet.receipt.failed''})"
proof -
  have pend: "pending_receipts (ses s') = dict_set (bytes_hex ph) (Some r) (pending_receipts (ses s))"
    using assms(1,2)
    by (auto simp: packet_send_def packet_hash_hex_def Let_def split: sum.splits option.splits if_splits)
  show ?thesis
    using assms(3) by (auto simp: pend on_delivered_def on_timeout_def forget_receipt_def)
qed

interpretation packet_hook: cleanup_hook packet_cleanup "\<lambda>x. packet_listeners x = [] \<and> pending_receipts x = []"
  by unfold_locales
    (auto simp: hook_ok_def packet_cleanup_frame shrinks_def same_person_def trace_ext_def)

lemma packet_cleanup_clears_callback:
  "hb \<in> set (packet_listeners (ses s)) \<Longrightarrow> dict_get (owned_destinations (ses s)) hb \<noteq> None \<Longrightarrow>
   Rns (SetDestCallback hb False) \<in> set (trace (packet_cleanup s))"
  by (simp add: packet_cleanup_frame)

section \<open>Witnesses\<close>

definition listening_sys :: sys where
  "listening_sys = snd (packet_listen (bytes_hex (replicate 16 9)) owning_sys)"

lemma listening_sys_simps:
  "owned_destinations (ses listening_sys) = [(replicate 16 9, sample_dest)]"
  "packet_listeners (ses listening_sys) = [replicate 16 9]"
  "trace listening_sys = [Rns (SetDestCallback (replicate 16 9) True)]"
  by (simp_all add: listening_sys_def packet_listen_def Let_def owning_sys_def dict_get_def
      sample_sys_simps new_session_def set_add_def)

lemma listening_sys_ok: "destinations_ok (ses listening_sys)" "listeners_exact listening_sys"
  by (simp_all add: destinations_ok_def dict_ok_def listeners_exact_def listening_sys_simps sample_dest_def
      callback_set_def dict_get_def)

theorem listener_table_exact_witness:
  "listeners_exact (snd (packet_unlisten (bytes_hex (replicate 16 9)) listening_sys))"
  using listener_table_exact [OF listening_sys_ok] by blast

lemma create_echo_check:
  "destination_check (JStr ''in'') (JStr ''single'') ''app'' [''echo''] = Inr (DirIn, TSingle)"
proof -
  have "lower ''in'' = ''in''" "lower ''single'' = ''single''"
    by (simp_all add: lower_def lower_char_def code_def Let_def)
  then show ?thesis
    by (simp add: destination_check_def direction_map_def type_map_def dict_get_def aspect_match_def
        drop_newline_def word_char_def code_def Let_def find_bad_aspect_def)
qed

theorem stale_listener_after_recreation_witness:
  "\<exists>s2. fst (packet_listen (bytes_hex (replicate 16 9)) s2) =
     Inr [(''ok'', JBool True), (''destination_hash'', JStr (lower (bytes_hex (replicate 16 9)))),
          (''note'', JStr ''already_listening'')] \<and>
   dict_get (owned_destinations (ses s2)) (replicate 16 9) \<noteq> None \<and> \<not> callback_set (replicate 16 9) (trace s2)"
proof -
  let ?h = "bytes_hex (replicate 16 9)"
  obtain s1 where s1: "destination_remove ?h listening_sys = (Inr (info_from_destination sample_dest), s1)"
    by (simp add: destination_remove_def Let_def listening_sys_simps dict_get_def)
  obtain d where mk: "make_destination sample_env sample_identity DirIn TSingle ''app'' [''echo''] = Inr d"
    and hash: "d_hash d = replicate 16 9"
    by (simp add: sample_env_def)
  obtain s2 where s2: "destination_create sample_env sample_identity (JStr ''in'') (JStr ''single'') ''app'' [''echo''] s1 =
      (Inr (info_from_destination d), s2)"
    by (simp add: destination_create_def create_echo_check mk)
  have "fromhex (lower ?h) = Some (replicate 16 9)" "replicate 16 9 \<in> set (packet_listeners (ses listening_sys))"
    "di_hash_hex (info_from_destination d) = ?h"
    by (simp_all add: listening_sys_simps info_from_destination_def Let_def hash)
  from stale_listener_after_recreation [OF listening_sys_ok(1) this(1,2) s1 s2 this(3)]
  show ?thesis by (metis fst_conv)
qed

definition discovery_env :: rns_env where
  "discovery_env = sample_env\<lparr>has_path_at := \<lambda>j _. 1 \<le> j, recall_at := \<lambda>_ _. Some sample_identity\<rparr>"

definition sample_job :: packet_job where
  "sample_job = \<lparr>pj_input = replicate 16 7, pj_dest = replicate 16 9, pj_app_name = ''app'',
                 pj_aspects = [''echo''], pj_data = [65, 66]\<rparr>"

lemma sample_job_prepared:
  "packet_prepare discovery_env (bytes_hex (replicate 16 7)) ''app'' [JStr ''echo''] ''QUI='' = Inr sample_job"
proof -
  have "b64decode ''QUI='' = Inr [65, 66]" by code_simp
  then show ?thesis
    by (simp add: packet_prepare_def Let_def aspect_match_def drop_newline_def word_char_def code_def
        sample_job_def discovery_env_def sample_env_def str_items_def)
qed

lemma discovery_env_facts:
  "env_clock_ok discovery_env" "\<forall>j \<le> 0. \<not> has_path_at discovery_env j (pj_dest sample_job)"
  "has_path_at discovery_env (Suc 0) (pj_dest sample_job)"
  "recall_at discovery_env (0 + 2) (pj_dest sample_job) = Some sample_identity"
  "try_local_identity discovery_env sample_sys (pj_input sample_job) = None"
  by (simp_all add: env_clock_ok_def clock_advances_def discovery_env_def sample_env_def poll_interval_def
      try_local_identity_def identity_load_def Let_def sample_sys_simps sample_job_def)

theorem packet_send_after_discovery_witness:
  "\<exists>report s'. packet_send discovery_env (Inr (Some [1], Some 5)) (bytes_hex (replicate 16 7)) ''app''
      [JStr ''echo''] ''QUI='' JNull 15 sample_sys = (Inr ((''ok'', JBool True) # report), s')"
proof -
  obtain out where "make_destination discovery_env sample_identity DirOut TSingle (pj_app_name sample_job)
      (pj_aspects sample_job) = Inr out"
    by (simp add: discovery_env_def sample_env_def)
  from packet_send_after_discovery [OF sample_job_prepared discovery_env_facts(1,5,2,3) _
      discovery_env_facts(4) this, of 15 "Some [1]" "Some 5"]
  show ?thesis by blast
qed

theorem receipt_tracked_until_reported_witness:
  "\<exists>res s'. packet_send discovery_env (Inr (Some [1], Some 5)) (bytes_hex (replicate 16 7)) ''app''
      [JStr ''echo''] ''QUI='' JNull 15 sample_sys = (Inr res, s') \<and>
    dict_get (pending_receipts (ses s')) (bytes_hex [1]) = Some (Some 5)"
proof -
  have path: "path_phase discovery_env (pj_dest sample_job) 15 = Some (True, 2)"
    by (simp add: path_phase_def poll_fuel_def discovery_env_def sample_env_def)
  have "\<exists>res s'. packet_send discovery_env (Inr (Some [1], Some 5)) (bytes_hex (replicate 16 7)) ''app''
      [JStr ''echo''] ''QUI='' JNull 15 sample_sys = (Inr res, s')"
    using discovery_env_facts(4,5)
    by (simp add: packet_send_def sample_job_prepared path resolve_target_def Let_def)
      (simp add: discovery_env_def sample_env_def Let_def)
  then obtain res s' where *: "packet_send discovery_env (Inr (Some [1], Some 5)) (bytes_hex (replicate 16 7)) ''app''
      [JStr ''echo''] ''QUI='' JNull 15 sample_sys = (Inr res, s')" by blast
  from receipt_tracked_until_reported [OF this, of "on_delivered ''sid'' [] (Some (bytes_hex [1])) None RsDelivered"
      "''sid''" "[]" None RsDelivered] * show ?thesis by auto
qed

end
