(* ===== verification/Links.thy ===== *)
theory Links
  imports Packets
begin

text \<open>
  \<open>rns/links.py\<close>: the link table of a session and the operations on it. Entries live in the
  store, because the establishment task and the callbacks wired on the RNS link keep a
  reference to theirs; the RNS links themselves are the environment's, which may change their
  status at any time. Operations that sleep are cut where they yield: \<open>resolve_destination\<close> up
  to the destination, \<open>create_link_entry\<close>, \<open>wait_finish\<close> after the polling loop, \<open>identify_entry\<close>,
  \<open>emit_established\<close>. \<open>open_link\<close> composes them for REST; \<open>Link_Open\<close> runs them as tasks.
  (A dash outside Latin-1 in one error message is written as a hyphen.)
\<close>

section \<open>Reason codes and snapshots\<close>

definition link_error_reason :: "string \<Rightarrow> string" where
  "link_error_reason err =
     (let msg = lower err in
      if contains ''no known identity'' msg then ''no_known_identity''
      else if contains ''link establishment timed out'' msg then ''link_establishment_timed_out''
      else if contains ''identify failed'' msg \<or> contains ''session has no active identity'' msg \<or>
              contains ''load session identity'' msg then ''identify_failed''
      else if contains ''invalid hash'' msg \<or> contains ''app_name'' msg \<or> contains ''aspects'' msg \<or>
              contains ''not both'' msg \<or> contains ''required'' msg then ''invalid_request''
      else ''internal'')"

fun link_status_str :: "link_status \<Rightarrow> string" where
  "link_status_str LPending = ''PENDING''"
| "link_status_str LHandshake = ''HANDSHAKE''"
| "link_status_str LActive = ''ACTIVE''"
| "link_status_str LStale = ''STALE''"
| "link_status_str LClosed = ''CLOSED''"
| "link_status_str LOther = ''UNKNOWN''"

fun teardown_reason_str :: "teardown_reason \<Rightarrow> string option" where
  "teardown_reason_str TrTimeout = Some ''timeout''"
| "teardown_reason_str TrInitiatorClosed = Some ''initiator_closed''"
| "teardown_reason_str TrDestinationClosed = Some ''destination_closed''"
| "teardown_reason_str TrOther = None"

definition link_snapshot :: "rns_link option \<Rightarrow> bytes \<Rightarrow> string \<Rightarrow> fields" where
  "link_snapshot link dest aspect =
     [(''link_id'', jhex dest), (''destination_hash'', jhex dest), (''aspect'', JStr aspect)] @
     (case link of
        None \<Rightarrow>
          [(''status'', JStr ''PENDING''), (''mtu'', JNull), (''mdu'', JNull),
           (''remote_identity_hash'', JNull), (''teardown_reason'', JNull)]
      | Some l \<Rightarrow>
          [(''status'', JStr (link_status_str (rl_status l))), (''mtu'', rl_mtu l), (''mdu'', rl_mdu l),
           (''remote_identity_hash'', jopt (rl_remote l)),
           (''teardown_reason'', jopt (teardown_reason_str (rl_teardown_reason l)))])"

definition entry_snapshot :: "'a shared_scheme \<Rightarrow> link_entry \<Rightarrow> fields" where
  "entry_snapshot s e =
     link_snapshot (map_option (rlinks s) (le_link e)) (le_destination_hash e) (le_aspect e)"

section \<open>The link table\<close>

definition link_entry_of :: "session \<Rightarrow> string \<Rightarrow> exn + eref" where
  "link_entry_of x link_id =
     (case fromhex (lower link_id) of
        None \<Rightarrow> Inl (LinkError (''invalid link id: '' @ py_repr link_id))
      | Some hb \<Rightarrow>
          (case dict_get (open_links x) hb of
             None \<Rightarrow> Inl (LinkError (''unknown link: '' @ link_id))
           | Some e \<Rightarrow> Inr e))"

definition list_links :: "sys \<Rightarrow> json list" where
  "list_links s = map (\<lambda>e. JObj (entry_snapshot s (entries s e))) (dict_values (open_links (ses s)))"

definition get_status :: "string \<Rightarrow> sys \<Rightarrow> exn + fields" where
  "get_status link_id s =
     (case link_entry_of (ses s) link_id of Inl e \<Rightarrow> Inl e | Inr e \<Rightarrow> Inr (entry_snapshot s (entries s e)))"

definition set_open_link :: "bytes \<Rightarrow> eref \<Rightarrow> sys \<Rightarrow> sys" where
  "set_open_link h e s = upd_ses (\<lambda>x. x\<lparr>open_links := dict_set h e (open_links x)\<rparr>) s"

definition pop_open_link :: "bytes \<Rightarrow> sys \<Rightarrow> sys" where
  "pop_open_link h s = upd_ses (\<lambda>x. x\<lparr>open_links := dict_pop h (open_links x)\<rparr>) s"

section \<open>Opening: validation\<close>

record prepared_open =
  pr_destination_hash :: bytes
  pr_input_hash :: bytes
  pr_aspect :: string
  pr_app_name :: string
  pr_sub_aspects :: "string list"

definition attribute_error :: exn where
  "attribute_error = PyExn ''AttributeError'' ''object has no attribute lower''"

definition prepare_open_link ::
  "rns_env \<Rightarrow> json \<Rightarrow> json \<Rightarrow> json \<Rightarrow> json \<Rightarrow> exn + prepared_open" where
  "prepare_open_link E identity_hash destination_hash0 app_name aspects =
     (let target = (if identity_hash \<noteq> JNull then identity_hash else destination_hash0) in
      if identity_hash \<noteq> JNull \<and> destination_hash0 \<noteq> JNull
        then Inl (LinkError ''provide identity_hash or destination_hash, not both'')
      else if target = JNull then Inl (LinkError ''identity_hash or destination_hash is required'')
      else (case as_str target of
        None \<Rightarrow> Inl attribute_error
      | Some t \<Rightarrow>
         (let h = lower t in
          if \<not> hex_hash_match h then Inl (LinkError (''invalid hash: '' @ py_repr t))
          else (case as_str app_name of
            None \<Rightarrow> Inl (LinkError ''app_name must match [a-zA-Z0-9_]+'')
          | Some app \<Rightarrow>
              if \<not> aspect_match app then Inl (LinkError ''app_name must match [a-zA-Z0-9_]+'')
              else (case as_list aspects of
                None \<Rightarrow> Inl (LinkError ''aspects must be a list of [a-zA-Z0-9_]+ strings'')
              | Some vs \<Rightarrow>
                 (case aspects_all_match vs of
                    Inl e \<Rightarrow> Inl e
                  | Inr False \<Rightarrow> Inl (LinkError ''aspects must be a list of [a-zA-Z0-9_]+ strings'')
                  | Inr True \<Rightarrow>
                     (case fromhex h of
                        None \<Rightarrow> Inl fromhex_error
                      | Some input \<Rightarrow>
                          Inr \<lparr>pr_destination_hash =
                                 (if destination_hash0 \<noteq> JNull then input
                                  else destination_hash E input app (str_items vs)),
                               pr_input_hash = input,
                               pr_aspect = join ''.'' (app # str_items vs),
                               pr_app_name = app, pr_sub_aspects = str_items vs\<rparr>)))))))"

definition reuse_active_link :: "sys \<Rightarrow> bytes \<Rightarrow> eref option" where
  "reuse_active_link s dest =
     (case dict_get (open_links (ses s)) dest of
        None \<Rightarrow> None
      | Some e \<Rightarrow>
          (case le_link (entries s e) of
             None \<Rightarrow> None
           | Some l \<Rightarrow> if rl_status (rlinks s l) = LActive then Some e else None))"

section \<open>Opening: the pieces\<close>

definition new_entry :: "prepared_open \<Rightarrow> lref option \<Rightarrow> json \<Rightarrow> bool \<Rightarrow> link_entry" where
  "new_entry p link client_id suppress =
     \<lparr>le_link = link, le_destination_hash = pr_destination_hash p, le_aspect = pr_aspect p,
      le_app_name = pr_app_name p, le_sub_aspects = pr_sub_aspects p, le_identified = False,
      le_open_client_id = client_id, le_suppress = suppress\<rparr>"

text \<open>A placeholder without a link, so that \<open>link.list\<close> is truthful as soon as the ack is out.\<close>

definition reserve_link_slot :: "prepared_open \<Rightarrow> json \<Rightarrow> sys \<Rightarrow> eref \<times> sys" where
  "reserve_link_slot p client_id s =
     (let e = next_ref s;
          s1 = s\<lparr>entries := (entries s)(e := new_entry p None client_id False), next_ref := Suc e\<rparr>
      in (e, set_open_link (pr_destination_hash p) e s1))"

text \<open>
  \<open>ResourcesService.attach_link\<close>: the accept policy of the link, or the configured default, and
  the resource callbacks. Each RNS call sits in its own \<open>try\<close>.
\<close>

definition attach_link :: "bool \<Rightarrow> lref \<Rightarrow> bytes \<Rightarrow> sys \<Rightarrow> sys" where
  "attach_link auto_accept l dest s =
     (let accept = (case dict_get (link_resource_policy (ses s)) dest of None \<Rightarrow> auto_accept | Some a \<Rightarrow> a)
      in emit (Rns (WireResources l)) (emit (Rns (SetStrategy l accept)) s))"

text \<open>
  \<open>_wire_callbacks\<close> registers the four callbacks below for this entry, then attaches the
  resource service (\<open>rsvc\<close> is its default accept flag; \<open>None\<close> when it was never set).
\<close>

definition wire_callbacks :: "bool option \<Rightarrow> eref \<Rightarrow> lref \<Rightarrow> sys \<Rightarrow> sys" where
  "wire_callbacks rsvc e l s =
     (let s1 = emit (Rns (WireLink l e)) s in
      case rsvc of None \<Rightarrow> s1 | Some auto \<Rightarrow> attach_link auto l (le_destination_hash (entries s e)) s1)"

text \<open>
  \<open>_create_link_entry\<close>. \<open>fresh\<close> is the state in which \<open>RNS.Link(destination)\<close> hands the new link
  out. With a reserved entry its link and flag are set in place; the client id is then the one
  the placeholder was reserved with.
\<close>

definition create_link_entry ::
  "bool option \<Rightarrow> rns_link \<Rightarrow> prepared_open \<Rightarrow> json \<Rightarrow> eref option \<Rightarrow> bool \<Rightarrow> sys \<Rightarrow> eref \<times> sys" where
  "create_link_entry rsvc fresh p client_id reserved suppress s =
     (let l = next_ref s;
          s1 = emit (Rns (NewLink l (pr_destination_hash p)))
                 (s\<lparr>rlinks := (rlinks s)(l := fresh), next_ref := Suc l\<rparr>);
          (e, s2) =
            (case reserved of
               Some e \<Rightarrow> (e, upd_entry e (\<lambda>en. en\<lparr>le_link := Some l, le_suppress := suppress\<rparr>) s1)
             | None \<Rightarrow>
                 (Suc l, s1\<lparr>entries := (entries s1)(Suc l := new_entry p (Some l) client_id suppress),
                             next_ref := Suc (Suc l)\<rparr>))
      in (e, wire_callbacks rsvc e l (set_open_link (pr_destination_hash p) e s2)))"

text \<open>The \<open>link.established\<close> event for an entry, in the words both emitters share.\<close>

definition established_event :: "string \<Rightarrow> json \<Rightarrow> fields \<Rightarrow> json" where
  "established_event session_id client_id snapshot =
     JObj ([(''type'', JStr ''link.established''), (''session_id'', JStr session_id), (''id'', client_id)] @ snapshot)"

definition emit_established :: "eref \<Rightarrow> sys \<Rightarrow> sys" where
  "emit_established e s =
     (let en = entries s e in
      if le_link en = None then s
      else emit (HubSession (s_id (ses s))
                  (established_event (s_id (ses s)) (le_open_client_id en) (entry_snapshot s en)))
             (upd_entry e (\<lambda>en. en\<lparr>le_open_client_id := JNull, le_suppress := False\<rparr>) s))"

text \<open>
  \<open>_wait_for_active\<close>. \<open>wait_finish\<close> is what follows its loop: the link is active, or it is
  torn down and its destination's slot is emptied. The loop polls while other requests and RNS
  threads change the state: \<open>wait_state I i s\<close> is the state the \<open>i\<close>-th probe sees, \<open>wait_clock\<close>
  the clock read before the loop and with each probe. \<open>during_path\<close> is what happens while the
  path lookup sleeps.
\<close>

record interleaving =
  during_path :: "sys \<Rightarrow> sys"
  wait_state :: "nat \<Rightarrow> sys \<Rightarrow> sys"
  wait_clock :: "nat \<Rightarrow> rat"

definition entry_status :: "'a shared_scheme \<Rightarrow> eref \<Rightarrow> link_status option" where
  "entry_status s e = map_option (\<lambda>l. rl_status (rlinks s l)) (le_link (entries s e))"

definition wait_finish :: "eref \<Rightarrow> sys \<Rightarrow> (exn + unit) \<times> sys" where
  "wait_finish e s =
     (let en = entries s e in
      case le_link en of
        None \<Rightarrow> (Inl (LinkError ''link establishment timed out''), pop_open_link (le_destination_hash en) s)
      | Some l \<Rightarrow>
          if rl_status (rlinks s l) = LActive then (Inr (), s)
          else (Inl (LinkError ''link establishment timed out''),
                pop_open_link (le_destination_hash en) (emit (Rns (TeardownLink l)) s)))"

definition wait_for_active :: "interleaving \<Rightarrow> rat \<Rightarrow> eref \<Rightarrow> sys \<Rightarrow> (exn + unit) \<times> sys" where
  "wait_for_active I timeout e s =
     (case poll_until (poll_fuel timeout)
             (\<lambda>i. entry_status (wait_state I i s) e \<in> {Some LActive, Some LClosed})
             (\<lambda>i. wait_clock I (Suc i)) (wait_clock I 0 + timeout) 0 of
        None \<Rightarrow> (Inl Diverges, s)
      | Some k \<Rightarrow> wait_finish e (wait_state I k s))"

text \<open>
  \<open>_identify\<close>: the session's identity, else the daemon's default one (\<open>fresh\<close> if it has to be
  made). \<open>refused\<close> is the message of the exception \<open>Link.identify\<close> raises, if it does.
\<close>

definition identify_entry ::
  "rns_env \<Rightarrow> rns_identity \<Rightarrow> string option \<Rightarrow> eref \<Rightarrow> sys \<Rightarrow> (exn + fields) \<times> sys" where
  "identify_entry E fresh refused e s =
     (case le_link (entries s e) of
        None \<Rightarrow> (Inl (LinkError ''link is not yet established''), s)
      | Some l \<Rightarrow>
         (let (r, s1) =
            (case active_identity_hash (ses s) of
               Some ah \<Rightarrow>
                 (case identity_load E s (bytes_hex ah) of
                    Inl x \<Rightarrow> (Inl (LinkError (''could not load session identity: '' @ exn_str x)), s)
                  | Inr i \<Rightarrow> (Inr i, s))
             | None \<Rightarrow>
                 (case default_identity E fresh s of
                    (Inl x, s') \<Rightarrow> (Inl (LinkError (''could not load default identity: '' @ exn_str x)), s')
                  | (Inr i, s') \<Rightarrow> (Inr i, s')))
          in case r of
               Inl x \<Rightarrow> (Inl x, s1)
             | Inr i \<Rightarrow>
                 (let s2 = emit (Rns (IdentifyLink l (id_hash i))) s1 in
                  case refused of
                    Some m \<Rightarrow> (Inl (LinkError (''identify failed: '' @ m)), s2)
                  | None \<Rightarrow>
                      (Inr [(''ok'', JBool True), (''link_id'', jhex (le_destination_hash (entries s e))),
                            (''identified'', JBool True), (''identity_hash'', JStr (id_hexhash i))],
                       upd_entry e (\<lambda>en. en\<lparr>le_identified := True\<rparr>) s2))))"

text \<open>
  \<open>_resolve_and_construct_destination\<close> after its path lookup made \<open>probes\<close> probes; \<open>local\<close> is
  what \<open>_try_local_identity\<close> gave before it.
\<close>

definition resolve_destination ::
  "rns_env \<Rightarrow> rns_identity option \<Rightarrow> nat \<Rightarrow> prepared_open \<Rightarrow> exn + rns_destination" where
  "resolve_destination E local probes p =
     (case (case local of Some i \<Rightarrow> Some i | None \<Rightarrow> recall_at E probes (pr_destination_hash p)) of
        None \<Rightarrow> Inl (LinkError ''no known identity for hash - issue an announce or path request first'')
      | Some i \<Rightarrow> make_destination E i DirOut TSingle (pr_app_name p) (pr_sub_aspects p))"

section \<open>Callbacks\<close>

definition on_established :: "eref \<Rightarrow> sys \<Rightarrow> sys" where
  "on_established e s =
     (let en = entries s e in
      if le_suppress en then s
      else emit (BridgeSession (s_id (ses s))
                  (established_event (s_id (ses s)) (le_open_client_id en) (entry_snapshot s en)))
             (upd_entry e (\<lambda>en. en\<lparr>le_open_client_id := JNull\<rparr>) s))"

definition on_closed :: "eref \<Rightarrow> sys \<Rightarrow> sys" where
  "on_closed e s =
     (let en = entries s e;
          s1 = emit (BridgeSession (s_id (ses s))
                 (JObj ([(''type'', JStr ''link.closed''), (''session_id'', JStr (s_id (ses s)))] @ entry_snapshot s en))) s
      in if dict_get (open_links (ses s)) (le_destination_hash en) = Some e
         then pop_open_link (le_destination_hash en) s1 else s1)"

definition on_link_packet :: "eref \<Rightarrow> bytes \<Rightarrow> sys \<Rightarrow> sys" where
  "on_link_packet e data s =
     (let en = entries s e in
      emit (BridgeSession (s_id (ses s)) (JObj
        [(''type'', JStr ''link.data.received''), (''session_id'', JStr (s_id (ses s))),
         (''link_id'', jhex (le_destination_hash en)), (''destination_hash'', jhex (le_destination_hash en)),
         (''aspect'', JStr (le_aspect en)), (''data_b64'', jopt (b64_or_none (Some data))),
         (''size'', jnat (length data))])) s)"

definition on_remote_identified :: "eref \<Rightarrow> rns_identity option \<Rightarrow> sys \<Rightarrow> sys" where
  "on_remote_identified e ident s =
     (let en = entries s e in
      emit (BridgeSession (s_id (ses s)) (JObj
        [(''type'', JStr ''link.remote_identified''), (''session_id'', JStr (s_id (ses s))),
         (''link_id'', jhex (le_destination_hash en)), (''destination_hash'', jhex (le_destination_hash en)),
         (''aspect'', JStr (le_aspect en)),
         (''remote_identity_hash'', jopt (map_option id_hexhash ident))])) s)"

section \<open>Opening over REST\<close>

record open_params =
  op_auto_identify :: bool
  op_await_established :: bool
  op_establishment_timeout :: rat
  op_path_lookup_timeout :: rat
  op_client_id :: json

text \<open>\<open>open_link\<close> on a cached active link, and once the destination is constructed.\<close>

definition open_link_reused ::
  "rns_env \<Rightarrow> rns_identity \<Rightarrow> string option \<Rightarrow> open_params \<Rightarrow> prepared_open \<Rightarrow> eref \<Rightarrow> sys \<Rightarrow>
   (exn + fields) \<times> sys" where
  "open_link_reused E fresh refused P p e s =
     (let s1 = upd_entry e (\<lambda>en. en\<lparr>le_open_client_id := op_client_id P\<rparr>) s;
          (r, s2) = (if op_auto_identify P \<and> \<not> le_identified (entries s1 e)
                     then identify_entry E fresh refused e s1 else (Inr [], s1))
      in case r of
           Inl x \<Rightarrow> (Inl x, s2)
         | Inr _ \<Rightarrow>
             (Inr ((''reused'', JBool True) #
                   link_snapshot (map_option (rlinks s2) (le_link (entries s2 e))) (pr_destination_hash p) (pr_aspect p)),
              s2))"

definition open_link_construct ::
  "rns_env \<Rightarrow> rns_identity \<Rightarrow> string option \<Rightarrow> bool option \<Rightarrow> rns_link \<Rightarrow> interleaving \<Rightarrow> open_params \<Rightarrow>
   prepared_open \<Rightarrow> sys \<Rightarrow> (exn + fields) \<times> sys" where
  "open_link_construct E fresh refused rsvc fresh_link I P p s =
     (let (e, s1) = create_link_entry rsvc fresh_link p (op_client_id P) None
                      (op_auto_identify P \<and> op_await_established P) s
      in if \<not> op_await_established P
         then (Inr ([(''reused'', JBool False), (''awaited'', JBool False)] @ entry_snapshot s1 (entries s1 e)), s1)
         else
          (case wait_for_active I (op_establishment_timeout P) e s1 of
             (Inl x, s2) \<Rightarrow> (Inl x, s2)
           | (Inr _, s2) \<Rightarrow>
              (if \<not> op_auto_identify P
               then (Inr ([(''reused'', JBool False), (''awaited'', JBool True)] @ entry_snapshot s2 (entries s2 e)), s2)
               else
                (case identify_entry E fresh refused e s2 of
                   (Inl x, s3) \<Rightarrow> (Inl x, s3)
                 | (Inr _, s3) \<Rightarrow>
                    (let s4 = emit_established e s3 in
                     (Inr ([(''reused'', JBool False), (''awaited'', JBool True)] @ entry_snapshot s4 (entries s4 e)),
                      s4))))))"

definition open_link ::
  "rns_env \<Rightarrow> rns_identity \<Rightarrow> string option \<Rightarrow> bool option \<Rightarrow> rns_link \<Rightarrow> interleaving \<Rightarrow>
   json \<Rightarrow> json \<Rightarrow> json \<Rightarrow> json \<Rightarrow> open_params \<Rightarrow> sys \<Rightarrow> (exn + fields) \<times> sys" where
  "open_link E fresh refused rsvc fresh_link I identity_hash destination_hash0 app_name aspects P s =
     (case prepare_open_link E identity_hash destination_hash0 app_name aspects of
        Inl x \<Rightarrow> (Inl x, s)
      | Inr p \<Rightarrow>
         (case reuse_active_link s (pr_destination_hash p) of
            Some e \<Rightarrow> open_link_reused E fresh refused P p e s
          | None \<Rightarrow>
             (case path_phase E (pr_destination_hash p) (op_path_lookup_timeout P) of
                None \<Rightarrow> (Inl Diverges, emit (Rns (RequestPath (pr_destination_hash p))) s)
              | Some (requested, probes) \<Rightarrow>
                 (let s1 = (if requested then during_path I (emit (Rns (RequestPath (pr_destination_hash p))) s) else s)
                  in case resolve_destination E (try_local_identity E s (pr_input_hash p)) probes p of
                       Inl x \<Rightarrow> (Inl x, s1)
                     | Inr d \<Rightarrow>
                         open_link_construct E fresh refused rsvc fresh_link I P p (emit (Rns (OutDestination d)) s1)))))"

section \<open>Identify, close, send\<close>

definition link_identify ::
  "rns_env \<Rightarrow> rns_identity \<Rightarrow> string option \<Rightarrow> string \<Rightarrow> sys \<Rightarrow> (exn + fields) \<times> sys" where
  "link_identify E fresh refused link_id s =
     (case link_entry_of (ses s) link_id of
        Inl x \<Rightarrow> (Inl x, s) | Inr e \<Rightarrow> identify_entry E fresh refused e s)"

definition link_close :: "string \<Rightarrow> sys \<Rightarrow> (exn + fields) \<times> sys" where
  "link_close link_id s =
     (case link_entry_of (ses s) link_id of
        Inl x \<Rightarrow> (Inl x, s)
      | Inr e \<Rightarrow>
          (Inr [(''ok'', JBool True), (''link_id'', JStr link_id)],
           pop_open_link (le_destination_hash (entries s e))
             (case le_link (entries s e) of None \<Rightarrow> s | Some l \<Rightarrow> emit (Rns (TeardownLink l)) s)))"

text \<open>\<open>send_data\<close>; \<open>refused\<close>: \<open>RNS.Packet(...).send()\<close> raised.\<close>

definition link_send_data :: "string option \<Rightarrow> string \<Rightarrow> string \<Rightarrow> sys \<Rightarrow> (exn + fields) \<times> sys" where
  "link_send_data refused link_id data_b64 s =
     (case link_entry_of (ses s) link_id of
        Inl x \<Rightarrow> (Inl x, s)
      | Inr e \<Rightarrow>
         (let en = entries s e in
          case le_link en of
            None \<Rightarrow> (Inl (LinkError ''link is not yet established''), s)
          | Some l \<Rightarrow>
             (case b64decode data_b64 of
                Inl m \<Rightarrow> (Inl (LinkError (''data_b64 is not valid base64: '' @ m)), s)
              | Inr data \<Rightarrow>
                 (let s1 = emit (Rns (SendLinkPacket l data)) s in
                  case refused of
                    Some m \<Rightarrow> (Inl (LinkError (''link send failed: '' @ m)), s1)
                  | None \<Rightarrow>
                      (Inr [(''ok'', JBool True), (''link_id'', JStr link_id), (''size'', jnat (length data))],
                       emit (HubSession (s_id (ses s)) (JObj
                         [(''type'', JStr ''link.data.sent''), (''session_id'', JStr (s_id (ses s))),
                          (''link_id'', jhex (le_destination_hash en)),
                          (''destination_hash'', jhex (le_destination_hash en)),
                          (''aspect'', JStr (le_aspect en)), (''size'', jnat (length data))])) s1)))))"

section \<open>Cleanup\<close>

definition link_cleanup :: "sys \<Rightarrow> sys" where
  "link_cleanup s =
     upd_ses (\<lambda>x. x\<lparr>open_links := []\<rparr>)
       (fold (\<lambda>l s. emit (Rns (TeardownLink l)) s)
         (concat (map (\<lambda>e. case le_link (entries s e) of None \<Rightarrow> [] | Some l \<Rightarrow> [l])
                   (dict_values (open_links (ses s))))) s)"

section \<open>Lemmas\<close>

lemma set_open_link_frame [simp, frame_simps]:
  "entries (set_open_link h e s) = entries s" "rlinks (set_open_link h e s) = rlinks s"
  "transfers (set_open_link h e s) = transfers s" "trace (set_open_link h e s) = trace s"
  "next_ref (set_open_link h e s) = next_ref s" "id_files (set_open_link h e s) = id_files s"
  "ses (set_open_link h e s) = (ses s)\<lparr>open_links := dict_set h e (open_links (ses s))\<rparr>"
  by (simp_all add: set_open_link_def)

lemma pop_open_link_frame [simp, frame_simps]:
  "entries (pop_open_link h s) = entries s" "rlinks (pop_open_link h s) = rlinks s"
  "transfers (pop_open_link h s) = transfers s" "trace (pop_open_link h s) = trace s"
  "next_ref (pop_open_link h s) = next_ref s" "id_files (pop_open_link h s) = id_files s"
  "ses (pop_open_link h s) = (ses s)\<lparr>open_links := dict_pop h (open_links (ses s))\<rparr>"
  by (simp_all add: pop_open_link_def)

lemma attach_link_frame [simp, frame_simps]:
  "entries (attach_link a l h s) = entries s" "rlinks (attach_link a l h s) = rlinks s"
  "transfers (attach_link a l h s) = transfers s" "next_ref (attach_link a l h s) = next_ref s"
  "ses (attach_link a l h s) = ses s"
  by (simp_all add: attach_link_def Let_def)

lemma wire_callbacks_frame [simp, frame_simps]:
  "entries (wire_callbacks r e l s) = entries s" "rlinks (wire_callbacks r e l s) = rlinks s"
  "transfers (wire_callbacks r e l s) = transfers s" "next_ref (wire_callbacks r e l s) = next_ref s"
  "ses (wire_callbacks r e l s) = ses s"
  by (simp_all add: wire_callbacks_def Let_def split: option.split)

lemma wire_callbacks_trace:
  "\<exists>es. trace (wire_callbacks r e l s) = trace s @ Rns (WireLink l e) # es \<and>
     set es \<subseteq> {Rns (SetStrategy l True), Rns (SetStrategy l False), Rns (WireResources l)}"
  by (cases r) (auto simp: wire_callbacks_def attach_link_def Let_def)

lemma default_identity_frame:
  assumes "default_identity E fresh s = (r, s')"
  shows "entries s' = entries s" "rlinks s' = rlinks s" "transfers s' = transfers s"
    "next_ref s' = next_ref s" "res_files s' = res_files s"
    "\<exists>es. trace s' = trace s @ es \<and> (\<forall>x \<in> set es. \<exists>f b. x = WriteFile f b)"
  using assms by (auto simp: default_identity_def Let_def split: option.splits sum.splits)

lemma default_identity_ses:
  "default_identity E fresh (s :: sys) = (r, s') \<Longrightarrow> ses s' = ses s"
  by (auto simp: default_identity_def Let_def split: option.splits sum.splits)

lemma identify_entry_frame:
  assumes "identify_entry E fresh refused e s = (r, s')"
  shows "rlinks s' = rlinks s" "transfers s' = transfers s" "next_ref s' = next_ref s" "ses s' = ses s"
    "entries s' = (if is_error r then entries s else (entries s)(e := (entries s e)\<lparr>le_identified := True\<rparr>))"
  using assms
  by (auto simp: identify_entry_def Let_def split: option.splits sum.splits prod.splits
      dest: default_identity_frame default_identity_ses)

text \<open>What an identification adds to the trace: possibly a new default identity file, then the call.\<close>

lemma identify_entry_trace:
  assumes "identify_entry E fresh refused e s = (r, s')"
  shows "\<exists>ws ids. trace s' = trace s @ ws @ ids \<and> (\<forall>x \<in> set ws. \<exists>f b. x = WriteFile f b) \<and>
    (\<forall>l. le_link (entries s e) = Some l \<longrightarrow> ids = [] \<or> (\<exists>h. ids = [Rns (IdentifyLink l h)])) \<and>
    (le_link (entries s e) = None \<longrightarrow> ids = []) \<and> (\<not> is_error r \<longrightarrow> ids \<noteq> [])"
proof (cases "le_link (entries s e)")
  case None
  with assms have "s' = s" "is_error r" by (auto simp: identify_entry_def)
  with None show ?thesis by auto
next
  case l: (Some l)
  show ?thesis
  proof (cases "active_identity_hash (ses s)")
    case (Some ah)
    with assms l show ?thesis
      by (cases "identity_load E s (bytes_hex ah)"; cases refused)
        (auto simp: identify_entry_def Let_def intro: exI [of _ "[]"])
  next
    case None
    obtain d s1 where d: "default_identity E fresh s = (d, s1)" by (cases "default_identity E fresh s")
    obtain ws where ws: "trace s1 = trace s @ ws" "\<forall>x \<in> set ws. \<exists>f b. x = WriteFile f b"
      using default_identity_frame(6) [OF d] by blast
    show ?thesis
    proof (cases d)
      case (Inl x)
      with assms l None d have "s' = s1" "is_error r"
        by (auto simp: identify_entry_def)
      with ws show ?thesis by (intro exI [of _ ws] exI [of _ "[]"]) simp
    next
      case (Inr i)
      with assms l None d have "trace s' = trace s1 @ [Rns (IdentifyLink l (id_hash i))]"
        by (cases refused) (auto simp: identify_entry_def Let_def)
      with ws(1) ws(2) l show ?thesis by (intro exI [of _ ws] exI [of _ "[Rns (IdentifyLink l (id_hash i))]"]) simp
    qed
  qed
qed

section \<open>The link table\<close>

text \<open>Entries sit under their own destination hash, each hash has one, and all are in the store.\<close>

definition links_ok :: "'a shared_scheme \<Rightarrow> session \<Rightarrow> bool" where
  "links_ok s x \<longleftrightarrow>
     dict_ok (open_links x) \<and>
     (\<forall>(h, e) \<in> set (open_links x). le_destination_hash (entries s e) = h \<and> e < next_ref s)"

lemma links_okD:
  "links_ok s x \<Longrightarrow> dict_get (open_links x) h = Some e \<Longrightarrow> le_destination_hash (entries s e) = h \<and> e < next_ref s"
  by (auto simp: links_ok_def dest!: dict_get_in_items)

lemma links_ok_pop: "links_ok s x \<Longrightarrow> links_ok s (x\<lparr>open_links := dict_pop h (open_links x)\<rparr>)"
  by (auto simp: links_ok_def dict_pop_items)

lemma links_ok_set:
  "links_ok s x \<Longrightarrow> le_destination_hash (entries s e) = h \<Longrightarrow> e < next_ref s \<Longrightarrow>
   links_ok s (x\<lparr>open_links := dict_set h e (open_links x)\<rparr>)"
  using dict_set_items [of h e "open_links x"] by (fastforce simp: links_ok_def)

text \<open>The table stays well formed while entries keep their hash and references are only added.\<close>

lemma links_ok_mono:
  assumes "links_ok s x" and "next_ref s \<le> next_ref s'" and "open_links x' = open_links x"
    and "\<forall>e < next_ref s. le_destination_hash (entries s' e) = le_destination_hash (entries s e)"
  shows "links_ok s' x'"
  using assms by (fastforce simp: links_ok_def)

lemma link_entry_of_InrD:
  "link_entry_of x i = Inr e \<Longrightarrow> \<exists>h. fromhex (lower i) = Some h \<and> dict_get (open_links x) h = Some e"
  by (auto simp: link_entry_of_def split: option.splits)

text \<open>Closing a link tears it down when it was ever constructed, and from then on the session
  does not know it: every operation that names it answers \<open>unknown link\<close>. No other link of the
  session is affected.\<close>

theorem link_close_forgets:
  assumes "links_ok s (ses s)" and "link_close link_id s = (Inr ok, s')"
  shows "get_status link_id s' = Inl (LinkError (''unknown link: '' @ link_id)) \<and>
    fst (link_send_data refused link_id data s') = Inl (LinkError (''unknown link: '' @ link_id)) \<and>
    (\<exists>e h. link_entry_of (ses s) link_id = Inr e \<and> fromhex (lower link_id) = Some h \<and>
       (\<forall>l. le_link (entries s e) = Some l \<longrightarrow> trace s' = trace s @ [Rns (TeardownLink l)]) \<and>
       (\<forall>h'. h' \<noteq> h \<longrightarrow> dict_get (open_links (ses s')) h' = dict_get (open_links (ses s)) h'))"
proof -
  obtain e where e: "link_entry_of (ses s) link_id = Inr e"
    using assms(2) by (auto simp: link_close_def split: sum.splits)
  then obtain h where h: "fromhex (lower link_id) = Some h" "dict_get (open_links (ses s)) h = Some e"
    by (auto dest: link_entry_of_InrD)
  with assms(1) have "le_destination_hash (entries s e) = h" by (auto dest: links_okD)
  with e assms(2) have s': "s' = pop_open_link h
      (case le_link (entries s e) of None \<Rightarrow> s | Some l \<Rightarrow> emit (Rns (TeardownLink l)) s)"
    by (simp add: link_close_def)
  then have "open_links (ses s') = dict_pop h (open_links (ses s))"
    by (cases "le_link (entries s e)") auto
  with e h s' show ?thesis
    by (auto simp: get_status_def link_send_data_def link_entry_of_def)
qed

text \<open>C12. Waiting for a link to come up always ends, no later than the timeout, and in one of two
  ways: the link is active and nothing was changed, or the call fails, the link has been torn
  down and its slot in the session's table is empty.\<close>

theorem wait_for_active_outcome:
  assumes "clock_advances (\<lambda>i. wait_clock I (Suc i))" and "wait_clock I 0 \<le> wait_clock I 1"
    and "\<forall>i. le_link (entries (wait_state I i s) e) = Some l \<and>
             le_destination_hash (entries (wait_state I i s) e) = h"
  shows "\<exists>k r s'. wait_for_active I timeout e s = (r, s') \<and>
    (\<forall>j < k. wait_clock I (Suc j) < wait_clock I 0 + timeout) \<and>
    (r = Inr () \<and> s' = wait_state I k s \<and> rl_status (rlinks s' l) = LActive \<or>
     r = Inl (LinkError ''link establishment timed out'') \<and>
     Rns (TeardownLink l) \<in> set (trace s') \<and> dict_get (open_links (ses s')) h = None \<and>
     rl_status (rlinks s' l) \<noteq> LActive)"
proof -
  let ?stop = "\<lambda>i. entry_status (wait_state I i s) e \<in> {Some LActive, Some LClosed}"
  let ?clk = "\<lambda>i. wait_clock I (Suc i)"
  obtain k where k: "poll_until (poll_fuel timeout) ?stop ?clk (wait_clock I 0 + timeout) 0 = Some k"
    using poll_until_returns [OF assms(1)] assms(2) by fastforce
  then have "\<forall>j < k. wait_clock I (Suc j) < wait_clock I 0 + timeout"
    using poll_until_SomeD(3) by blast
  moreover have "le_link (entries (wait_state I k s) e) = Some l"
    "le_destination_hash (entries (wait_state I k s) e) = h"
    using assms(3) by simp_all
  ultimately show ?thesis
    using k by (cases "rl_status (rlinks (wait_state I k s) l) = LActive")
      (auto simp: wait_for_active_def wait_finish_def Let_def)
qed

section \<open>Opening\<close>

lemma identify_entry_InrD:
  assumes "identify_entry E fresh refused e s = (Inr f, s')"
  shows "\<exists>l h ws. le_link (entries s e) = Some l \<and>
    trace s' = trace s @ ws @ [Rns (IdentifyLink l h)] \<and> (\<forall>x \<in> set ws. \<exists>f b. x = WriteFile f b) \<and>
    entries s' = (entries s)(e := (entries s e)\<lparr>le_identified := True\<rparr>) \<and> ses s' = ses s \<and> rlinks s' = rlinks s"
proof -
  obtain l where l: "le_link (entries s e) = Some l"
    using assms by (auto simp: identify_entry_def split: option.splits)
  obtain ws ids where "trace s' = trace s @ ws @ ids" "\<forall>x \<in> set ws. \<exists>f b. x = WriteFile f b"
    "ids = [] \<or> (\<exists>h. ids = [Rns (IdentifyLink l h)])" "ids \<noteq> []"
    using identify_entry_trace [OF assms] l by auto
  with l identify_entry_frame [OF assms] show ?thesis by auto
qed

lemma wait_for_active_InrD:
  "wait_for_active I timeout e s = (Inr u, s') \<Longrightarrow>
   \<exists>l. le_link (entries s' e) = Some l \<and> rl_status (rlinks s' l) = LActive"
  by (auto simp: wait_for_active_def wait_finish_def Let_def split: option.splits if_splits)

lemma open_link_reused_props:
  assumes "open_link_reused E fresh refused P p e s = (r, s')"
  shows "open_links (ses s') = open_links (ses s)" "rlinks s' = rlinks s" "next_ref s' = next_ref s"
    "(\<exists>res. r = Inr res \<and> field ''reused'' res = JBool True) \<or> op_auto_identify P \<and> is_error r"
proof -
  let ?s1 = "upd_entry e (\<lambda>en. en\<lparr>le_open_client_id := op_client_id P\<rparr>) s"
  obtain r2 s2 where i: "(if op_auto_identify P \<and> \<not> le_identified (entries ?s1 e)
      then identify_entry E fresh refused e ?s1 else (Inr [], ?s1)) = (r2, s2)" by fastforce
  have s2: "ses s2 = ses s \<and> rlinks s2 = rlinks s \<and> next_ref s2 = next_ref s \<and> (is_error r2 \<longrightarrow> op_auto_identify P)"
  proof (cases "op_auto_identify P \<and> \<not> le_identified (entries ?s1 e)")
    case True
    with i have "identify_entry E fresh refused e ?s1 = (r2, s2)" by simp
    from identify_entry_frame [OF this] True show ?thesis by simp
  next
    case False
    with i have "s2 = ?s1" "r2 = Inr []" by (auto split: if_splits)
    then show ?thesis by simp
  qed
  show "open_links (ses s') = open_links (ses s)" "rlinks s' = rlinks s" "next_ref s' = next_ref s"
    "(\<exists>res. r = Inr res \<and> field ''reused'' res = JBool True) \<or> op_auto_identify P \<and> is_error r"
    using assms s2 unfolding open_link_reused_def Let_def i by (auto split: sum.splits)
qed

lemma open_link_construct_identifies:
  assumes "open_link_construct E fresh refused rsvc fl I P p s = (Inr res, s')"
    and "op_auto_identify P" and "op_await_established P"
  shows "\<exists>pre l h ev. trace s' = pre @ [Rns (IdentifyLink l h), HubSession (s_id (ses s')) ev] \<and>
    ev_type ev = Some ''link.established'' \<and> ev_field ''status'' ev = JStr ''ACTIVE''"
proof -
  obtain e s3 s4 u f s5 where w: "wait_for_active I (op_establishment_timeout P) e s3 = (Inr u, s4)"
    and i: "identify_entry E fresh refused e s4 = (Inr f, s5)" and s': "s' = emit_established e s5"
    using assms by (auto simp: open_link_construct_def Let_def split: sum.splits prod.splits)
  from identify_entry_InrD [OF i] obtain l h ws where l: "le_link (entries s4 e) = Some l"
    and tr: "trace s5 = (trace s4 @ ws) @ [Rns (IdentifyLink l h)]"
    and s5: "entries s5 = (entries s4)(e := (entries s4 e)\<lparr>le_identified := True\<rparr>)" "rlinks s5 = rlinks s4"
    by auto
  from wait_for_active_InrD [OF w] l have "rl_status (rlinks s4 l) = LActive" by simp
  with l tr s5 show ?thesis
    by (intro exI [of _ "trace s4 @ ws"] exI [of _ l] exI [of _ h])
      (simp add: s' emit_established_def Let_def established_event_def entry_snapshot_def link_snapshot_def)
qed


section \<open>Cleanup\<close>

definition constructed_links :: "sys \<Rightarrow> lref list" where
  "constructed_links s =
     concat (map (\<lambda>e. case le_link (entries s e) of None \<Rightarrow> [] | Some l \<Rightarrow> [l]) (dict_values (open_links (ses s))))"

lemma link_cleanup_frame [simp]:
  "ses (link_cleanup s) = (ses s)\<lparr>open_links := []\<rparr>"
  "trace (link_cleanup s) = trace s @ map (\<lambda>l. Rns (TeardownLink l)) (constructed_links s)"
  "transfers (link_cleanup s) = transfers s" "entries (link_cleanup s) = entries s"
  "rlinks (link_cleanup s) = rlinks s" "next_ref (link_cleanup s) = next_ref s"
  by (simp_all add: link_cleanup_def constructed_links_def)

lemma in_constructed_links:
  "l \<in> set (constructed_links s) \<longleftrightarrow> (\<exists>h e. (h, e) \<in> set (open_links (ses s)) \<and> le_link (entries s e) = Some l)"
  by (force simp: constructed_links_def dict_values_def split: option.splits)

lemma link_cleanup_tears_down:
  "dict_get (open_links (ses s)) h = Some e \<Longrightarrow> le_link (entries s e) = Some l \<Longrightarrow>
   Rns (TeardownLink l) \<in> set (trace (link_cleanup s))"
  by (auto simp: image_iff in_constructed_links dest!: dict_get_in_items)

interpretation link_hook: cleanup_hook link_cleanup "\<lambda>x. open_links x = []"
  by unfold_locales (auto simp: hook_ok_def shrinks_def same_person_def trace_ext_def)

section \<open>Witnesses\<close>

definition active_link :: rns_link where
  "active_link = \<lparr>rl_status = LActive, rl_mtu = JInt 500, rl_mdu = JInt 431, rl_teardown_reason = TrOther, rl_remote = None\<rparr>"

definition sample_entry :: link_entry where
  "sample_entry =
     \<lparr>le_link = Some 1, le_destination_hash = replicate 16 9, le_aspect = ''app.echo'', le_app_name = ''app'',
      le_sub_aspects = [''echo''], le_identified = False, le_open_client_id = JNull, le_suppress = False\<rparr>"

definition linked_sys :: sys where
  "linked_sys = upd_ses (\<lambda>x. x\<lparr>open_links := [(replicate 16 9, 0)]\<rparr>)
     (sample_sys\<lparr>entries := (entries sample_sys)(0 := sample_entry),
                rlinks := (rlinks sample_sys)(1 := active_link), next_ref := 2\<rparr>)"

definition quiet_waits :: interleaving where
  "quiet_waits = \<lparr>during_path = (\<lambda>s. s), wait_state = (\<lambda>i s. s\<lparr>rlinks := \<lambda>_. active_link\<rparr>), wait_clock = of_nat\<rparr>"

definition sample_params :: open_params where
  "sample_params = \<lparr>op_auto_identify = True, op_await_established = True, op_establishment_timeout = 15,
                   op_path_lookup_timeout = 15, op_client_id = JInt 7\<rparr>"

lemma linked_sys_simps:
  "open_links (ses linked_sys) = [(replicate 16 9, 0)]" "entries linked_sys 0 = sample_entry"
  "rlinks linked_sys 1 = active_link" "next_ref linked_sys = 2" "trace linked_sys = []"
  "default_id_file linked_sys = None" "active_identity_hash (ses linked_sys) = None"
  by (simp_all add: linked_sys_def sample_sys_simps new_session_def)

lemma linked_sys_ok: "links_ok linked_sys (ses linked_sys)"
  by (simp add: links_ok_def dict_ok_def linked_sys_simps sample_entry_def)

lemma linked_entry: "link_entry_of (ses linked_sys) (bytes_hex (replicate 16 9)) = Inr 0"
  by (simp add: link_entry_of_def linked_sys_simps dict_get_def)

theorem link_close_forgets_witness:
  "\<exists>ok s'. link_close (bytes_hex (replicate 16 9)) linked_sys = (Inr ok, s') \<and>
     get_status (bytes_hex (replicate 16 9)) s' = Inl (LinkError (''unknown link: '' @ bytes_hex (replicate 16 9)))"
proof -
  obtain ok s' where *: "link_close (bytes_hex (replicate 16 9)) linked_sys = (Inr ok, s')"
    by (simp add: link_close_def linked_entry)
  from link_close_forgets [OF linked_sys_ok this] * show ?thesis by blast
qed

theorem wait_for_active_outcome_witness:
  "\<exists>r s'. wait_for_active quiet_waits 15 0 linked_sys = (r, s')"
proof -
  have "clock_advances (\<lambda>i. wait_clock quiet_waits (Suc i))" "wait_clock quiet_waits 0 \<le> wait_clock quiet_waits 1"
    "\<forall>i. le_link (entries (wait_state quiet_waits i linked_sys) 0) = Some 1 \<and>
         le_destination_hash (entries (wait_state quiet_waits i linked_sys) 0) = replicate 16 9"
    by (simp_all add: clock_advances_def quiet_waits_def poll_interval_def linked_sys_simps sample_entry_def)
  from wait_for_active_outcome [OF this] show ?thesis by blast
qed

definition sample_prepared :: prepared_open where
  "sample_prepared = \<lparr>pr_destination_hash = replicate 16 9, pr_input_hash = replicate 16 7, pr_aspect = ''app.echo'',
                     pr_app_name = ''app'', pr_sub_aspects = [''echo'']\<rparr>"

lemma sample_prepared_ok:
  "prepare_open_link discovery_env (JStr (bytes_hex (replicate 16 7))) JNull (JStr ''app'') (JList [JStr ''echo'']) =
     Inr sample_prepared"
  by (simp add: prepare_open_link_def Let_def aspect_match_def drop_newline_def word_char_def code_def str_items_def
      sample_prepared_def discovery_env_def sample_env_def)

lemma sample_open_runs:
  "\<exists>res s'. open_link discovery_env sample_identity None None active_link quiet_waits
     (JStr (bytes_hex (replicate 16 7))) JNull (JStr ''app'') (JList [JStr ''echo'']) sample_params sample_sys =
       (Inr res, s') \<and> field ''reused'' res = JBool False"
proof -
  have path: "path_phase discovery_env (pr_destination_hash sample_prepared) 15 = Some (True, 2)"
    by (simp add: path_phase_def poll_fuel_def discovery_env_def sample_env_def)
  have reuse: "reuse_active_link sample_sys (pr_destination_hash sample_prepared) = None"
    by (simp add: reuse_active_link_def sample_sys_simps new_session_def)
  have loc: "try_local_identity discovery_env sample_sys (pr_input_hash sample_prepared) = None"
    by (simp add: try_local_identity_def identity_load_def Let_def sample_sys_simps sample_prepared_def)
  obtain d where d: "resolve_destination discovery_env None 2 sample_prepared = Inr d"
    by (simp add: resolve_destination_def discovery_env_def sample_env_def)
  have "\<exists>res s'. open_link_construct discovery_env sample_identity None None active_link quiet_waits sample_params
      sample_prepared (emit (Rns (OutDestination d)) (emit (Rns (RequestPath h)) sample_sys)) = (Inr res, s') \<and>
      field ''reused'' res = JBool False" for h
  proof -
    obtain e s1 where c: "create_link_entry None active_link sample_prepared (JInt 7) None True
        (emit (Rns (OutDestination d)) (emit (Rns (RequestPath h)) sample_sys)) = (e, s1)"
      by fastforce
    then have s1: "le_link (entries s1 e) = Some 0" "id_files s1 = []" "default_id_file s1 = None"
      "active_identity_hash (ses s1) = None" "rlinks s1 0 = active_link"
      by (auto simp: create_link_entry_def Let_def new_entry_def sample_sys_simps wire_callbacks_def
          set_open_link_def new_session_def)
    have "wait_for_active quiet_waits 15 e s1 = (Inr (), s1\<lparr>rlinks := \<lambda>_. active_link\<rparr>)"
      by (simp add: wait_for_active_def poll_fuel_def quiet_waits_def entry_status_def s1 active_link_def
          wait_finish_def Let_def)
    moreover have "\<exists>f s3. identify_entry discovery_env sample_identity None e (s1\<lparr>rlinks := \<lambda>_. active_link\<rparr>) = (Inr f, s3)"
      by (simp add: identify_entry_def s1 default_identity_def Let_def)
    ultimately show ?thesis
      by (auto simp: open_link_construct_def sample_params_def c Let_def)
  qed
  then show ?thesis
    by (simp add: open_link_def sample_prepared_ok reuse path loc d Let_def sample_params_def quiet_waits_def)
qed


end
