(* ===== verification/Link_Requests.thy ===== *)
theory Link_Requests
  imports Links
begin

text \<open>
  \<open>LinksService.request\<close> of \<open>rns/links.py\<close>: the checks and the dispatch, and then the life of
  one request as a machine whose events are RNS's two callbacks, the loop running a scheduled
  \<open>set_result\<close>, and the deadline of the watchdog (or of the awaiting REST call). The vendored
  \<open>umsgpack\<close> is not under \<open>src/\<close>: \<open>unpack\<close> and \<open>pack\<close> are parameters (\<open>Inl\<close> the message of
  the exception), and the native values they exchange are carried as \<open>json\<close>.
\<close>

section \<open>Dispatch\<close>

fun py_type_name :: "json \<Rightarrow> string" where
  "py_type_name JNull = ''NoneType''"
| "py_type_name (JBool _) = ''bool''"
| "py_type_name (JInt _) = ''int''"
| "py_type_name (JFloat _) = ''float''"
| "py_type_name (JStr _) = ''str''"
| "py_type_name (JList _) = ''list''"
| "py_type_name (JObj _) = ''dict''"

definition request_data :: "(bytes \<Rightarrow> string + json) \<Rightarrow> json \<Rightarrow> exn + json" where
  "request_data unpack data_b64 =
     (case data_b64 of
        JNull \<Rightarrow> Inr JNull
      | JStr b64 \<Rightarrow>
          (case b64decode b64 of
             Inl m \<Rightarrow> Inl (LinkError (''data_b64 is not valid base64: '' @ m))
           | Inr raw \<Rightarrow>
               if raw = [] then Inr JNull
               else (case unpack raw of
                       Inl m \<Rightarrow> Inl (LinkError (''data_b64 is not valid msgpack: '' @ m))
                     | Inr v \<Rightarrow> Inr v))
      | v \<Rightarrow> Inl (LinkError (''data_b64 is not valid base64: argument should be a bytes-like object or ASCII string, not ''
                @ py_repr (py_type_name v))))"

datatype outcome = OcResponse "string option" nat | OcFailed | OcTimeout | OcCancelled

text \<open>
  \<open>rq_future\<close> is the \<open>asyncio.Future\<close>, \<open>rq_queue\<close> the \<open>set_result\<close> calls that
  \<open>call_soon_threadsafe\<close> has scheduled and the loop has not run yet.
\<close>

record rpc =
  rq_session :: string
  rq_link_id :: string
  rq_path :: string
  rq_client_id :: json
  rq_awaited :: bool
  rq_deadline :: rat
  rq_future :: "outcome option"
  rq_queue :: "outcome list"

text \<open>
  A timeout that is no number reaches RNS as it is, and the deadline's addition raises after
  the dispatch. \<open>refused\<close> is the message of the exception \<open>Link.request\<close> raises.
\<close>

definition link_request ::
  "(bytes \<Rightarrow> string + json) \<Rightarrow> string option \<Rightarrow> string \<Rightarrow> string \<Rightarrow> json \<Rightarrow> json \<Rightarrow> bool \<Rightarrow> json \<Rightarrow> sys \<Rightarrow>
   (exn + rpc) \<times> sys" where
  "link_request unpack refused link_id path data_b64 timeout awaited client_id s =
     (case link_entry_of (ses s) link_id of
        Inl x \<Rightarrow> (Inl x, s)
      | Inr e \<Rightarrow>
         (case le_link (entries s e) of
            None \<Rightarrow> (Inl (LinkError ''link is not yet established''), s)
          | Some l \<Rightarrow>
              if path = [] then (Inl (LinkError ''path is required''), s)
              else
               (case request_data unpack data_b64 of
                  Inl x \<Rightarrow> (Inl x, s)
                | Inr data \<Rightarrow>
                   (let s1 = emit (Rns (LinkRequest l path data timeout)) s in
                    case refused of
                      Some m \<Rightarrow> (Inl (LinkError (''link.request failed: '' @ m)), s1)
                    | None \<Rightarrow>
                       (case (if timeout = JNull then Some 30 else as_number timeout) of
                          None \<Rightarrow> (Inl (PyExn ''TypeError'' ''unsupported operand type(s) for +''), s1)
                        | Some t \<Rightarrow>
                            (Inr \<lparr>rq_session = s_id (ses s), rq_link_id = bytes_hex (le_destination_hash (entries s e)),
                                  rq_path = path, rq_client_id = client_id, rq_awaited = awaited,
                                  rq_deadline = t + 5, rq_future = None, rq_queue = []\<rparr>, s1))))))"

section \<open>The life of a request\<close>

definition request_event :: "rpc \<Rightarrow> string \<Rightarrow> fields \<Rightarrow> json" where
  "request_event q kind extra =
     JObj ([(''type'', JStr kind), (''session_id'', JStr (rq_session q)), (''id'', rq_client_id q),
            (''link_id'', JStr (rq_link_id q)), (''path'', JStr (rq_path q))] @ extra)"

text \<open>The future is read when the callback runs; the result is set later, on the loop.\<close>

definition schedule_result :: "outcome \<Rightarrow> rpc \<Rightarrow> rpc" where
  "schedule_result oc q = (if rq_future q = None then q\<lparr>rq_queue := rq_queue q @ [oc]\<rparr> else q)"

text \<open>
  \<open>value\<close> is the response, already read if it was a file (a failed read gives \<open>None\<close>).
\<close>

definition on_response :: "(json \<Rightarrow> string + bytes) \<Rightarrow> json \<Rightarrow> rpc \<times> 'a shared_scheme \<Rightarrow> rpc \<times> 'a shared_scheme" where
  "on_response pack value qs =
     (let (q, s) = qs;
          (b64, sz) = (case pack value of Inl _ \<Rightarrow> (None, 0) | Inr b \<Rightarrow> (Some (b64encode b), length b))
      in (schedule_result (OcResponse b64 sz) q,
          emit (BridgeSession (rq_session q)
            (request_event q ''link.request.response'' [(''response_b64'', jopt b64), (''size'', jnat sz)])) s))"

definition on_failed :: "rpc \<times> 'a shared_scheme \<Rightarrow> rpc \<times> 'a shared_scheme" where
  "on_failed qs =
     (let (q, s) = qs
      in (schedule_result OcFailed q,
          emit (BridgeSession (rq_session q) (request_event q ''link.request.failed'' [])) s))"

text \<open>A scheduled \<open>set_result\<close> on a future that is done raises inside the loop, which logs it.\<close>

definition loop_sets :: "rpc \<times> 'a shared_scheme \<Rightarrow> rpc \<times> 'a shared_scheme" where
  "loop_sets qs =
     (let (q, s) = qs in
      case rq_queue q of
        [] \<Rightarrow> (q, s)
      | oc # rest \<Rightarrow>
          (q\<lparr>rq_queue := rest, rq_future := (case rq_future q of None \<Rightarrow> Some oc | Some x \<Rightarrow> Some x)\<rparr>, s))"

text \<open>
  The deadline: \<open>wait_for\<close> of the awaiting call cancels the future; the watchdog sets it and
  tells the session.
\<close>

definition deadline_passes :: "rpc \<times> 'a shared_scheme \<Rightarrow> rpc \<times> 'a shared_scheme" where
  "deadline_passes qs =
     (let (q, s) = qs in
      if rq_future q \<noteq> None then (q, s)
      else if rq_awaited q then (q\<lparr>rq_future := Some OcCancelled\<rparr>, s)
      else (q\<lparr>rq_future := Some OcTimeout\<rparr>,
            emit (HubSession (rq_session q) (request_event q ''link.request.failed'' [])) s))"

datatype rpc_event = Responds json | Fails | LoopSets | Deadline

fun rpc_step :: "(json \<Rightarrow> string + bytes) \<Rightarrow> rpc_event \<Rightarrow> rpc \<times> 'a shared_scheme \<Rightarrow> rpc \<times> 'a shared_scheme" where
  "rpc_step pack (Responds v) qs = on_response pack v qs"
| "rpc_step pack Fails qs = on_failed qs"
| "rpc_step pack LoopSets qs = loop_sets qs"
| "rpc_step pack Deadline qs = deadline_passes qs"

definition rpc_run :: "(json \<Rightarrow> string + bytes) \<Rightarrow> rpc_event list \<Rightarrow> rpc \<times> 'a shared_scheme \<Rightarrow> rpc \<times> 'a shared_scheme" where
  "rpc_run pack evs qs = fold (rpc_step pack) evs qs"

text \<open>What the awaiting REST call returns once the future is done.\<close>

definition request_result :: "string \<Rightarrow> rpc \<Rightarrow> fields option" where
  "request_result link_id q =
     (let base = [(''link_id'', JStr link_id), (''path'', JStr (rq_path q))] in
      case rq_future q of
        None \<Rightarrow> None
      | Some (OcResponse b64 sz) \<Rightarrow>
          Some ((''ok'', JBool True) # base @
                [(''kind'', JStr ''response''), (''response_b64'', jopt b64), (''size'', jnat sz)])
      | Some OcFailed \<Rightarrow> Some ((''ok'', JBool False) # base @ [(''kind'', JStr ''failed'')])
      | Some _ \<Rightarrow> Some ((''ok'', JBool False) # base @ [(''kind'', JStr ''timeout'')]))"

section \<open>Lemmas\<close>

definition reports :: "rpc_event list \<Rightarrow> nat" where
  "reports evs = length (filter (\<lambda>e. e = Fails \<or> (\<exists>v. e = Responds v)) evs)"

text \<open>The event a trace entry carries to the session, if it is one of this request's.\<close>

definition rpc_effect :: "rpc \<Rightarrow> effect \<Rightarrow> bool" where
  "rpc_effect q eff \<longleftrightarrow>
     (\<exists>j. (eff = BridgeSession (rq_session q) j \<or> eff = HubSession (rq_session q) j) \<and>
          ev_type j \<in> {Some ''link.request.response'', Some ''link.request.failed''} \<and>
          ev_field ''id'' j = rq_client_id q \<and> ev_field ''path'' j = JStr (rq_path q) \<and>
          ev_field ''link_id'' j = JStr (rq_link_id q))"

definition same_rpc :: "rpc \<Rightarrow> rpc \<Rightarrow> bool" where
  "same_rpc a b \<longleftrightarrow>
     rq_session b = rq_session a \<and> rq_link_id b = rq_link_id a \<and> rq_path b = rq_path a \<and>
     rq_client_id b = rq_client_id a \<and> rq_awaited b = rq_awaited a \<and> rq_deadline b = rq_deadline a"

lemma same_rpc_refl [simp]: "same_rpc q q"
  by (simp add: same_rpc_def)

lemma same_rpc_trans: "same_rpc a b \<Longrightarrow> same_rpc b c \<Longrightarrow> same_rpc a c"
  by (simp add: same_rpc_def)

lemma rpc_effect_same: "same_rpc a b \<Longrightarrow> rpc_effect b = rpc_effect a"
  by (auto simp: rpc_effect_def same_rpc_def fun_eq_iff)

lemma rpc_step_effects:
  assumes "rpc_step pack ev (q, s) = (q', s')"
  shows "\<exists>es. trace s' = trace s @ es \<and> (\<forall>e \<in> set es. rpc_effect q e) \<and> same_rpc q q' \<and>
    (rq_future q \<noteq> None \<longrightarrow> rq_future q' = rq_future q) \<and>
    length es = reports [ev] + (if ev = Deadline \<and> rq_future q = None \<and> \<not> rq_awaited q then 1 else 0) \<and>
    (ev = Deadline \<longrightarrow> rq_future q' \<noteq> None)"
  using assms
  by (cases ev)
    (auto simp: on_response_def on_failed_def loop_sets_def deadline_passes_def schedule_result_def Let_def
      same_rpc_def rpc_effect_def request_event_def reports_def split: sum.splits list.splits option.splits if_splits)

lemma rpc_run_simps [simp]:
  "rpc_run pack [] qs = qs" "rpc_run pack (e # evs) qs = rpc_run pack evs (rpc_step pack e qs)"
  by (simp_all add: rpc_run_def)

lemma reports_Cons: "reports (e # evs) = reports [e] + reports evs"
  by (simp add: reports_def)

text \<open>Events are those RNS reports, and one more when the deadline found the request undecided.\<close>

lemma rpc_run_effects:
  assumes "rpc_run pack evs (q, s) = (q', s')"
  shows "\<exists>es. trace s' = trace s @ es \<and> (\<forall>e \<in> set es. rpc_effect q e) \<and> same_rpc q q' \<and>
    (rq_future q \<noteq> None \<longrightarrow> rq_future q' = rq_future q \<and> length es = reports evs) \<and>
    reports evs \<le> length es \<and> length es \<le> Suc (reports evs) \<and>
    (Deadline \<notin> set evs \<longrightarrow> length es = reports evs) \<and>
    (Deadline \<in> set evs \<longrightarrow> rq_future q' \<noteq> None)"
  using assms
proof (induction evs arbitrary: q s)
  case (Cons ev evs)
  obtain q1 s1 where st: "rpc_step pack ev (q, s) = (q1, s1)" by fastforce
  from rpc_step_effects [OF st] obtain es1 where es1: "trace s1 = trace s @ es1" "\<forall>e \<in> set es1. rpc_effect q e"
    "same_rpc q q1" "rq_future q \<noteq> None \<longrightarrow> rq_future q1 = rq_future q"
    "length es1 = reports [ev] + (if ev = Deadline \<and> rq_future q = None \<and> \<not> rq_awaited q then 1 else 0)"
    "ev = Deadline \<longrightarrow> rq_future q1 \<noteq> None" by auto
  have "rpc_run pack evs (q1, s1) = (q', s')" using Cons.prems st by simp
  from Cons.IH [OF this] obtain es2 where es2: "trace s' = trace s1 @ es2" "\<forall>e \<in> set es2. rpc_effect q1 e"
    "same_rpc q1 q'" "rq_future q1 \<noteq> None \<longrightarrow> rq_future q' = rq_future q1 \<and> length es2 = reports evs"
    "reports evs \<le> length es2" "length es2 \<le> Suc (reports evs)"
    "Deadline \<notin> set evs \<longrightarrow> length es2 = reports evs" "Deadline \<in> set evs \<longrightarrow> rq_future q' \<noteq> None" by auto
  have "trace s' = trace s @ es1 @ es2" "\<forall>e \<in> set (es1 @ es2). rpc_effect q e" "same_rpc q q'"
    using es1(1,2,3) es2(1-3) by (auto simp: rpc_effect_same [OF es1(3)] intro: same_rpc_trans)
  moreover have "rq_future q \<noteq> None \<longrightarrow> rq_future q' = rq_future q \<and> length (es1 @ es2) = reports (ev # evs)"
    using es1(4,5) es2(4) by (auto simp: reports_Cons [of ev evs])
  moreover have "reports (ev # evs) \<le> length (es1 @ es2) \<and> length (es1 @ es2) \<le> Suc (reports (ev # evs))"
    using es1(5,6) es2(4-6) by (auto simp: reports_Cons [of ev evs])
  moreover have "Deadline \<notin> set (ev # evs) \<longrightarrow> length (es1 @ es2) = reports (ev # evs)"
    using es1(5) es2(7) by (auto simp: reports_Cons [of ev evs])
  moreover have "Deadline \<in> set (ev # evs) \<longrightarrow> rq_future q' \<noteq> None"
    using es1(6) es2(4,8) by auto
  ultimately show ?case by blast
qed (simp add: reports_def)

lemma reports_pos: "0 < reports evs \<longleftrightarrow> Fails \<in> set evs \<or> (\<exists>v. Responds v \<in> set evs)"
  by (auto simp: reports_def filter_empty_conv)

text \<open>Without any report of RNS the first deadline tells the session, and later ones do not.\<close>

lemma rpc_run_deadline:
  assumes "rpc_run pack evs (q, s) = (q', s')" and "rq_future q = None" and "rq_queue q = []"
    and "\<not> rq_awaited q" and "reports evs = 0" and "Deadline \<in> set evs"
  shows "trace s' = trace s @ [HubSession (rq_session q) (request_event q ''link.request.failed'' [])] \<and>
    rq_future q' = Some OcTimeout"
  using assms
proof (induction evs arbitrary: q s)
  case (Cons ev evs)
  show ?case
  proof (cases "ev = Deadline")
    case True
    let ?q1 = "q\<lparr>rq_future := Some OcTimeout\<rparr>"
    let ?s1 = "emit (HubSession (rq_session q) (request_event q ''link.request.failed'' [])) s"
    have "rpc_run pack evs (?q1, ?s1) = (q', s')"
      using Cons.prems True by (simp add: deadline_passes_def)
    from rpc_run_effects [OF this] Cons.prems(5) True show ?thesis
      by (auto simp: reports_Cons [of Deadline evs])
  next
    case False
    with Cons.prems have "ev = LoopSets" by (cases ev) (auto simp: reports_def)
    with Cons.prems Cons.IH [of q s] show ?thesis
      by (auto simp: loop_sets_def reports_Cons [of _ evs])
  qed
qed simp

text \<open>C15. A fire-and-forget request never goes silent: by the time its deadline has passed, or RNS
  has reported, the session has been told at least once, by an event that carries the client's
  own id, the path and the link, and it is never told more than once more than RNS reports.\<close>

theorem request_always_reported:
  assumes "rpc_run pack evs (q, s) = (q', s')" and "rq_future q = None" and "rq_queue q = []"
    and "\<not> rq_awaited q" and "Deadline \<in> set evs \<or> 0 < reports evs"
  shows "\<exists>es. trace s' = trace s @ es \<and> es \<noteq> [] \<and> (\<forall>e \<in> set es. rpc_effect q e) \<and>
    length es \<le> Suc (reports evs)"
proof -
  obtain es where es: "trace s' = trace s @ es" "\<forall>e \<in> set es. rpc_effect q e"
    "reports evs \<le> length es" "length es \<le> Suc (reports evs)"
    using rpc_run_effects [OF assms(1)] by auto
  have "es \<noteq> []"
  proof (cases "reports evs = 0")
    case True
    with rpc_run_deadline [OF assms(1-4)] assms(5) es(1) show ?thesis by auto
  qed (use es(3) in auto)
  with es show ?thesis by blast
qed

text \<open>C16. A request that RNS answers in time is reported exactly once: after the answer has been
  taken over by the loop, neither the deadline nor anything else but a further report of RNS
  tells the session again, and what the session gets is the response itself, in base64.\<close>

theorem request_answered_once:
  assumes "rpc_run pack (Responds v # LoopSets # evs) (q, s) = (q', s')" and "rq_future q = None"
    and "rq_queue q = []" and "reports evs = 0" and "pack v = Inr b"
  shows "\<exists>j b64. trace s' = trace s @ [BridgeSession (rq_session q) j] \<and>
    ev_type j = Some ''link.request.response'' \<and> ev_field ''id'' j = rq_client_id q \<and>
    ev_field ''response_b64'' j = JStr b64 \<and> b64decode b64 = Inr b \<and>
    rq_future q' = Some (OcResponse (Some b64) (length b))"
proof -
  let ?j = "request_event q ''link.request.response'' [(''response_b64'', JStr (b64encode b)), (''size'', jnat (length b))]"
  let ?q1 = "q\<lparr>rq_queue := [], rq_future := Some (OcResponse (Some (b64encode b)) (length b))\<rparr>"
  have "rpc_run pack evs (?q1, emit (BridgeSession (rq_session q) ?j) s) = (q', s')"
    using assms by (simp add: on_response_def schedule_result_def loop_sets_def Let_def jopt_def)
  from rpc_run_effects [OF this] assms(4) show ?thesis
    by (intro exI [of _ ?j] exI [of _ "b64encode b"])
      (auto simp: request_event_def b64decode_b64encode)
qed

text \<open>C17. A response that comes after the watchdog gave the request up is delivered all the same:
  the session then gets two final events for one request, first the failure, then the response.\<close>

theorem late_response_contradicts_failure:
  assumes "rpc_run pack (pre @ [Deadline] @ mid @ [Responds v]) (q, s) = (q', s')"
    and "rq_future q = None" and "rq_queue q = []" and "\<not> rq_awaited q" and "reports pre = 0" and "reports mid = 0"
  shows "\<exists>j j'. trace s' = trace s @ [HubSession (rq_session q) j, BridgeSession (rq_session q) j'] \<and>
    ev_type j = Some ''link.request.failed'' \<and> ev_type j' = Some ''link.request.response'' \<and>
    ev_field ''id'' j = rq_client_id q \<and> ev_field ''id'' j' = rq_client_id q"
  using assms
proof (induction pre arbitrary: q s)
  case Nil
  let ?q1 = "q\<lparr>rq_future := Some OcTimeout\<rparr>"
  let ?s1 = "emit (HubSession (rq_session q) (request_event q ''link.request.failed'' [])) s"
  obtain q2 s2 where mid: "rpc_run pack mid (?q1, ?s1) = (q2, s2)" by fastforce
  from rpc_run_effects [OF mid] Nil.prems(6) have s2: "trace s2 = trace ?s1" "same_rpc q q2"
    by (auto simp: same_rpc_def)
  have "rpc_step pack (Responds v) (q2, s2) = (q', s')"
    using Nil.prems(1-4) mid by (simp add: rpc_run_def deadline_passes_def)
  with s2 show ?case
    by (auto simp: on_response_def Let_def request_event_def same_rpc_def split: sum.splits)
next
  case (Cons ev pre)
  have dec: "reports pre = 0" "reports [ev] = 0"
    using Cons.prems(5) by (simp_all add: reports_Cons [of ev pre])
  show ?case
  proof (cases ev)
    case LoopSets
    with Cons.prems dec show ?thesis
      by (intro Cons.IH [of q s]) (simp_all add: loop_sets_def)
  next
    case Deadline
    let ?q1 = "q\<lparr>rq_future := Some OcTimeout\<rparr>"
    let ?s1 = "emit (HubSession (rq_session q) (request_event q ''link.request.failed'' [])) s"
    obtain q2 s2 where mid: "rpc_run pack (pre @ [rpc_event.Deadline] @ mid) (?q1, ?s1) = (q2, s2)" by fastforce
    have "reports (pre @ [rpc_event.Deadline] @ mid) = 0"
      using dec Cons.prems(6) by (simp add: reports_def)
    with rpc_run_effects [OF mid] have s2: "trace s2 = trace ?s1" "same_rpc q q2"
      by (auto simp: same_rpc_def)
    have "rpc_step pack (Responds v) (q2, s2) = (q', s')"
      using Cons.prems(1-4) mid Deadline by (simp add: rpc_run_def deadline_passes_def)
    with s2 show ?thesis
      by (auto simp: on_response_def Let_def request_event_def same_rpc_def split: sum.splits)
  qed (use dec in \<open>simp_all add: reports_def\<close>)
qed

section \<open>Witnesses\<close>

definition sample_rpc :: rpc where
  "sample_rpc = \<lparr>rq_session = ''sid'', rq_link_id = bytes_hex (replicate 16 9), rq_path = ''/page'', rq_client_id = JInt 7,
                rq_awaited = False, rq_deadline = 35, rq_future = None, rq_queue = []\<rparr>"

definition one_byte_pack :: "json \<Rightarrow> string + bytes" where
  "one_byte_pack v = (if v = JNull then Inr [192] else Inl ''unsupported'')"

lemma sample_rpc_fresh: "rq_future sample_rpc = None" "rq_queue sample_rpc = []" "\<not> rq_awaited sample_rpc"
  by (simp_all add: sample_rpc_def)

theorem request_always_reported_witness:
  "\<exists>q' s' es. rpc_run one_byte_pack [LoopSets, Deadline] (sample_rpc, linked_sys) = (q', s') \<and>
     trace s' = trace linked_sys @ es \<and> es \<noteq> [] \<and> length es \<le> 1"
proof -
  obtain q' s' where run: "rpc_run one_byte_pack [LoopSets, Deadline] (sample_rpc, linked_sys) = (q', s')" by fastforce
  have "Deadline \<in> set [LoopSets, Deadline] \<or> 0 < reports [LoopSets, Deadline]" by simp
  from request_always_reported [OF run sample_rpc_fresh this] run show ?thesis
    by (auto simp: reports_def)
qed

theorem request_answered_once_witness:
  "\<exists>q' s' j. rpc_run one_byte_pack [Responds JNull, LoopSets, Deadline] (sample_rpc, linked_sys) = (q', s') \<and>
     trace s' = trace linked_sys @ [BridgeSession ''sid'' j] \<and> ev_field ''id'' j = JInt 7"
proof -
  obtain q' s' where run: "rpc_run one_byte_pack [Responds JNull, LoopSets, Deadline] (sample_rpc, linked_sys) = (q', s')"
    by fastforce
  have "reports [Deadline] = 0" "one_byte_pack JNull = Inr [192]"
    by (simp_all add: reports_def one_byte_pack_def)
  from request_answered_once [OF run sample_rpc_fresh(1,2) this] run show ?thesis
    by (auto simp: sample_rpc_def)
qed

theorem late_response_contradicts_failure_witness:
  "\<exists>q' s' j j'. rpc_run one_byte_pack [Deadline, LoopSets, Responds JNull] (sample_rpc, linked_sys) = (q', s') \<and>
     trace s' = trace linked_sys @ [HubSession ''sid'' j, BridgeSession ''sid'' j'] \<and>
     ev_type j = Some ''link.request.failed'' \<and> ev_type j' = Some ''link.request.response''"
proof -
  obtain q' s' where run: "rpc_run one_byte_pack ([] @ [Deadline] @ [LoopSets] @ [Responds JNull]) (sample_rpc, linked_sys) = (q', s')"
    by fastforce
  have "reports [] = 0" "reports [LoopSets] = 0" by (simp_all add: reports_def)
  from late_response_contradicts_failure [OF run sample_rpc_fresh this] run show ?thesis
    by (auto simp: sample_rpc_def)
qed

end
