(* ===== verification/Resources.thy ===== *)
theory Resources
  imports Link_Requests
begin

text \<open>
  \<open>rns/resources.py\<close>: transfers over links, in both directions. A transfer lives in the store,
  because RNS callbacks, its polling task and the session's table all refer to it. What the code
  reads off an RNS resource at one moment is a \<open>res_view\<close>. A callback that only schedules
  work on the loop is modelled by the work: \<open>_on_receive_started\<close>, \<open>_on_receive_concluded\<close> and
  \<open>_emit_progress_if_due\<close> are operations of their own. (A dash outside Latin-1 in one error
  message is written as a colon.)
\<close>

section \<open>Transfers\<close>

fun resource_status_str :: "resource_status \<Rightarrow> string" where
  "resource_status_str RNone = ''NONE''"
| "resource_status_str RQueued = ''QUEUED''"
| "resource_status_str RAdvertised = ''ADVERTISED''"
| "resource_status_str RTransferring = ''TRANSFERRING''"
| "resource_status_str RAwaitingProof = ''AWAITING_PROOF''"
| "resource_status_str RAssembling = ''ASSEMBLING''"
| "resource_status_str RComplete = ''COMPLETE''"
| "resource_status_str RFailed = ''FAILED''"
| "resource_status_str RCorrupt = ''CORRUPT''"
| "resource_status_str RRejected = ''REJECTED''"
| "resource_status_str ROther = ''UNKNOWN''"

text \<open>
  \<open>rv_total\<close>: \<open>get_data_size()\<close> or what the fallbacks give; \<open>rv_progress\<close>: \<open>None\<close> when
  \<open>get_progress()\<close> raises; \<open>rv_content\<close>: the assembled bytes, or the message of the exception
  that reading or copying them raised.
\<close>

record res_view =
  rv_status :: resource_status
  rv_total :: int
  rv_progress :: "rat option"
  rv_metadata :: json
  rv_content :: "string + bytes"

definition new_transfer :: "string \<Rightarrow> string \<Rightarrow> string \<Rightarrow> string \<Rightarrow> rat \<Rightarrow> transfer" where
  "new_transfer tid sid direction link_hex now =
     \<lparr>t_id = tid, t_session_id = sid, t_direction = direction, t_link_id_hex = link_hex, t_status = ''PENDING'',
      t_total_size = 0, t_bytes_transferred = 0, t_progress = 0, t_temp_path = None, t_upload_temp_path = None,
      t_metadata = JNull, t_created_at = now, t_completed_at = None, t_failure_reason = None, t_resource = None,
      t_done_event = None, t_last_emit_ts = 0, t_last_emit_pct = - 1, t_poller = None\<rparr>"

definition file_exists :: "string option \<Rightarrow> 'a shared_scheme \<Rightarrow> bool" where
  "file_exists p s = (case p of None \<Rightarrow> False | Some f \<Rightarrow> dict_get (res_files s) f \<noteq> None)"

definition transfer_to_dict :: "'a shared_scheme \<Rightarrow> transfer \<Rightarrow> string option \<Rightarrow> fields" where
  "transfer_to_dict s t url =
     [(''transfer_id'', JStr (t_id t)), (''session_id'', JStr (t_session_id t)), (''direction'', JStr (t_direction t)),
      (''link_id'', JStr (t_link_id_hex t)), (''status'', JStr (t_status t)), (''total_size'', JInt (t_total_size t)),
      (''bytes_transferred'', JInt (t_bytes_transferred t)), (''progress'', JFloat (t_progress t)),
      (''created_at'', JFloat (t_created_at t)),
      (''completed_at'', case t_completed_at t of None \<Rightarrow> JNull | Some r \<Rightarrow> JFloat r),
      (''metadata'', t_metadata t), (''failure_reason'', jopt (t_failure_reason t)),
      (''temp_path_exists'', JBool (file_exists (t_temp_path t) s))] @
     (case url of None \<Rightarrow> [] | Some u \<Rightarrow> [(''download_url'', JStr u)])"

definition unlink_file :: "string \<Rightarrow> 'a shared_scheme \<Rightarrow> 'a shared_scheme" where
  "unlink_file p s = emit (Unlink p) (s\<lparr>res_files := dict_pop p (res_files s)\<rparr>)"

definition unlink_opt :: "string option \<Rightarrow> 'a shared_scheme \<Rightarrow> 'a shared_scheme" where
  "unlink_opt p s = (case p of None \<Rightarrow> s | Some f \<Rightarrow> unlink_file f s)"

definition set_transfer :: "string \<Rightarrow> tref \<Rightarrow> sys \<Rightarrow> sys" where
  "set_transfer tid t s = upd_ses (\<lambda>x. x\<lparr>active_transfers := dict_set tid t (active_transfers x)\<rparr>) s"

text \<open>A new transfer at a fresh address, filed in the session's table.\<close>

definition add_transfer :: "transfer \<Rightarrow> sys \<Rightarrow> tref \<times> sys" where
  "add_transfer tr s =
     (let t = next_ref s
      in (t, set_transfer (t_id tr) t (s\<lparr>transfers := (transfers s)(t := tr), next_ref := Suc t\<rparr>)))"

definition cancel_poller :: "transfer \<Rightarrow> transfer" where
  "cancel_poller tr = tr\<lparr>t_poller := map_option (\<lambda>_. False) (t_poller tr)\<rparr>"

text \<open>\<open>x or y\<close> on an optional string.\<close>

definition str_or :: "string option \<Rightarrow> string \<Rightarrow> string option" where
  "str_or x y = (case x of None \<Rightarrow> Some y | Some v \<Rightarrow> if v = [] then Some y else Some v)"

text \<open>\<open>int(r)\<close> on a float truncates towards zero.\<close>

definition py_trunc :: "rat \<Rightarrow> int" where
  "py_trunc r = (if r < 0 then \<lceil>r\<rceil> else \<lfloor>r\<rfloor>)"

section \<open>Link policy\<close>

definition set_link_policy :: "string \<Rightarrow> bool \<Rightarrow> sys \<Rightarrow> (exn + fields) \<times> sys" where
  "set_link_policy link_id accept s =
     (case fromhex (lower link_id) of
        None \<Rightarrow> (Inl (ResourceError (''invalid link id: '' @ py_repr link_id)), s)
      | Some h \<Rightarrow>
         (case dict_get (open_links (ses s)) h of
            None \<Rightarrow> (Inl (ResourceError (''unknown link: '' @ link_id)), s)
          | Some e \<Rightarrow>
             (let s1 = upd_ses (\<lambda>x. x\<lparr>link_resource_policy := dict_set h accept (link_resource_policy x)\<rparr>) s
              in (Inr [(''ok'', JBool True), (''link_id'', JStr link_id), (''accept'', JBool accept)],
                  case le_link (entries s e) of None \<Rightarrow> s1 | Some l \<Rightarrow> emit (Rns (SetStrategy l accept)) s1))))"

section \<open>Progress\<close>

definition progress_update :: "res_view \<Rightarrow> transfer \<Rightarrow> transfer" where
  "progress_update v tr =
     (let p = (case rv_progress v of None \<Rightarrow> t_progress tr | Some p \<Rightarrow> p)
      in tr\<lparr>t_progress := p,
            t_bytes_transferred := (if t_total_size tr \<noteq> 0 then py_trunc (p * of_int (t_total_size tr)) else 0),
            t_status := resource_status_str (rv_status v)\<rparr>)"

definition progress_due :: "resources_config \<Rightarrow> rat \<Rightarrow> transfer \<Rightarrow> bool" where
  "progress_due rc now tr \<longleftrightarrow>
     \<not> now - t_last_emit_ts tr < of_int (progress_throttle_ms rc) / 1000 \<and>
     \<not> (0 \<le> t_last_emit_pct tr \<and> \<bar>t_progress tr * 100 - t_last_emit_pct tr\<bar> < progress_throttle_pct rc)"

definition emit_progress_if_due :: "resources_config \<Rightarrow> rat \<Rightarrow> tref \<Rightarrow> sys \<Rightarrow> sys" where
  "emit_progress_if_due rc now t s =
     (if \<not> progress_due rc now (transfers s t) then s
      else (let s1 = upd_transfer t (\<lambda>tr. tr\<lparr>t_last_emit_ts := now, t_last_emit_pct := t_progress tr * 100\<rparr>) s
            in emit (HubSession (s_id (ses s))
                 (JObj ((''type'', JStr ''resource.progress'') # transfer_to_dict s1 (transfers s1 t) None))) s1))"

section \<open>Receiving\<close>

definition on_receive_started :: "rat \<Rightarrow> string \<Rightarrow> res_view \<Rightarrow> rref \<Rightarrow> bytes \<Rightarrow> sys \<Rightarrow> sys" where
  "on_receive_started now tid v r dest s =
     (let tr = (new_transfer tid (s_id (ses s)) ''in'' (bytes_hex dest) now)
                 \<lparr>t_status := resource_status_str (rv_status v), t_total_size := rv_total v,
                  t_resource := Some r, t_metadata := rv_metadata v\<rparr>;
          (t, s1) = add_transfer tr (s\<lparr>res_tags := (res_tags s)(r := Some tid)\<rparr>);
          s2 = emit (HubSession (s_id (ses s))
                 (JObj ((''type'', JStr ''resource.started'') # transfer_to_dict s1 tr None))) s1
      in upd_transfer t (\<lambda>tr. tr\<lparr>t_poller := Some True\<rparr>) s2)"

text \<open>One round of \<open>_poll_receive_progress\<close> after its sleep; the result says whether it goes on.\<close>

definition poll_receive_progress :: "resources_config \<Rightarrow> rat \<Rightarrow> res_view \<Rightarrow> tref \<Rightarrow> sys \<Rightarrow> bool \<times> sys" where
  "poll_receive_progress rc now v t s =
     (if t_resource (transfers s t) = None \<or>
         rv_status v \<in> {RComplete, RAssembling, RFailed, RCorrupt, RRejected}
      then (False, upd_transfer t cancel_poller s)
      else (True, emit_progress_if_due rc now t (upd_transfer t (progress_update v) s)))"

definition completed_event :: "resources_config \<Rightarrow> 'a shared_scheme \<Rightarrow> transfer \<Rightarrow> json" where
  "completed_event rc s tr =
     JObj (transfer_to_dict s tr (Some (''/resources/'' @ t_id tr @ ''/data'')) @
           [(''type'', JStr ''resource.completed'')] @
           (case t_temp_path tr of
              None \<Rightarrow> []
            | Some f \<Rightarrow>
                (case dict_get (res_files s) f of
                   None \<Rightarrow> []
                 | Some b \<Rightarrow> if int (length b) \<le> max_inline_bytes rc then [(''data_b64'', JStr (b64encode b))] else [])))"

text \<open>The transfer a concluded resource belongs to; one is made up when the table has none.\<close>

definition concluded_transfer :: "rat \<Rightarrow> string \<Rightarrow> rref \<Rightarrow> bytes \<Rightarrow> sys \<Rightarrow> tref \<times> sys" where
  "concluded_transfer now fresh_tid r dest s =
     (let made_up = (\<lambda>tid. add_transfer
            ((new_transfer tid (s_id (ses s)) ''in'' (bytes_hex dest) now)\<lparr>t_resource := Some r\<rparr>) s)
      in case res_tags s r of
           None \<Rightarrow> made_up fresh_tid
         | Some tid \<Rightarrow>
             (case dict_get (active_transfers (ses s)) tid of None \<Rightarrow> made_up tid | Some t \<Rightarrow> (t, s)))"

definition resource_file :: "'a shared_scheme \<Rightarrow> string \<Rightarrow> string" where
  "resource_file s tid = path_join (sp_resources_dir (store_paths s)) tid"

text \<open>
  The copy of the assembled bytes into the resources directory; \<open>tid\<close> is the resource's tag, else
  the fresh id, and in either case the id of the transfer.
\<close>

definition store_received :: "res_view \<Rightarrow> tref \<Rightarrow> sys \<Rightarrow> sys" where
  "store_received v t s =
     (case rv_content v of
        Inl m \<Rightarrow> upd_transfer t (\<lambda>tr. tr\<lparr>t_status := ''FAILED'', t_failure_reason := Some (''local_copy_failed: '' @ m)\<rparr>) s
      | Inr data \<Rightarrow>
         (let f = resource_file s (t_id (transfers s t)) in
          upd_transfer t (\<lambda>tr. tr\<lparr>t_temp_path := Some f, t_total_size := int (length data),
                                  t_bytes_transferred := int (length data), t_progress := 1\<rparr>)
            (emit (WriteFile f data) (s\<lparr>res_files := dict_set f data (res_files s)\<rparr>))))"

definition on_receive_concluded ::
  "resources_config \<Rightarrow> rat \<Rightarrow> string \<Rightarrow> res_view \<Rightarrow> rref \<Rightarrow> bytes \<Rightarrow> sys \<Rightarrow> sys" where
  "on_receive_concluded rc now fresh_tid v r dest s =
     (let (t, s1) = concluded_transfer now fresh_tid r dest s;
          s2 = upd_transfer t (\<lambda>tr. (cancel_poller tr)\<lparr>t_status := resource_status_str (rv_status v),
                                      t_completed_at := Some now, t_metadata := rv_metadata v\<rparr>) s1;
          s3 = (if rv_status v = RComplete
                then (let s' = store_received v t s2
                      in emit (HubSession (s_id (ses s)) (completed_event rc s' (transfers s' t))) s')
                else (let s' = upd_transfer t (\<lambda>tr. tr\<lparr>t_failure_reason := str_or (t_failure_reason tr) (t_status tr)\<rparr>) s2
                      in emit (HubSession (s_id (ses s))
                           (JObj ((''type'', JStr ''resource.failed'') # transfer_to_dict s' (transfers s' t) None))) s'))
      in upd_transfer t (\<lambda>tr. tr\<lparr>t_resource := None\<rparr>) s3)"

section \<open>Sending\<close>

datatype send_source = SrcBytes bytes | SrcPath string | SrcOther

text \<open>
  \<open>ans\<close> is what \<open>RNS.Resource(...)\<close> does: the message of the exception, or the resource and the
  status it starts with. A file that is missing raises out of \<open>stat\<close>, after the transfer was
  filed, and so does a source of another type.
\<close>

definition size_source :: "send_source \<Rightarrow> tref \<Rightarrow> sys \<Rightarrow> exn + sys" where
  "size_source src t s =
     (case src of
        SrcBytes b \<Rightarrow> Inr (upd_transfer t (\<lambda>tr. tr\<lparr>t_total_size := int (length b)\<rparr>) s)
      | SrcPath f \<Rightarrow>
          (case dict_get (res_files s) f of
             None \<Rightarrow> Inl (PyExn ''FileNotFoundError'' f)
           | Some b \<Rightarrow> Inr (upd_transfer t (\<lambda>tr. tr\<lparr>t_total_size := int (length b), t_upload_temp_path := Some f\<rparr>) s))
      | SrcOther \<Rightarrow> Inl (ResourceError ''source must be bytes or a Path''))"

definition send_on_link ::
  "rat \<Rightarrow> string \<Rightarrow> string + (rref \<times> resource_status) \<Rightarrow> lref \<Rightarrow> string \<Rightarrow> send_source \<Rightarrow> json \<Rightarrow> sys \<Rightarrow> (exn + tref) \<times> sys" where
  "send_on_link now tid ans l link_id src metadata s =
     (let tr = (new_transfer tid (s_id (ses s)) ''out'' link_id now)\<lparr>t_metadata := metadata, t_done_event := Some False\<rparr>;
          (t, s1) = add_transfer tr s
      in case size_source src t s1 of
           Inl x \<Rightarrow> (Inl x, s1)
         | Inr s2 \<Rightarrow>
            (case ans of
               Inl m \<Rightarrow>
                 (Inl (ResourceError (''RNS refused to create Resource: '' @ m)),
                  upd_ses (\<lambda>x. x\<lparr>active_transfers := dict_pop tid (active_transfers x)\<rparr>) s2)
             | Inr (r, st) \<Rightarrow>
                 (let s3 = upd_transfer t (\<lambda>tr. tr\<lparr>t_resource := Some r, t_status := resource_status_str st\<rparr>)
                             (emit (Rns (NewResource r l)) s2)
                  in (Inr t, emit (HubSession (s_id (ses s))
                       (JObj ((''type'', JStr ''resource.started'') # transfer_to_dict s3 (transfers s3 t) None))) s3))))"

definition not_active_message :: string where
  "not_active_message = ''link is not ACTIVE: wait for the link.established event or reopen the link with await_established=true before sending a resource''"

definition resource_send ::
  "rat \<Rightarrow> string \<Rightarrow> string + (rref \<times> resource_status) \<Rightarrow> string \<Rightarrow> send_source \<Rightarrow> json \<Rightarrow> sys \<Rightarrow> (exn + tref) \<times> sys" where
  "resource_send now tid ans link_id src metadata s =
     (case fromhex (lower link_id) of
        None \<Rightarrow> (Inl (ResourceError (''invalid link id: '' @ py_repr link_id)), s)
      | Some h \<Rightarrow>
         (case dict_get (open_links (ses s)) h of
            None \<Rightarrow> (Inl (ResourceError (''unknown link: '' @ link_id)), s)
          | Some e \<Rightarrow>
             (case le_link (entries s e) of
                None \<Rightarrow> (Inl (ResourceError not_active_message), s)
              | Some l \<Rightarrow>
                  if rl_status (rlinks s l) \<noteq> LActive then (Inl (ResourceError not_active_message), s)
                  else send_on_link now tid ans l link_id src metadata s)))"

text \<open>The reply of \<open>send\<close>: \<open>waited\<close> is \<open>None\<close> when it does not wait, else whether the event came in time.\<close>

definition send_reply :: "bool option \<Rightarrow> tref \<Rightarrow> 'a shared_scheme \<Rightarrow> fields" where
  "send_reply waited t s =
     (let tr = transfers s t; d = transfer_to_dict s tr None in
      case waited of
        None \<Rightarrow> (''awaited'', JBool False) # d
      | Some False \<Rightarrow> [(''awaited'', JBool True), (''kind'', JStr ''timeout'')] @ d
      | Some True \<Rightarrow> [(''awaited'', JBool True), (''kind'', JStr (lower (t_status tr)))] @ d)"

definition on_send_progress :: "res_view \<Rightarrow> tref \<Rightarrow> sys \<Rightarrow> sys" where
  "on_send_progress v t s = upd_transfer t (progress_update v) s"

text \<open>\<open>loop_up\<close>: the bridge has a running loop, so that the waiting call can be woken.\<close>

definition on_send_complete :: "bool \<Rightarrow> rat \<Rightarrow> res_view \<Rightarrow> tref \<Rightarrow> sys \<Rightarrow> sys" where
  "on_send_complete loop_up now v t s =
     (let ok = (rv_status v = RComplete);
          up = t_upload_temp_path (transfers s t);
          s1 = unlink_opt up (upd_transfer t (\<lambda>tr. tr\<lparr>t_status := resource_status_str (rv_status v),
                 t_completed_at := Some now, t_progress := (if ok then 1 else t_progress tr),
                 t_bytes_transferred := (if ok then t_total_size tr else t_bytes_transferred tr),
                 t_resource := None, t_upload_temp_path := None\<rparr>) s);
          s2 = (if ok then s1
                else upd_transfer t (\<lambda>tr. tr\<lparr>t_failure_reason := str_or (t_failure_reason tr) (t_status tr)\<rparr>) s1);
          s3 = emit (BridgeSession (s_id (ses s))
                 (JObj ((''type'', JStr (if ok then ''resource.sent'' else ''resource.failed'')) #
                        transfer_to_dict s2 (transfers s2 t) None))) s2
      in upd_transfer t (\<lambda>tr. tr\<lparr>t_done_event := (if loop_up then map_option (\<lambda>_. True) (t_done_event tr) else t_done_event tr)\<rparr>) s3)"

section \<open>Queries and control\<close>

definition list_transfers :: "string option \<Rightarrow> sys \<Rightarrow> json list" where
  "list_transfers link_id s =
     map (\<lambda>t. JObj (transfer_to_dict s (transfers s t) None))
       (filter (\<lambda>t. case link_id of None \<Rightarrow> True | Some i \<Rightarrow> lower (t_link_id_hex (transfers s t)) = lower i)
         (dict_values (active_transfers (ses s))))"

definition get_state :: "string \<Rightarrow> sys \<Rightarrow> exn + tref" where
  "get_state tid s =
     (case dict_get (active_transfers (ses s)) tid of
        None \<Rightarrow> Inl (ResourceError (''unknown transfer: '' @ tid)) | Some t \<Rightarrow> Inr t)"

definition cancel_transfer :: "bool \<Rightarrow> tref \<Rightarrow> sys \<Rightarrow> sys" where
  "cancel_transfer loop_up t s =
     (let tr = transfers s t;
          s1 = (case t_resource tr of None \<Rightarrow> s | Some r \<Rightarrow> emit (Rns (CancelResource r)) s);
          s2 = unlink_opt (t_upload_temp_path tr) (unlink_opt (t_temp_path tr) s1);
          s3 = upd_transfer t (\<lambda>tr. (cancel_poller tr)\<lparr>t_status := ''CANCELLED'',
                 t_failure_reason := str_or (t_failure_reason tr) ''cancelled'', t_temp_path := None, t_upload_temp_path := None,
                 t_done_event := (if loop_up then map_option (\<lambda>_. True) (t_done_event tr) else t_done_event tr)\<rparr>) s2
      in emit (BridgeSession (s_id (ses s))
           (JObj ((''type'', JStr ''resource.failed'') # transfer_to_dict s3 (transfers s3 t) None))) s3)"

definition resource_cancel :: "bool \<Rightarrow> string \<Rightarrow> sys \<Rightarrow> (exn + fields) \<times> sys" where
  "resource_cancel loop_up tid s =
     (case get_state tid s of
        Inl x \<Rightarrow> (Inl x, s)
      | Inr t \<Rightarrow> (Inr [(''ok'', JBool True), (''transfer_id'', JStr tid)], cancel_transfer loop_up t s))"

definition in_flight :: "string list" where
  "in_flight = [''TRANSFERRING'', ''QUEUED'', ''ADVERTISED'', ''PENDING'', ''ASSEMBLING'', ''AWAITING_PROOF'']"

definition resource_delete :: "bool \<Rightarrow> string \<Rightarrow> sys \<Rightarrow> (exn + fields) \<times> sys" where
  "resource_delete loop_up tid s =
     (case get_state tid s of
        Inl x \<Rightarrow> (Inl x, s)
      | Inr t \<Rightarrow>
         (let s1 = (if t_status (transfers s t) \<in> set in_flight then cancel_transfer loop_up t s else s);
              s2 = unlink_opt (t_temp_path (transfers s1 t)) s1
          in (Inr [(''ok'', JBool True), (''transfer_id'', JStr tid)],
              upd_ses (\<lambda>x. x\<lparr>active_transfers := dict_pop tid (active_transfers x)\<rparr>) s2)))"

definition open_stream :: "string \<Rightarrow> sys \<Rightarrow> exn + string" where
  "open_stream tid s =
     (case get_state tid s of
        Inl x \<Rightarrow> Inl x
      | Inr t \<Rightarrow>
         (let tr = transfers s t in
          if t_direction tr \<noteq> ''in'' then Inl (ResourceError ''transfer is outbound; no downloadable file'')
          else (case t_temp_path tr of
            None \<Rightarrow> Inl (ResourceError ''transfer not complete'')
          | Some f \<Rightarrow>
              if t_status tr \<noteq> ''COMPLETE'' then Inl (ResourceError ''transfer not complete'')
              else if dict_get (res_files s) f = None then Inl (ResourceError ''temp file has expired'')
              else Inr f)))"

section \<open>Sweep and cleanup\<close>

text \<open>
  \<open>_sweep_once\<close> over the files of the resources directory; \<open>mtime\<close> is their modification time,
  \<open>None\<close> for one that has vanished meanwhile.
\<close>

definition sweep_once :: "(string \<Rightarrow> rat option) \<Rightarrow> rat \<Rightarrow> rat \<Rightarrow> 'a shared_scheme \<Rightarrow> nat \<times> 'a shared_scheme" where
  "sweep_once mtime now retention s =
     (let old = filter (\<lambda>f. case mtime f of None \<Rightarrow> False | Some m \<Rightarrow> retention < now - m) (dict_keys (res_files s))
      in (length old, fold unlink_file old s))"

definition cleanup_transfer :: "tref \<Rightarrow> sys \<Rightarrow> sys" where
  "cleanup_transfer t s =
     (let tr = transfers s t;
          s1 = (case t_resource tr of None \<Rightarrow> s | Some r \<Rightarrow> emit (Rns (CancelResource r)) s)
      in unlink_opt (t_upload_temp_path tr) (unlink_opt (t_temp_path tr)
           (upd_transfer t (\<lambda>tr. (cancel_poller tr)\<lparr>t_resource := None\<rparr>) s1)))"

definition resource_cleanup :: "sys \<Rightarrow> sys" where
  "resource_cleanup s =
     upd_ses (\<lambda>x. x\<lparr>active_transfers := []\<rparr>) (fold cleanup_transfer (dict_values (active_transfers (ses s))) s)"

section \<open>Lemmas\<close>

lemma unlink_file_frame [simp, frame_simps]:
  "entries (unlink_file f s) = entries s" "rlinks (unlink_file f s) = rlinks s"
  "transfers (unlink_file f s) = transfers s" "res_tags (unlink_file f s) = res_tags s"
  "store_paths (unlink_file f s) = store_paths s" "next_ref (unlink_file f s) = next_ref s"
  "res_files (unlink_file f s) = dict_pop f (res_files s)" "trace (unlink_file f s) = trace s @ [Unlink f]"
  by (simp_all add: unlink_file_def)

lemma unlink_file_ses [simp, frame_simps]: "ses (unlink_file f s) = ses s"
  by (simp add: unlink_file_def)

lemma unlink_opt_frame [simp, frame_simps]:
  "entries (unlink_opt p s) = entries s" "rlinks (unlink_opt p s) = rlinks s"
  "transfers (unlink_opt p s) = transfers s" "res_tags (unlink_opt p s) = res_tags s"
  "store_paths (unlink_opt p s) = store_paths s" "next_ref (unlink_opt p s) = next_ref s"
  by (simp_all add: unlink_opt_def split: option.split)

lemma unlink_opt_ses [simp, frame_simps]: "ses (unlink_opt p s) = ses s"
  by (simp add: unlink_opt_def split: option.split)

lemma unlink_opt_files [simp]:
  "dict_get (res_files (unlink_opt p s)) f = (if p = Some f then None else dict_get (res_files s) f)"
  "trace (unlink_opt p s) = trace s @ (case p of None \<Rightarrow> [] | Some f \<Rightarrow> [Unlink f])"
  by (simp_all add: unlink_opt_def split: option.split)

lemma set_transfer_frame [simp, frame_simps]:
  "entries (set_transfer i t s) = entries s" "rlinks (set_transfer i t s) = rlinks s"
  "transfers (set_transfer i t s) = transfers s" "trace (set_transfer i t s) = trace s"
  "res_files (set_transfer i t s) = res_files s" "res_tags (set_transfer i t s) = res_tags s"
  "store_paths (set_transfer i t s) = store_paths s" "next_ref (set_transfer i t s) = next_ref s"
  "ses (set_transfer i t s) = (ses s)\<lparr>active_transfers := dict_set i t (active_transfers (ses s))\<rparr>"
  by (simp_all add: set_transfer_def)

lemma add_transfer_frame:
  assumes "add_transfer tr s = (t, s')"
  shows "t = next_ref s" "next_ref s' = Suc t" "transfers s' = (transfers s)(t := tr)" "trace s' = trace s"
    "entries s' = entries s" "rlinks s' = rlinks s" "res_files s' = res_files s" "res_tags s' = res_tags s"
    "store_paths s' = store_paths s"
    "ses s' = (ses s)\<lparr>active_transfers := dict_set (t_id tr) t (active_transfers (ses s))\<rparr>"
  using assms by (auto simp: add_transfer_def Let_def)

lemma cancel_poller_fields [simp]:
  "t_id (cancel_poller tr) = t_id tr" "t_direction (cancel_poller tr) = t_direction tr"
  "t_status (cancel_poller tr) = t_status tr" "t_resource (cancel_poller tr) = t_resource tr"
  "t_temp_path (cancel_poller tr) = t_temp_path tr" "t_upload_temp_path (cancel_poller tr) = t_upload_temp_path tr"
  "t_failure_reason (cancel_poller tr) = t_failure_reason tr" "t_done_event (cancel_poller tr) = t_done_event tr"
  "t_poller (cancel_poller tr) \<noteq> Some True"
  by (auto simp: cancel_poller_def)

text \<open>Transfers sit under their own id, each id has one, and all are in the store.\<close>

definition transfers_ok :: "'a shared_scheme \<Rightarrow> session \<Rightarrow> bool" where
  "transfers_ok s x \<longleftrightarrow>
     dict_ok (active_transfers x) \<and>
     (\<forall>(i, t) \<in> set (active_transfers x). t_id (transfers s t) = i \<and> t < next_ref s)"

lemma transfers_okD:
  "transfers_ok s x \<Longrightarrow> dict_get (active_transfers x) i = Some t \<Longrightarrow> t_id (transfers s t) = i \<and> t < next_ref s"
  by (auto simp: transfers_ok_def dest!: dict_get_in_items)

lemma transfers_ok_add:
  assumes "transfers_ok s (ses s)" and "add_transfer tr s = (t, s')"
  shows "transfers_ok s' (ses s')"
  using assms(1) add_transfer_frame [OF assms(2)] dict_set_items [of "t_id tr" t "active_transfers (ses s)"]
  by (fastforce simp: transfers_ok_def)

text \<open>The transfer of a concluded resource has the id of its tag, or the fresh one.\<close>

definition concluded_id :: "string \<Rightarrow> rref \<Rightarrow> 'a shared_scheme \<Rightarrow> string" where
  "concluded_id fresh_tid r s = (case res_tags s r of None \<Rightarrow> fresh_tid | Some i \<Rightarrow> i)"

lemma concluded_transfer_props:
  assumes "concluded_transfer now ftid r dest s = (t, s')" and "transfers_ok s (ses s)"
    and "\<forall>t. dict_get (active_transfers (ses s)) (concluded_id ftid r s) = Some t \<longrightarrow> t_direction (transfers s t) = ''in''"
  shows "dict_get (active_transfers (ses s')) (concluded_id ftid r s) = Some t" "t_id (transfers s' t) = concluded_id ftid r s"
    "t_direction (transfers s' t) = ''in''" "trace s' = trace s" "store_paths s' = store_paths s"
    "res_files s' = res_files s" "s_id (ses s') = s_id (ses s)"
proof -
  consider (old) "dict_get (active_transfers (ses s)) (concluded_id ftid r s) = Some t" "s' = s"
    | (made) i tr where "add_transfer tr s = (t, s')" "t_id tr = concluded_id ftid r s" "t_direction tr = ''in''"
    using assms(1)
    by (auto simp: concluded_transfer_def concluded_id_def new_transfer_def Let_def split: option.splits)
  note cs = this
  show "dict_get (active_transfers (ses s')) (concluded_id ftid r s) = Some t"
    using cs by cases (auto dest: add_transfer_frame(10))
  show "t_id (transfers s' t) = concluded_id ftid r s"
    using cs assms(2) by cases (auto dest: add_transfer_frame(3) transfers_okD)
  show "t_direction (transfers s' t) = ''in''"
    using cs assms(3) by cases (auto dest: add_transfer_frame(3))
  show "trace s' = trace s" using cs by cases (auto dest: add_transfer_frame(4))
  show "store_paths s' = store_paths s" using cs by cases (auto dest: add_transfer_frame(9))
  show "res_files s' = res_files s" using cs by cases (auto dest: add_transfer_frame(7))
  show "s_id (ses s') = s_id (ses s)" using cs by cases (auto dest: add_transfer_frame(10))
qed

section \<open>Receiving: properties\<close>

text \<open>C18. A received resource can be downloaded: when RNS reports it complete and its bytes can be
  copied, the transfer's file holds exactly those bytes, the download route finds it, and the
  session is told, with the bytes inlined in base64 if and only if they fit the limit.\<close>

theorem received_resource_downloadable:
  assumes "transfers_ok s (ses s)" and "rv_status v = RComplete" and "rv_content v = Inr data"
    and "\<forall>t. dict_get (active_transfers (ses s)) (concluded_id ftid r s) = Some t \<longrightarrow> t_direction (transfers s t) = ''in''"
    and "s' = on_receive_concluded rc now ftid v r dest s"
  shows "\<exists>f ev b64. open_stream (concluded_id ftid r s) s' = Inr f \<and> dict_get (res_files s') f = Some data \<and>
    trace s' = trace s @ [WriteFile f data, HubSession (s_id (ses s)) ev] \<and>
    ev_type ev = Some ''resource.completed'' \<and> ev_field ''total_size'' ev = JInt (int (length data)) \<and>
    ev_field ''data_b64'' ev = (if int (length data) \<le> max_inline_bytes rc then JStr b64 else JNull) \<and>
    b64decode b64 = Inr data"
proof -
  obtain t s1 where c: "concluded_transfer now ftid r dest s = (t, s1)" by fastforce
  note p = concluded_transfer_props [OF c assms(1,4)]
  let ?f = "resource_file s1 (concluded_id ftid r s)"
  have "open_stream (concluded_id ftid r s) s' = Inr ?f \<and> dict_get (res_files s') ?f = Some data"
    using p assms(2,3) by (simp add: assms(5) on_receive_concluded_def c Let_def store_received_def open_stream_def
        get_state_def resource_file_def)
  moreover have "\<exists>ev. trace s' = trace s @ [WriteFile ?f data, HubSession (s_id (ses s)) ev] \<and>
      ev_type ev = Some ''resource.completed'' \<and> ev_field ''total_size'' ev = JInt (int (length data)) \<and>
      ev_field ''data_b64'' ev = (if int (length data) \<le> max_inline_bytes rc then JStr (b64encode data) else JNull)"
    using p assms(2,3) by (simp add: assms(5) on_receive_concluded_def c Let_def store_received_def
        completed_event_def transfer_to_dict_def resource_file_def)
  ultimately show ?thesis using b64decode_b64encode [of data] by blast
qed

text \<open>A resource that ends in any other way is reported as failed with a reason, and the download
  route refuses it.\<close>

theorem failed_resource_reported:
  assumes "transfers_ok s (ses s)" and "rv_status v \<noteq> RComplete"
    and "\<forall>t. dict_get (active_transfers (ses s)) (concluded_id ftid r s) = Some t \<longrightarrow> t_direction (transfers s t) = ''in''"
    and "s' = on_receive_concluded rc now ftid v r dest s"
  shows "\<exists>ev reason. trace s' = trace s @ [HubSession (s_id (ses s)) ev] \<and> ev_type ev = Some ''resource.failed'' \<and>
    ev_field ''failure_reason'' ev = JStr reason \<and> reason \<noteq> [] \<and>
    ev_field ''transfer_id'' ev = JStr (concluded_id ftid r s) \<and>
    open_stream (concluded_id ftid r s) s' = Inl (ResourceError ''transfer not complete'')"
proof -
  obtain t s1 where c: "concluded_transfer now ftid r dest s = (t, s1)" by fastforce
  note p = concluded_transfer_props [OF c assms(1,3)]
  have st: "resource_status_str (rv_status v) \<noteq> []" "resource_status_str (rv_status v) \<noteq> ''COMPLETE''"
    using assms(2) by (cases "rv_status v"; simp)+
  have "\<exists>reason. str_or (t_failure_reason (transfers s1 t)) (resource_status_str (rv_status v)) = Some reason \<and> reason \<noteq> []"
    using st(1) by (simp add: str_or_def split: option.split)
  then obtain reason where reason: "str_or (t_failure_reason (transfers s1 t)) (resource_status_str (rv_status v)) = Some reason"
    "reason \<noteq> []" by blast
  have "\<exists>ev. trace s' = trace s @ [HubSession (s_id (ses s)) ev] \<and> ev_type ev = Some ''resource.failed'' \<and>
      ev_field ''failure_reason'' ev = JStr reason \<and> ev_field ''transfer_id'' ev = JStr (concluded_id ftid r s)"
    using p assms(2) reason
    by (simp add: assms(4) on_receive_concluded_def c Let_def transfer_to_dict_def jopt_def)
  moreover have "open_stream (concluded_id ftid r s) s' = Inl (ResourceError ''transfer not complete'')"
    using p assms(2) st(2)
    by (auto simp: assms(4) on_receive_concluded_def c Let_def open_stream_def get_state_def split: option.split)
  ultimately show ?thesis using reason(2) by blast
qed

text \<open>When the bytes cannot be copied, the session is nevertheless told \<open>resource.completed\<close>, with
  a download address that the download route refuses.\<close>

theorem failed_copy_reported_completed:
  assumes "transfers_ok s (ses s)" and "rv_status v = RComplete" and "rv_content v = Inl msg"
    and "\<forall>t. dict_get (active_transfers (ses s)) (concluded_id ftid r s) = Some t \<longrightarrow> t_direction (transfers s t) = ''in''"
    and "s' = on_receive_concluded rc now ftid v r dest s"
  shows "\<exists>ev. trace s' = trace s @ [HubSession (s_id (ses s)) ev] \<and> ev_type ev = Some ''resource.completed'' \<and>
    ev_field ''status'' ev = JStr ''FAILED'' \<and>
    ev_field ''download_url'' ev = JStr (''/resources/'' @ concluded_id ftid r s @ ''/data'') \<and>
    open_stream (concluded_id ftid r s) s' = Inl (ResourceError ''transfer not complete'')"
proof -
  obtain t s1 where c: "concluded_transfer now ftid r dest s = (t, s1)" by fastforce
  note p = concluded_transfer_props [OF c assms(1,4)]
  have "open_stream (concluded_id ftid r s) s' = Inl (ResourceError ''transfer not complete'')"
    using p assms(2,3)
    by (auto simp: assms(5) on_receive_concluded_def c Let_def open_stream_def get_state_def store_received_def split: option.split)
  then show ?thesis
    using p assms(2,3)
    by (simp add: assms(5) on_receive_concluded_def c Let_def store_received_def completed_event_def transfer_to_dict_def)
qed

section \<open>Progress: properties\<close>

text \<open>A sequence of progress reports on one transfer, and those of them that are emitted.\<close>

fun report_progress :: "resources_config \<Rightarrow> tref \<Rightarrow> (rat \<times> res_view) list \<Rightarrow> sys \<Rightarrow> sys" where
  "report_progress rc t [] s = s"
| "report_progress rc t ((now, v) # calls) s =
     report_progress rc t calls (emit_progress_if_due rc now t (upd_transfer t (progress_update v) s))"

fun emitted :: "resources_config \<Rightarrow> (rat \<times> res_view) list \<Rightarrow> transfer \<Rightarrow> (rat \<times> rat) list" where
  "emitted rc [] tr = []"
| "emitted rc ((now, v) # calls) tr =
     (let tr' = progress_update v tr in
      if progress_due rc now tr'
      then (now, t_progress tr' * 100) #
           emitted rc calls (tr'\<lparr>t_last_emit_ts := now, t_last_emit_pct := t_progress tr' * 100\<rparr>)
      else emitted rc calls tr')"

definition is_progress :: "effect \<Rightarrow> bool" where
  "is_progress eff = (case eff of HubSession _ j \<Rightarrow> ev_type j = Some ''resource.progress'' | _ \<Rightarrow> False)"

lemma progress_update_last [simp]:
  "t_last_emit_ts (progress_update v tr) = t_last_emit_ts tr" "t_last_emit_pct (progress_update v tr) = t_last_emit_pct tr"
  by (simp_all add: progress_update_def Let_def)

text \<open>Every emission keeps its distance to the one before.\<close>

definition apart :: "resources_config \<Rightarrow> rat \<times> rat \<Rightarrow> rat \<times> rat \<Rightarrow> bool" where
  "apart rc a b \<longleftrightarrow>
     of_int (progress_throttle_ms rc) / 1000 \<le> fst b - fst a \<and> (0 \<le> snd a \<longrightarrow> progress_throttle_pct rc \<le> \<bar>snd b - snd a\<bar>)"

fun all_apart :: "resources_config \<Rightarrow> rat \<times> rat \<Rightarrow> (rat \<times> rat) list \<Rightarrow> bool" where
  "all_apart rc a [] = True"
| "all_apart rc a (b # bs) = (apart rc a b \<and> all_apart rc b bs)"

lemma emitted_apart: "all_apart rc (t_last_emit_ts tr, t_last_emit_pct tr) (emitted rc calls tr)"
proof (induction rc calls tr rule: emitted.induct)
  case (2 rc now v calls tr)
  then show ?case
    by (cases "progress_due rc now (progress_update v tr)") (auto simp: Let_def apart_def progress_due_def)
qed simp

lemma report_progress_trace:
  "\<exists>es. trace (report_progress rc t calls s) = trace s @ es \<and> length es = length (emitted rc calls (transfers s t)) \<and>
     (\<forall>e \<in> set es. is_progress e)"
proof (induction rc t calls s rule: report_progress.induct)
  case (2 rc t now v calls s)
  let ?s1 = "upd_transfer t (progress_update v) s"
  let ?s2 = "emit_progress_if_due rc now t ?s1"
  obtain es where es: "trace (report_progress rc t calls ?s2) = trace ?s2 @ es"
    "length es = length (emitted rc calls (transfers ?s2 t))" "\<forall>e \<in> set es. is_progress e"
    using 2 by auto
  show ?case
  proof (cases "progress_due rc now (progress_update v (transfers s t))")
    case True
    then obtain j where j: "trace ?s2 = trace s @ [HubSession (s_id (ses s)) j]" "ev_type j = Some ''resource.progress''"
      by (simp add: emit_progress_if_due_def Let_def)
    have "transfers ?s2 t = (progress_update v (transfers s t))
        \<lparr>t_last_emit_ts := now, t_last_emit_pct := t_progress (progress_update v (transfers s t)) * 100\<rparr>"
      using True by (simp add: emit_progress_if_due_def Let_def)
    with es j True show ?thesis
      by (intro exI [of _ "HubSession (s_id (ses s)) j # es"]) (auto simp: Let_def is_progress_def)
  next
    case False
    then have "?s2 = ?s1" by (simp add: emit_progress_if_due_def)
    with es False show ?thesis by (intro exI [of _ es]) (simp add: Let_def)
  qed
qed simp

text \<open>C21. Progress is throttled: however often RNS reports or the poller runs, two progress events of
  one transfer in a row are at least the configured time apart and differ by at least the
  configured percentage, and every event in the trace is one of these.\<close>

theorem progress_throttled:
  "all_apart rc (t_last_emit_ts (transfers s t), t_last_emit_pct (transfers s t)) (emitted rc calls (transfers s t)) \<and>
   (\<exists>es. trace (report_progress rc t calls s) = trace s @ es \<and> length es = length (emitted rc calls (transfers s t)) \<and>
     list_all is_progress es)"
  using emitted_apart report_progress_trace by (metis list_all_iff)

section \<open>Sending: properties\<close>

lemma send_on_link_outcome:
  assumes "send_on_link now tid ans l link_id src metadata s = (r, s')"
    and "dict_get (active_transfers (ses s)) tid = None"
    and "src = SrcBytes b \<or> (\<exists>f. src = SrcPath f \<and> dict_get (res_files s) f = Some b)"
  shows "(\<exists>m. r = Inl (ResourceError m) \<and> active_transfers (ses s') = active_transfers (ses s) \<and> trace s' = trace s) \<or>
    (\<exists>t rr j. r = Inr t \<and> dict_get (active_transfers (ses s')) tid = Some t \<and> t_resource (transfers s' t) = Some rr \<and>
       t_total_size (transfers s' t) = int (length b) \<and>
       trace s' = trace s @ [Rns (NewResource rr l), HubSession (s_id (ses s)) j] \<and>
       ev_type j = Some ''resource.started'' \<and> ev_field ''transfer_id'' j = JStr tid)"
proof -
  let ?tr = "(new_transfer tid (s_id (ses s)) ''out'' link_id now)\<lparr>t_metadata := metadata, t_done_event := Some False\<rparr>"
  obtain t s1 where add: "add_transfer ?tr s = (t, s1)" by fastforce
  note a = add_transfer_frame [OF add]
  have pop: "dict_pop tid (dict_set tid t (active_transfers (ses s))) = active_transfers (ses s)"
    using assms(2) dict_set_fresh [of tid "active_transfers (ses s)" t]
    by (force simp: dict_get_None_iff dict_keys_def dict_pop_def AList.delete_eq intro: filter_True)
  have id: "t_id ?tr = tid" by (simp add: new_transfer_def)
  obtain s2 where s2: "size_source src t s1 = Inr s2" "ses s2 = ses s1" "trace s2 = trace s1"
    "t_total_size (transfers s2 t) = int (length b)" "t_id (transfers s2 t) = tid"
    using assms(3) a id by (auto simp: size_source_def)
  show ?thesis
  proof (cases ans)
    case (Inl m)
    with assms(1) s2 a id pop show ?thesis by (auto simp: send_on_link_def Let_def add)
  next
    case (Inr rst)
    obtain rr st where "rst = (rr, st)" by fastforce
    with Inr assms(1) s2 a id show ?thesis by (auto simp: send_on_link_def Let_def add transfer_to_dict_def)
  qed
qed

text \<open>A send needs an active link of this session, and a send that is refused leaves no transfer
  behind and tells nobody; one that is accepted is filed under its id and announced.\<close>

theorem resource_send_outcome:
  assumes "resource_send now tid ans link_id src metadata s = (r, s')"
    and "dict_get (active_transfers (ses s)) tid = None"
    and "src = SrcBytes b \<or> (\<exists>f. src = SrcPath f \<and> dict_get (res_files s) f = Some b)"
  shows "(\<exists>m. r = Inl (ResourceError m) \<and> active_transfers (ses s') = active_transfers (ses s) \<and> trace s' = trace s) \<or>
    (\<exists>t h e l rr j. r = Inr t \<and> fromhex (lower link_id) = Some h \<and> dict_get (open_links (ses s)) h = Some e \<and>
       le_link (entries s e) = Some l \<and> rl_status (rlinks s l) = LActive \<and>
       dict_get (active_transfers (ses s')) tid = Some t \<and> t_resource (transfers s' t) = Some rr \<and>
       t_total_size (transfers s' t) = int (length b) \<and>
       trace s' = trace s @ [Rns (NewResource rr l), HubSession (s_id (ses s)) j] \<and>
       ev_type j = Some ''resource.started'' \<and> ev_field ''transfer_id'' j = JStr tid)"
proof (cases "\<exists>h e l. fromhex (lower link_id) = Some h \<and> dict_get (open_links (ses s)) h = Some e \<and>
    le_link (entries s e) = Some l \<and> rl_status (rlinks s l) = LActive")
  case True
  then obtain h e l where l: "fromhex (lower link_id) = Some h" "dict_get (open_links (ses s)) h = Some e"
    "le_link (entries s e) = Some l" "rl_status (rlinks s l) = LActive" by blast
  with assms(1) have "send_on_link now tid ans l link_id src metadata s = (r, s')"
    by (simp add: resource_send_def)
  from send_on_link_outcome [OF this assms(2,3)] l show ?thesis by blast
next
  case False
  with assms(1) show ?thesis by (auto simp: resource_send_def split: option.splits if_splits)
qed

section \<open>Cancellation: properties\<close>

lemma cancel_transfer_frame [simp]:
  "ses (cancel_transfer up t s) = ses s" "next_ref (cancel_transfer up t s) = next_ref s"
  "res_tags (cancel_transfer up t s) = res_tags s" "store_paths (cancel_transfer up t s) = store_paths s"
  "entries (cancel_transfer up t s) = entries s" "rlinks (cancel_transfer up t s) = rlinks s"
  by (simp_all add: cancel_transfer_def Let_def split: option.split)

lemma cancel_transfer_transfers:
  "transfers (cancel_transfer up t s) = (transfers s)(t := (cancel_poller (transfers s t))\<lparr>t_status := ''CANCELLED'',
     t_failure_reason := str_or (t_failure_reason (transfers s t)) ''cancelled'', t_temp_path := None, t_upload_temp_path := None,
     t_done_event := (if up then map_option (\<lambda>_. True) (t_done_event (transfers s t)) else t_done_event (transfers s t))\<rparr>)"
  by (simp add: cancel_transfer_def Let_def split: option.split)

lemma cancel_transfer_trace:
  "\<exists>ev. trace (cancel_transfer up t s) = trace s @
     (case t_resource (transfers s t) of None \<Rightarrow> [] | Some r \<Rightarrow> [Rns (CancelResource r)]) @
     (case t_temp_path (transfers s t) of None \<Rightarrow> [] | Some f \<Rightarrow> [Unlink f]) @
     (case t_upload_temp_path (transfers s t) of None \<Rightarrow> [] | Some f \<Rightarrow> [Unlink f]) @ [BridgeSession (s_id (ses s)) ev] \<and>
   ev_type ev = Some ''resource.failed'' \<and> ev_field ''status'' ev = JStr ''CANCELLED'' \<and>
   ev_field ''transfer_id'' ev = JStr (t_id (transfers s t))"
  by (simp add: cancel_transfer_def Let_def transfer_to_dict_def split: option.split)

lemma cancel_transfer_files:
  "dict_get (res_files (cancel_transfer up t s)) f =
     (if t_temp_path (transfers s t) = Some f \<or> t_upload_temp_path (transfers s t) = Some f then None
      else dict_get (res_files s) f)"
  by (auto simp: cancel_transfer_def Let_def split: option.split)

text \<open>C19. Cancelling a transfer stops it for good on this side: RNS is told to cancel the resource, both
  of its files are gone while every other file stays, a waiting send is woken, the poller no longer
  runs, and the session is told that the transfer failed as \<open>CANCELLED\<close>.\<close>

theorem resource_cancel_effects:
  assumes "dict_get (active_transfers (ses s)) tid = Some t" and "tr = transfers s t"
    and "resource_cancel True tid s = (res, s')"
  shows "res = Inr [(''ok'', JBool True), (''transfer_id'', JStr tid)] \<and>
    (\<forall>r. t_resource tr = Some r \<longrightarrow> Rns (CancelResource r) \<in> set (trace s')) \<and>
    (\<forall>f. dict_get (res_files s') f =
      (if t_temp_path tr = Some f \<or> t_upload_temp_path tr = Some f then None else dict_get (res_files s) f)) \<and>
    t_status (transfers s' t) = ''CANCELLED'' \<and> t_done_event (transfers s' t) \<noteq> Some False \<and>
    t_poller (transfers s' t) \<noteq> Some True \<and>
    (\<exists>ev. last (trace s') = BridgeSession (s_id (ses s)) ev \<and> ev_type ev = Some ''resource.failed'' \<and>
          ev_field ''status'' ev = JStr ''CANCELLED'')"
proof -
  have s': "s' = cancel_transfer True t s" and res: "res = Inr [(''ok'', JBool True), (''transfer_id'', JStr tid)]"
    using assms by (auto simp: resource_cancel_def get_state_def)
  obtain ev where ev: "trace s' = trace s @
     (case t_resource tr of None \<Rightarrow> [] | Some r \<Rightarrow> [Rns (CancelResource r)]) @
     (case t_temp_path tr of None \<Rightarrow> [] | Some f \<Rightarrow> [Unlink f]) @
     (case t_upload_temp_path tr of None \<Rightarrow> [] | Some f \<Rightarrow> [Unlink f]) @ [BridgeSession (s_id (ses s)) ev]"
    "ev_type ev = Some ''resource.failed''" "ev_field ''status'' ev = JStr ''CANCELLED''"
    using cancel_transfer_trace [of True t s] s' assms(2) by auto
  have "\<forall>r. t_resource tr = Some r \<longrightarrow> Rns (CancelResource r) \<in> set (trace s')"
    by (simp add: ev(1))
  moreover have "last (trace s') = BridgeSession (s_id (ses s)) ev"
    by (simp add: ev(1))
  ultimately show ?thesis
    using ev(2,3) res assms(2)
    by (auto simp: s' cancel_transfer_files cancel_transfer_transfers simp del: transfer.simps(20))
qed

text \<open>C39. A received transfer that is deleted while it runs comes back: the deletion cancels the RNS
  resource, RNS concludes it because of that, and the conclusion files a transfer of the same id
  in the table again and reports a second failure.\<close>

theorem deleted_transfer_comes_back:
  assumes "transfers_ok s (ses s)" and "dict_get (active_transfers (ses s)) tid = Some t" and "res_tags s r = Some tid"
    and "t_status (transfers s t) \<in> set in_flight" and "resource_delete up tid s = (res, s1)"
    and "rv_status v \<noteq> RComplete" and "s2 = on_receive_concluded rc now ftid v r dest s1"
  shows "dict_get (active_transfers (ses s1)) tid = None \<and>
    (\<exists>ev. BridgeSession (s_id (ses s)) ev \<in> set (trace s1) \<and> ev_type ev = Some ''resource.failed'' \<and>
          ev_field ''transfer_id'' ev = JStr tid) \<and>
    dict_get (active_transfers (ses s2)) tid \<noteq> None \<and>
    (\<exists>ev. trace s2 = trace s1 @ [HubSession (s_id (ses s)) ev] \<and> ev_type ev = Some ''resource.failed'' \<and>
          ev_field ''transfer_id'' ev = JStr tid)"
proof -
  let ?c = "cancel_transfer up t s"
  have tid: "t_id (transfers s t) = tid" using transfers_okD [OF assms(1,2)] by simp
  have s1: "s1 = upd_ses (\<lambda>x. x\<lparr>active_transfers := dict_pop tid (active_transfers x)\<rparr>) ?c"
    using assms(2,4,5)
    by (simp add: resource_delete_def get_state_def Let_def cancel_transfer_transfers unlink_opt_def)
  have gone: "dict_get (active_transfers (ses s1)) tid = None" and tag: "res_tags s1 r = Some tid"
    and sid: "s_id (ses s1) = s_id (ses s)"
    using assms(3) by (simp_all add: s1)
  obtain ev where ev: "BridgeSession (s_id (ses s)) ev \<in> set (trace s1)" "ev_type ev = Some ''resource.failed''"
    "ev_field ''transfer_id'' ev = JStr tid"
    using cancel_transfer_trace [of up t s] tid that by (fastforce simp: s1)
  obtain t2 s3 where c: "concluded_transfer now ftid r dest s1 = (t2, s3)" by fastforce
  obtain tr where add: "add_transfer tr s1 = (t2, s3)" "t_id tr = tid"
    using c tag gone by (auto simp: concluded_transfer_def new_transfer_def Let_def)
  note a = add_transfer_frame [OF add(1)]
  have "dict_get (active_transfers (ses s2)) tid \<noteq> None \<and>
    (\<exists>ev. trace s2 = trace s1 @ [HubSession (s_id (ses s)) ev] \<and> ev_type ev = Some ''resource.failed'' \<and>
          ev_field ''transfer_id'' ev = JStr tid)"
    using a add(2) assms(6) sid
    by (simp add: assms(7) on_receive_concluded_def c Let_def transfer_to_dict_def)
  with gone ev show ?thesis by blast
qed

section \<open>Cleanup and sweep: properties\<close>

lemma cleanup_transfer_frame [simp]:
  "ses (cleanup_transfer t s) = ses s" "next_ref (cleanup_transfer t s) = next_ref s"
  "entries (cleanup_transfer t s) = entries s" "rlinks (cleanup_transfer t s) = rlinks s"
  "transfers (cleanup_transfer t s) = (transfers s)(t := (cancel_poller (transfers s t))\<lparr>t_resource := None\<rparr>)"
  "trace (cleanup_transfer t s) = trace s @
     (case t_resource (transfers s t) of None \<Rightarrow> [] | Some r \<Rightarrow> [Rns (CancelResource r)]) @
     (case t_temp_path (transfers s t) of None \<Rightarrow> [] | Some f \<Rightarrow> [Unlink f]) @
     (case t_upload_temp_path (transfers s t) of None \<Rightarrow> [] | Some f \<Rightarrow> [Unlink f])"
  "dict_get (res_files (cleanup_transfer t s)) f =
     (if t_temp_path (transfers s t) = Some f \<or> t_upload_temp_path (transfers s t) = Some f then None
      else dict_get (res_files s) f)"
  by (auto simp: cleanup_transfer_def Let_def split: option.split)

lemma fold_cleanup_frame [simp]:
  "ses (fold cleanup_transfer ts s) = ses s" "entries (fold cleanup_transfer ts s) = entries s"
  "rlinks (fold cleanup_transfer ts s) = rlinks s"
  by (induction ts arbitrary: s) simp_all

lemma fold_cleanup_trace: "\<exists>es. trace (fold cleanup_transfer ts s) = trace s @ es"
proof (induction ts arbitrary: s)
  case (Cons u ts)
  from Cons.IH [of "cleanup_transfer u s"] show ?case by auto
qed simp

lemma fold_cleanup_cancels:
  "t \<in> set ts \<Longrightarrow> t_resource (transfers s t) = Some r \<Longrightarrow>
   Rns (CancelResource r) \<in> set (trace (fold cleanup_transfer ts s))"
proof (induction ts arbitrary: s)
  case (Cons u ts)
  show ?case
  proof (cases "u = t")
    case True
    then have "Rns (CancelResource r) \<in> set (trace (cleanup_transfer u s))" using Cons.prems by simp
    with fold_cleanup_trace [of ts "cleanup_transfer u s"] show ?thesis by auto
  next
    case False
    with Cons show ?thesis by simp
  qed
qed simp

lemma fold_cleanup_keeps_gone:
  "dict_get (res_files s) f = None \<Longrightarrow> dict_get (res_files (fold cleanup_transfer ts s)) f = None"
  by (induction ts arbitrary: s) simp_all

lemma fold_cleanup_files:
  "t \<in> set ts \<Longrightarrow> t_temp_path (transfers s t) = Some f \<or> t_upload_temp_path (transfers s t) = Some f \<Longrightarrow>
   dict_get (res_files (fold cleanup_transfer ts s)) f = None"
proof (induction ts arbitrary: s)
  case (Cons u ts)
  show ?case
  proof (cases "u = t")
    case True
    with Cons.prems show ?thesis by (auto intro: fold_cleanup_keeps_gone)
  next
    case False
    with Cons show ?thesis by simp
  qed
qed simp

text \<open>C20. The cleanup of a session leaves none of its transfers running and none of their files behind:
  every resource in flight is cancelled, every file removed, the table empty.\<close>

theorem resource_cleanup_complete:
  assumes "dict_get (active_transfers (ses s)) tid = Some t" and "tr = transfers s t" and "s' = resource_cleanup s"
  shows "(\<forall>r. t_resource tr = Some r \<longrightarrow> Rns (CancelResource r) \<in> set (trace s')) \<and>
    (\<forall>f. t_temp_path tr = Some f \<or> t_upload_temp_path tr = Some f \<longrightarrow> dict_get (res_files s') f = None) \<and>
    active_transfers (ses s') = []"
proof -
  have "t \<in> set (dict_values (active_transfers (ses s)))" using assms(1) by (rule dict_get_in_values)
  from fold_cleanup_cancels [OF this, of s] fold_cleanup_files [OF this, of s] show ?thesis
    by (simp add: assms(2,3) resource_cleanup_def)
qed

interpretation resource_hook: cleanup_hook resource_cleanup "\<lambda>x. active_transfers x = []"
  by unfold_locales
    (auto simp: hook_ok_def resource_cleanup_def shrinks_def same_person_def trace_ext_def fold_cleanup_trace)

lemma fold_unlink [simp]:
  "dict_get (res_files (fold unlink_file fs s)) f = (if f \<in> set fs then None else dict_get (res_files s) f)"
  by (induction fs arbitrary: s) auto

text \<open>C22. A sweep removes exactly the files that are older than the retention period and reports how
  many; every other file stays as it is.\<close>

theorem sweep_removes_exactly_expired:
  assumes "sweep_once mtime now retention s = (n, s')" and "dict_ok (res_files s)"
  shows "(\<forall>f. dict_get (res_files s') f =
      (if \<exists>m. mtime f = Some m \<and> retention < now - m then None else dict_get (res_files s) f)) \<and>
    n = card {f. dict_get (res_files s) f \<noteq> None \<and> (\<exists>m. mtime f = Some m \<and> retention < now - m)}"
proof -
  let ?old = "\<lambda>f. case mtime f of None \<Rightarrow> False | Some m \<Rightarrow> retention < now - m"
  let ?fs = "filter ?old (dict_keys (res_files s))"
  have s': "s' = fold unlink_file ?fs s" and n: "n = length ?fs"
    using assms(1) by (simp_all add: sweep_once_def Let_def)
  have old: "?old f \<longleftrightarrow> (\<exists>m. mtime f = Some m \<and> retention < now - m)" for f
    by (simp split: option.split)
  have "distinct ?fs" using assms(2) by (simp add: dict_ok_def dict_keys_def)
  then have "n = card (set ?fs)" unfolding n by (rule distinct_card [symmetric])
  moreover have "set ?fs = {f. dict_get (res_files s) f \<noteq> None \<and> (\<exists>m. mtime f = Some m \<and> retention < now - m)}"
    by (auto simp: old dict_get_None_iff)
  moreover have "dict_get (res_files s') f =
      (if \<exists>m. mtime f = Some m \<and> retention < now - m then None else dict_get (res_files s) f)" for f
    using dict_get_None_iff [of "res_files s" f] by (auto simp: s' old)
  ultimately show ?thesis by simp
qed

lemma swept_file_expired:
  assumes "dict_get (active_transfers (ses s)) tid = Some t" and "t_direction (transfers s t) = ''in''"
    and "t_status (transfers s t) = ''COMPLETE''" and "t_temp_path (transfers s t) = Some f" and "dict_get (res_files s) f = None"
  shows "open_stream tid s = Inl (ResourceError ''temp file has expired'')"
  using assms by (simp add: open_stream_def get_state_def Let_def)

section \<open>Witnesses\<close>

definition sample_view :: res_view where
  "sample_view = \<lparr>rv_status = RTransferring, rv_total = 2, rv_progress = Some (1 / 2), rv_metadata = JNull, rv_content = Inr [7, 8]\<rparr>"

definition receiving_sys :: sys where
  "receiving_sys = on_receive_started 10 ''t1'' sample_view 5 (replicate 16 9) sample_sys"

lemma receiving_sys_simps:
  "active_transfers (ses receiving_sys) = [(''t1'', 0)]" "res_tags receiving_sys 5 = Some ''t1''"
  "t_id (transfers receiving_sys 0) = ''t1''" "t_status (transfers receiving_sys 0) = ''TRANSFERRING''"
  "t_resource (transfers receiving_sys 0) = Some 5" "t_direction (transfers receiving_sys 0) = ''in''"
  "next_ref receiving_sys = 1"
  by (simp_all add: receiving_sys_def on_receive_started_def add_transfer_def set_transfer_def Let_def sample_sys_simps
      new_session_def new_transfer_def sample_view_def dict_set_def)

lemma receiving_sys_ok: "transfers_ok receiving_sys (ses receiving_sys)"
  by (simp add: transfers_ok_def dict_ok_def receiving_sys_simps)

lemma receiving_lookup: "dict_get (active_transfers (ses receiving_sys)) ''t1'' = Some 0"
  by (simp add: receiving_sys_simps dict_get_def)

lemma receiving_concluded:
  "concluded_id ftid 5 receiving_sys = ''t1''"
  "\<forall>t. dict_get (active_transfers (ses receiving_sys)) (concluded_id ftid 5 receiving_sys) = Some t \<longrightarrow>
       t_direction (transfers receiving_sys t) = ''in''"
  by (simp_all add: concluded_id_def receiving_sys_simps dict_get_def)

theorem received_resource_downloadable_witness:
  "\<exists>s' f. s' = on_receive_concluded resources_default 20 ''x'' (sample_view\<lparr>rv_status := RComplete\<rparr>) 5 (replicate 16 9) receiving_sys \<and>
     open_stream ''t1'' s' = Inr f \<and> dict_get (res_files s') f = Some [7, 8]"
proof -
  have "rv_status (sample_view\<lparr>rv_status := RComplete\<rparr>) = RComplete"
    "rv_content (sample_view\<lparr>rv_status := RComplete\<rparr>) = Inr [7, 8]" by (simp_all add: sample_view_def)
  from received_resource_downloadable [OF receiving_sys_ok this receiving_concluded(2) refl] show ?thesis
    unfolding receiving_concluded(1) by blast
qed

theorem failed_resource_reported_witness:
  "\<exists>s' ev. s' = on_receive_concluded resources_default 20 ''x'' (sample_view\<lparr>rv_status := RCorrupt\<rparr>) 5 (replicate 16 9) receiving_sys \<and>
     trace s' = trace receiving_sys @ [HubSession (s_id (ses receiving_sys)) ev] \<and> ev_type ev = Some ''resource.failed''"
proof -
  have "rv_status (sample_view\<lparr>rv_status := RCorrupt\<rparr>) \<noteq> RComplete" by (simp add: sample_view_def)
  from failed_resource_reported [OF receiving_sys_ok this receiving_concluded(2) refl] show ?thesis by blast
qed

theorem failed_copy_reported_completed_witness:
  "\<exists>s' ev. s' = on_receive_concluded resources_default 20 ''x'' (sample_view\<lparr>rv_status := RComplete, rv_content := Inl ''disk full''\<rparr>)
       5 (replicate 16 9) receiving_sys \<and>
     trace s' = trace receiving_sys @ [HubSession (s_id (ses receiving_sys)) ev] \<and>
     ev_type ev = Some ''resource.completed'' \<and> ev_field ''status'' ev = JStr ''FAILED''"
proof -
  have "rv_status (sample_view\<lparr>rv_status := RComplete, rv_content := Inl ''disk full''\<rparr>) = RComplete"
    "rv_content (sample_view\<lparr>rv_status := RComplete, rv_content := Inl ''disk full''\<rparr>) = Inl ''disk full''"
    by (simp_all add: sample_view_def)
  from failed_copy_reported_completed [OF receiving_sys_ok this receiving_concluded(2) refl] show ?thesis by blast
qed

theorem resource_send_outcome_witness:
  "\<exists>t s'. resource_send 10 ''t1'' (Inr (5, RQueued)) (bytes_hex (replicate 16 9)) (SrcBytes [1, 2]) JNull linked_sys = (Inr t, s') \<and>
     t_total_size (transfers s' t) = 2 \<and> t_resource (transfers s' t) = Some 5"
proof -
  obtain r s' where run: "resource_send 10 ''t1'' (Inr (5, RQueued)) (bytes_hex (replicate 16 9)) (SrcBytes [1, 2]) JNull linked_sys = (r, s')"
    by fastforce
  have "\<not> is_error r"
    using run by (auto simp: resource_send_def linked_sys_simps linked_sys_simps(3) [simplified] dict_get_def sample_entry_def active_link_def send_on_link_def
        size_source_def Let_def split: prod.splits)
  moreover have "dict_get (active_transfers (ses linked_sys)) ''t1'' = None"
    by (simp add: linked_sys_def sample_sys_simps new_session_def)
  from resource_send_outcome [OF run this, of "[1, 2]"]
  have "(\<exists>m. r = Inl (ResourceError m)) \<or> (\<exists>t. r = Inr t \<and> t_total_size (transfers s' t) = 2)" by auto
  ultimately obtain t where t: "r = Inr t" "t_total_size (transfers s' t) = 2" by auto
  moreover have "t_resource (transfers s' t) = Some 5"
    using run t(1) by (auto simp: resource_send_def linked_sys_simps linked_sys_simps(3) [simplified] dict_get_def sample_entry_def active_link_def
        send_on_link_def size_source_def Let_def split: prod.splits)
  ultimately show ?thesis using run by blast
qed

theorem resource_cancel_effects_witness:
  "\<exists>res s'. resource_cancel True ''t1'' receiving_sys = (res, s') \<and> Rns (CancelResource 5) \<in> set (trace s') \<and>
     t_status (transfers s' 0) = ''CANCELLED''"
proof -
  obtain res s' where run: "resource_cancel True ''t1'' receiving_sys = (res, s')" by fastforce
  from resource_cancel_effects [OF receiving_lookup refl run] run receiving_sys_simps(5) show ?thesis by blast
qed

theorem deleted_transfer_comes_back_witness:
  "\<exists>s1 s2. snd (resource_delete True ''t1'' receiving_sys) = s1 \<and>
     s2 = on_receive_concluded resources_default 20 ''x'' (sample_view\<lparr>rv_status := RFailed\<rparr>) 5 (replicate 16 9) s1 \<and>
     dict_get (active_transfers (ses s1)) ''t1'' = None \<and> dict_get (active_transfers (ses s2)) ''t1'' \<noteq> None"
proof -
  obtain res s1 where run: "resource_delete True ''t1'' receiving_sys = (res, s1)" by fastforce
  have "t_status (transfers receiving_sys 0) \<in> set in_flight" "rv_status (sample_view\<lparr>rv_status := RFailed\<rparr>) \<noteq> RComplete"
    by (simp_all add: receiving_sys_simps in_flight_def)
  from deleted_transfer_comes_back [OF receiving_sys_ok receiving_lookup receiving_sys_simps(2) this(1) run this(2) refl] run
  show ?thesis by (metis snd_conv)
qed

theorem resource_cleanup_complete_witness:
  "Rns (CancelResource 5) \<in> set (trace (resource_cleanup receiving_sys)) \<and> active_transfers (ses (resource_cleanup receiving_sys)) = []"
  using resource_cleanup_complete [OF receiving_lookup refl refl] receiving_sys_simps(5) by blast

theorem sweep_removes_exactly_expired_witness:
  "\<exists>n s'. sweep_once (\<lambda>f. if f = ''old'' then Some 0 else Some 90) 100 50 (sample_sys\<lparr>res_files := [(''old'', [1]), (''new'', [2])]\<rparr>) = (n, s') \<and>
     dict_get (res_files s') ''old'' = None \<and> dict_get (res_files s') ''new'' = Some [2]"
proof -
  let ?s = "sample_sys\<lparr>res_files := [(''old'', [1]), (''new'', [2])]\<rparr>"
  obtain n s' where run: "sweep_once (\<lambda>f. if f = ''old'' then Some 0 else Some 90) 100 50 ?s = (n, s')" by fastforce
  have "dict_ok (res_files ?s)" by (simp add: dict_ok_def)
  from sweep_removes_exactly_expired [OF run this] run show ?thesis
    by (auto simp: dict_get_def)
qed

end
