(* ===== verification/Link_Open.thy ===== *)
theory Link_Open
  imports Links
begin

text \<open>
  WebSocket \<open>link.open\<close> as a concurrent program: \<open>ws_open\<close> of \<open>handlers/links.py\<close> reserves a
  slot and starts a background task, which runs \<open>continue_open_link_ws\<close> of \<open>rns/links.py\<close>. A
  task yields at every \<open>await\<close>, so between two of its steps other opens, callbacks of RNS
  threads, other requests of the session and its teardown may run. \<open>lo_step\<close> is one such step,
  labelled with what it made visible; \<open>lo_run\<close> is a whole execution with its labels.

  A task is identified by the entry it reserved. Its program counter names the \<open>await\<close> it is
  at: \<open>OpFinding\<close>, \<open>OpConstruct\<close> and \<open>OpIdentify\<close> are the awaits of the three phase events,
  \<open>OpPolling\<close> and \<open>OpWait\<close> the two polling loops, whose deadlines may pass at any time.
\<close>

section \<open>Tasks and events\<close>

datatype open_pc =
    OpStart
  | OpFinding
  | OpPolling
  | OpResolve
  | OpConstruct rns_destination
  | OpWait
  | OpIdentify
  | OpDone
  | OpFailed

record open_task =
  ot_prepared :: prepared_open
  ot_auto :: bool
  ot_client_id :: json
  ot_local :: "rns_identity option"
  ot_pc :: open_pc

record lo =
  lo_sys :: sys
  lo_tasks :: "eref \<Rightarrow> open_task option"

definition open_ident :: "json \<Rightarrow> prepared_open \<Rightarrow> fields" where
  "open_ident client_id p =
     [(''id'', client_id), (''link_id'', jhex (pr_destination_hash p)),
      (''destination_hash'', jhex (pr_destination_hash p)), (''aspect'', JStr (pr_aspect p))]"

definition phase_event :: "string \<Rightarrow> json \<Rightarrow> prepared_open \<Rightarrow> string \<Rightarrow> json" where
  "phase_event sid client_id p phase =
     JObj ([(''type'', JStr ''link.open.phase''), (''session_id'', JStr sid)] @ open_ident client_id p @
           [(''phase'', JStr phase)])"

text \<open>A \<open>LinkError\<close> is reported with its reason code, anything else as \<open>internal\<close>.\<close>

definition failed_event :: "string \<Rightarrow> json \<Rightarrow> prepared_open \<Rightarrow> exn \<Rightarrow> json" where
  "failed_event sid client_id p x =
     (let (reason, detail) = (case x of LinkError m \<Rightarrow> (link_error_reason m, m) | _ \<Rightarrow> (''internal'', ''internal error''))
      in JObj ([(''type'', JStr ''link.open.failed''), (''session_id'', JStr sid)] @ open_ident client_id p @
               [(''reason'', JStr reason), (''detail'', JStr detail)]))"

definition open_ack :: "json \<Rightarrow> prepared_open \<Rightarrow> json" where
  "open_ack client_id p =
     JObj ([(''type'', JStr ''link.open.result''), (''id'', client_id), (''sent'', JBool True), (''reused'', JBool False)] @
           link_snapshot None (pr_destination_hash p) (pr_aspect p))"

definition say :: "json \<Rightarrow> sys \<Rightarrow> sys" where
  "say j s = emit (HubSession (s_id (ses s)) j) s"

definition say_phase :: "open_task \<Rightarrow> string \<Rightarrow> sys \<Rightarrow> sys" where
  "say_phase t phase s = say (phase_event (s_id (ses s)) (ot_client_id t) (ot_prepared t) phase) s"

definition say_failed :: "open_task \<Rightarrow> exn \<Rightarrow> sys \<Rightarrow> sys" where
  "say_failed t x s = say (failed_event (s_id (ses s)) (ot_client_id t) (ot_prepared t) x) s"

definition new_task :: "prepared_open \<Rightarrow> bool \<Rightarrow> json \<Rightarrow> open_task" where
  "new_task p auto client_id =
     \<lparr>ot_prepared = p, ot_auto = auto, ot_client_id = client_id, ot_local = None, ot_pc = OpStart\<rparr>"

definition goto :: "eref \<Rightarrow> open_pc \<Rightarrow> open_task \<Rightarrow> sys \<Rightarrow> lo \<Rightarrow> lo" where
  "goto e pc t s st = st\<lparr>lo_sys := s, lo_tasks := (lo_tasks st)(e \<mapsto> t\<lparr>ot_pc := pc\<rparr>)\<rparr>"

definition with_sys :: "sys \<Rightarrow> lo \<Rightarrow> lo" where
  "with_sys s st = st\<lparr>lo_sys := s\<rparr>"

section \<open>Steps\<close>

text \<open>What a step makes visible, and the entry it is about.\<close>

datatype mark =
    MkPhase eref string
  | MkLink eref lref
  | MkIdent eref lref
  | MkEst eref
  | MkFail eref

text \<open>
  The environment \<open>E\<close> decides recalls and constructs destinations; \<open>rsvc\<close> is the resource
  service's default accept flag, \<open>fi\<close> the identity RNS would generate for a missing default one.
\<close>

inductive lo_step :: "rns_env \<Rightarrow> bool option \<Rightarrow> rns_identity \<Rightarrow> lo \<Rightarrow> mark list \<Rightarrow> lo \<Rightarrow> bool"
  for E rsvc fi where
  lo_open:
    "prepare_open_link E ih dh app aspects = Inr p \<Longrightarrow>
     reuse_active_link (lo_sys st) (pr_destination_hash p) = None \<Longrightarrow>
     reserve_link_slot p cid (lo_sys st) = (e, s1) \<Longrightarrow>
     lo_step E rsvc fi st []
       (st\<lparr>lo_sys := emit (ConnSend c (open_ack cid p)) s1, lo_tasks := (lo_tasks st)(e \<mapsto> new_task p auto cid)\<rparr>)"
| lo_path_known:
    "lo_tasks st e = Some t \<Longrightarrow> ot_pc t = OpStart \<Longrightarrow>
     loc = try_local_identity E (lo_sys st) (pr_input_hash (ot_prepared t)) \<Longrightarrow>
     lo_step E rsvc fi st [] (goto e OpResolve (t\<lparr>ot_local := loc\<rparr>) (lo_sys st) st)"
| lo_find_path:
    "lo_tasks st e = Some t \<Longrightarrow> ot_pc t = OpStart \<Longrightarrow>
     loc = try_local_identity E (lo_sys st) (pr_input_hash (ot_prepared t)) \<Longrightarrow>
     lo_step E rsvc fi st [MkPhase e ''finding_path'']
       (goto e OpFinding (t\<lparr>ot_local := loc\<rparr>) (say_phase t ''finding_path'' (lo_sys st)) st)"
| lo_request:
    "lo_tasks st e = Some t \<Longrightarrow> ot_pc t = OpFinding \<Longrightarrow>
     lo_step E rsvc fi st []
       (goto e OpPolling t (emit (Rns (RequestPath (pr_destination_hash (ot_prepared t)))) (lo_sys st)) st)"
| lo_polled:
    "lo_tasks st e = Some t \<Longrightarrow> ot_pc t = OpPolling \<Longrightarrow>
     lo_step E rsvc fi st [] (goto e OpResolve t (lo_sys st) st)"
| lo_resolved:
    "lo_tasks st e = Some t \<Longrightarrow> ot_pc t = OpResolve \<Longrightarrow>
     resolve_destination E (ot_local t) k (ot_prepared t) = Inr d \<Longrightarrow>
     lo_step E rsvc fi st [MkPhase e ''establishing_link'']
       (goto e (OpConstruct d) t (say_phase t ''establishing_link'' (emit (Rns (OutDestination d)) (lo_sys st))) st)"
| lo_unresolved:
    "lo_tasks st e = Some t \<Longrightarrow> ot_pc t = OpResolve \<Longrightarrow>
     resolve_destination E (ot_local t) k (ot_prepared t) = Inl x \<Longrightarrow>
     lo_step E rsvc fi st [MkFail e] (goto e OpFailed t (say_failed t x (lo_sys st)) st)"
| lo_construct:
    "lo_tasks st e = Some t \<Longrightarrow> ot_pc t = OpConstruct d \<Longrightarrow>
     create_link_entry rsvc fresh (ot_prepared t) (ot_client_id t) (Some e) (ot_auto t) (lo_sys st) = (e', s1) \<Longrightarrow>
     lo_step E rsvc fi st [MkLink e (next_ref (lo_sys st))] (goto e OpWait t s1 st)"
| lo_wait_failed:
    "lo_tasks st e = Some t \<Longrightarrow> ot_pc t = OpWait \<Longrightarrow> wait_finish e (lo_sys st) = (Inl x, s1) \<Longrightarrow>
     lo_step E rsvc fi st [MkFail e] (goto e OpFailed t (say_failed t x s1) st)"
| lo_wait_active:
    "lo_tasks st e = Some t \<Longrightarrow> ot_pc t = OpWait \<Longrightarrow> wait_finish e (lo_sys st) = (Inr (), s1) \<Longrightarrow>
     \<not> ot_auto t \<Longrightarrow>
     lo_step E rsvc fi st [] (goto e OpDone t s1 st)"
| lo_wait_identify:
    "lo_tasks st e = Some t \<Longrightarrow> ot_pc t = OpWait \<Longrightarrow> wait_finish e (lo_sys st) = (Inr (), s1) \<Longrightarrow>
     ot_auto t \<Longrightarrow>
     lo_step E rsvc fi st [MkPhase e ''identifying''] (goto e OpIdentify t (say_phase t ''identifying'' s1) st)"
| lo_identify_failed:
    "lo_tasks st e = Some t \<Longrightarrow> ot_pc t = OpIdentify \<Longrightarrow>
     identify_entry E fi refused e (lo_sys st) = (Inl x, s1) \<Longrightarrow>
     lo_step E rsvc fi st [MkFail e] (goto e OpFailed t (say_failed t x s1) st)"
| lo_identified:
    "lo_tasks st e = Some t \<Longrightarrow> ot_pc t = OpIdentify \<Longrightarrow>
     identify_entry E fi refused e (lo_sys st) = (Inr f, s1) \<Longrightarrow> le_link (entries (lo_sys st) e) = Some l \<Longrightarrow>
     lo_step E rsvc fi st [MkIdent e l, MkEst e] (goto e OpDone t (emit_established e s1) st)"
| lo_rns_changes:
    "lo_step E rsvc fi st [] (with_sys ((lo_sys st)\<lparr>rlinks := (rlinks (lo_sys st))(l := v)\<rparr>) st)"
| lo_rns_established:
    "le_link (entries (lo_sys st) e) = Some l \<Longrightarrow>
     lo_step E rsvc fi st (if le_suppress (entries (lo_sys st) e) then [] else [MkEst e])
       (with_sys (on_established e (lo_sys st)) st)"
| lo_rns_closed:
    "le_link (entries (lo_sys st) e) = Some l \<Longrightarrow>
     lo_step E rsvc fi st [] (with_sys (on_closed e (lo_sys st)) st)"
| lo_close:
    "link_close link_id (lo_sys st) = (r, s1) \<Longrightarrow> lo_step E rsvc fi st [] (with_sys s1 st)"
| lo_cleanup:
    "lo_step E rsvc fi st [] (with_sys (link_cleanup (lo_sys st)) st)"
| lo_rest_create:
    "create_link_entry rsvc fresh p cid None suppress (lo_sys st) = (e, s1) \<Longrightarrow>
     lo_step E rsvc fi st [MkLink e (next_ref (lo_sys st))] (with_sys s1 st)"
| lo_rest_wait:
    "lo_tasks st e = None \<Longrightarrow> wait_finish e (lo_sys st) = (r, s1) \<Longrightarrow> lo_step E rsvc fi st [] (with_sys s1 st)"

| lo_rest_identified:
    "lo_tasks st e = None \<Longrightarrow> identify_entry E fi refused e (lo_sys st) = (Inr f, s1) \<Longrightarrow>
     le_link (entries (lo_sys st) e) = Some l \<Longrightarrow>
     lo_step E rsvc fi st [MkIdent e l, MkEst e] (with_sys (emit_established e s1) st)"
| lo_client_identify:
    "link_identify E fi refused link_id (lo_sys st) = (r, s1) \<Longrightarrow> lo_step E rsvc fi st [] (with_sys s1 st)"

text \<open>
  The last rules are the other requests of the session: \<open>link.close\<close>, the teardown's cleanup,
  the steps of a REST open, \<open>link.identify\<close>. Operations that only read the table or send on a
  link are not listed.
\<close>

inductive lo_run :: "rns_env \<Rightarrow> bool option \<Rightarrow> rns_identity \<Rightarrow> lo \<Rightarrow> mark list \<Rightarrow> lo \<Rightarrow> bool"
  for E rsvc fi where
  lo_run_refl: "lo_run E rsvc fi st [] st"
| lo_run_step: "lo_run E rsvc fi st ms st1 \<Longrightarrow> lo_step E rsvc fi st1 ns st2 \<Longrightarrow> lo_run E rsvc fi st (ms @ ns) st2"

section \<open>Invariants\<close>

text \<open>
  Most steps leave every entry's hash, link and suppression flag alone and can only remove
  table slots.
\<close>

definition entry_core :: "link_entry \<Rightarrow> bytes \<times> lref option \<times> bool" where
  "entry_core en = (le_destination_hash en, le_link en, le_suppress en)"

definition quiet :: "sys \<Rightarrow> sys \<Rightarrow> bool" where
  "quiet s s' \<longleftrightarrow>
     next_ref s' = next_ref s \<and> (\<forall>e. entry_core (entries s' e) = entry_core (entries s e)) \<and>
     (dict_ok (open_links (ses s)) \<longrightarrow> dict_ok (open_links (ses s'))) \<and>
     set (open_links (ses s')) \<subseteq> set (open_links (ses s))"

lemma quiet_refl [simp]: "quiet s s"
  by (simp add: quiet_def)

lemma quiet_trans: "quiet s t \<Longrightarrow> quiet t u \<Longrightarrow> quiet s u"
  by (auto simp: quiet_def)

lemma quiet_emit [simp]: "quiet s (emit x t) = quiet s t"
  by (simp add: quiet_def)

lemma quiet_say [simp]: "quiet s (say j t) = quiet s t" "quiet s (say_phase k p t) = quiet s t"
  "quiet s (say_failed k x t) = quiet s t"
  by (simp_all add: say_def say_phase_def say_failed_def)

lemma quiet_pop: "quiet s t \<Longrightarrow> quiet s (pop_open_link h t)"
  by (auto simp: quiet_def dict_pop_items)

lemma quiet_wait: "wait_finish e s = (r, s') \<Longrightarrow> quiet s s'"
  by (auto simp: wait_finish_def Let_def intro: quiet_pop split: option.splits if_splits)

lemma quiet_identify: "identify_entry E fi refused e s = (r, s') \<Longrightarrow> quiet s s'"
  using identify_entry_frame [of E fi refused e s r s'] by (auto simp: quiet_def entry_core_def)

lemma quiet_client_identify: "link_identify E fi refused i s = (r, s') \<Longrightarrow> quiet s s'"
  by (auto simp: link_identify_def dest: quiet_identify split: sum.splits)

lemma quiet_established: "quiet s (on_established e s)"
  by (auto simp: on_established_def Let_def quiet_def entry_core_def)

lemma quiet_closed: "quiet s (on_closed e s)"
  by (auto simp: on_closed_def Let_def intro: quiet_pop)

lemma quiet_close: "link_close i s = (r, s') \<Longrightarrow> quiet s s'"
  by (auto simp: link_close_def intro: quiet_pop split: sum.splits option.splits)

lemma quiet_cleanup: "quiet s (link_cleanup s)"
  by (auto simp: quiet_def)

lemma quiet_rlinks: "quiet s (s\<lparr>rlinks := f\<rparr>)"
  by (simp add: quiet_def)

lemmas quiet_intros = quiet_wait quiet_identify quiet_client_identify quiet_established quiet_closed
  quiet_close quiet_cleanup quiet_rlinks

lemmas quiet_calls = quiet_wait quiet_identify quiet_client_identify quiet_close

text \<open>What holds of each open that is under way.\<close>

fun before_link :: "open_pc \<Rightarrow> bool" where
  "before_link OpStart = True"
| "before_link OpFinding = True"
| "before_link OpPolling = True"
| "before_link OpResolve = True"
| "before_link (OpConstruct d) = True"
| "before_link _ = False"

fun with_link :: "open_pc \<Rightarrow> bool" where
  "with_link OpWait = True"
| "with_link OpIdentify = True"
| "with_link OpDone = True"
| "with_link _ = False"

definition task_ok :: "sys \<Rightarrow> eref \<Rightarrow> open_task \<Rightarrow> bool" where
  "task_ok s e t \<longleftrightarrow>
     e < next_ref s \<and> le_destination_hash (entries s e) = pr_destination_hash (ot_prepared t) \<and>
     (before_link (ot_pc t) \<longrightarrow> le_link (entries s e) = None) \<and>
     (with_link (ot_pc t) \<longrightarrow> le_link (entries s e) \<noteq> None) \<and>
     (ot_auto t \<and> ot_pc t \<noteq> OpDone \<longrightarrow> le_link (entries s e) = None \<or> le_suppress (entries s e))"

definition lo_inv :: "lo \<Rightarrow> bool" where
  "lo_inv st \<longleftrightarrow>
     links_ok (lo_sys st) (ses (lo_sys st)) \<and>
     (\<forall>e \<ge> next_ref (lo_sys st). le_link (entries (lo_sys st) e) = None) \<and>
     (\<forall>e t. lo_tasks st e = Some t \<longrightarrow> task_ok (lo_sys st) e t)"

lemma quiet_next_ref: "quiet s s' \<Longrightarrow> next_ref s' = next_ref s"
  by (simp add: quiet_def)

lemma quiet_coreD:
  assumes "quiet s s'"
  shows "le_destination_hash (entries s' e) = le_destination_hash (entries s e)"
    "le_link (entries s' e) = le_link (entries s e)" "le_suppress (entries s' e) = le_suppress (entries s e)"
  using assms by (auto simp: quiet_def entry_core_def)

lemma quiet_links_ok: "quiet s s' \<Longrightarrow> links_ok s (ses s) \<Longrightarrow> links_ok s' (ses s')"
  using quiet_coreD [of s s'] quiet_next_ref [of s s'] by (auto simp: links_ok_def quiet_def)

lemma quiet_task_ok: "quiet s s' \<Longrightarrow> task_ok s' e t = task_ok s e t"
  using quiet_coreD [of s s' e] quiet_next_ref [of s s'] by (simp add: task_ok_def)

lemma quiet_inv: "quiet (lo_sys st) s' \<Longrightarrow> lo_inv st \<Longrightarrow> lo_inv (with_sys s' st)"
  by (simp add: lo_inv_def with_sys_def quiet_links_ok quiet_task_ok quiet_coreD quiet_next_ref)

lemma goto_inv:
  "quiet (lo_sys st) s' \<Longrightarrow> lo_inv st \<Longrightarrow> task_ok s' e (t\<lparr>ot_pc := pc\<rparr>) \<Longrightarrow> lo_inv (goto e pc t s' st)"
  by (simp add: lo_inv_def goto_def quiet_links_ok quiet_task_ok quiet_coreD quiet_next_ref)

lemma lo_inv_taskD: "lo_inv st \<Longrightarrow> lo_tasks st e = Some t \<Longrightarrow> task_ok (lo_sys st) e t"
  by (simp add: lo_inv_def)

text \<open>A step of one task that changes no entry: its own conditions are the ones to check.\<close>

lemma goto_quiet_inv:
  assumes "lo_inv st" and "lo_tasks st e = Some t" and "quiet (lo_sys st) s'"
    and "ot_prepared u = ot_prepared t" "ot_auto u = ot_auto t"
    and "before_link pc \<longrightarrow> before_link (ot_pc t)" and "with_link pc \<longrightarrow> with_link (ot_pc t)"
    and "ot_pc t \<noteq> OpDone"
  shows "lo_inv (goto e pc u s' st)"
proof -
  have "task_ok s' e t"
    using lo_inv_taskD [OF assms(1,2)] assms(3) by (simp add: quiet_task_ok)
  with assms(4-8) have "task_ok s' e (u\<lparr>ot_pc := pc\<rparr>)" by (auto simp: task_ok_def)
  with assms(1,3) show ?thesis by (intro goto_inv)
qed

lemma emit_established_frame [simp]:
  "next_ref (emit_established e s) = next_ref s" "ses (emit_established e s) = ses s"
  "le_destination_hash (entries (emit_established e s) k) = le_destination_hash (entries s k)"
  "le_link (entries (emit_established e s) k) = le_link (entries s k)"
  by (simp_all add: emit_established_def Let_def fun_upd_def)

lemma emit_established_suppress:
  "k \<noteq> e \<Longrightarrow> le_suppress (entries (emit_established e s) k) = le_suppress (entries s k)"
  by (simp add: emit_established_def Let_def fun_upd_def)

lemma reserve_link_slot_frame:
  assumes "reserve_link_slot p cid s = (e, s')"
  shows "e = next_ref s" "next_ref s' = Suc e" "entries s' = (entries s)(e := new_entry p None cid False)"
    "ses s' = (ses s)\<lparr>open_links := dict_set (pr_destination_hash p) e (open_links (ses s))\<rparr>" "rlinks s' = rlinks s"
    "trace s' = trace s"
  using assms by (auto simp: reserve_link_slot_def Let_def)

lemma create_reserved_frame:
  assumes "create_link_entry rsvc fresh p cid (Some e) sp s = (e', s')"
  shows "e' = e" "next_ref s' = Suc (next_ref s)"
    "entries s' = (entries s)(e := (entries s e)\<lparr>le_link := Some (next_ref s), le_suppress := sp\<rparr>)"
    "ses s' = (ses s)\<lparr>open_links := dict_set (pr_destination_hash p) e (open_links (ses s))\<rparr>"
    "rlinks s' = (rlinks s)(next_ref s := fresh)"
  using assms by (auto simp: create_link_entry_def Let_def)

lemma create_new_frame:
  assumes "create_link_entry rsvc fresh p cid None sp s = (e, s')"
  shows "e = Suc (next_ref s)" "next_ref s' = Suc e"
    "entries s' = (entries s)(e := new_entry p (Some (next_ref s)) cid sp)"
    "ses s' = (ses s)\<lparr>open_links := dict_set (pr_destination_hash p) e (open_links (ses s))\<rparr>"
    "rlinks s' = (rlinks s)(next_ref s := fresh)"
  using assms by (auto simp: create_link_entry_def Let_def)

text \<open>The three parts of the invariant, for a step that touches one entry.\<close>

lemma lo_invI:
  assumes "links_ok (lo_sys st) (ses (lo_sys st))"
    and "\<And>k. next_ref (lo_sys st) \<le> k \<Longrightarrow> le_link (entries (lo_sys st) k) = None"
    and "\<And>k u. lo_tasks st k = Some u \<Longrightarrow> task_ok (lo_sys st) k u"
  shows "lo_inv st"
  using assms by (simp add: lo_inv_def)

lemma lo_invD:
  assumes "lo_inv st"
  shows "links_ok (lo_sys st) (ses (lo_sys st))"
    "next_ref (lo_sys st) \<le> k \<Longrightarrow> le_link (entries (lo_sys st) k) = None"
    "lo_tasks st k = Some u \<Longrightarrow> task_ok (lo_sys st) k u"
  using assms by (simp_all add: lo_inv_def)

lemma task_ok_other:
  assumes "task_ok s k u" and "k \<noteq> e" and "next_ref s \<le> next_ref s'" and "\<And>k. k \<noteq> e \<Longrightarrow> entries s' k = entries s k"
  shows "task_ok s' k u"
  using assms by (auto simp: task_ok_def)

lemma links_ok_set_new:
  assumes "links_ok s (ses s)" and "next_ref s \<le> next_ref s'" and "e < next_ref s'"
    and "\<And>k. k \<noteq> e \<Longrightarrow> entries s' k = entries s k" and "le_destination_hash (entries s' e) = h"
    and "e < next_ref s \<Longrightarrow> le_destination_hash (entries s e) = h"
    and "ses s' = (ses s)\<lparr>open_links := dict_set h e (open_links (ses s))\<rparr>"
  shows "links_ok s' (ses s')"
proof -
  have "links_ok s' (ses s)"
    using assms(1,2) by (rule links_ok_mono) (use assms(4-6) in \<open>metis\<close>)+
  then show ?thesis
    unfolding assms(7) using assms(3,5) by (intro links_ok_set)
qed

lemma open_inv:
  assumes "lo_inv st" and "reserve_link_slot p cid (lo_sys st) = (e, s1)"
  shows "lo_inv (st\<lparr>lo_sys := emit x s1, lo_tasks := (lo_tasks st)(e \<mapsto> new_task p auto cid)\<rparr>)"
proof (rule lo_invI, goal_cases)
  case 1
  note r = reserve_link_slot_frame [OF assms(2)]
  have "links_ok s1 (ses s1)"
    by (rule links_ok_set_new [OF lo_invD(1) [OF assms(1)], of s1 e "pr_destination_hash p"])
      (simp_all add: r new_entry_def)
  then show ?case by (simp add: links_ok_def)
next
  case (2 k)
  then show ?case
    using lo_invD(2) [OF assms(1), of k] reserve_link_slot_frame [OF assms(2)] by simp
next
  case (3 k u)
  note r = reserve_link_slot_frame [OF assms(2)]
  show ?case
  proof (cases "k = e")
    case True
    with 3 r show ?thesis by (auto simp: task_ok_def new_task_def new_entry_def)
  next
    case False
    with 3 have "task_ok (lo_sys st) k u" using lo_invD(3) [OF assms(1)] by simp
    then have "task_ok s1 k u" by (rule task_ok_other [where e = e]) (use False r in simp_all)
    then show ?thesis by (simp add: task_ok_def)
  qed
qed

lemma construct_inv:
  assumes "lo_inv st" and "lo_tasks st e = Some t" and "ot_pc t = OpConstruct d"
    and "create_link_entry rsvc fresh (ot_prepared t) cid (Some e) (ot_auto t) (lo_sys st) = (e', s1)"
  shows "lo_inv (goto e OpWait t s1 st)"
proof (rule lo_invI, goal_cases)
  case 1
  note r = create_reserved_frame [OF assms(4)]
  have t: "task_ok (lo_sys st) e t" using assms(1,2) by (rule lo_inv_taskD)
  have "links_ok s1 (ses s1)"
    by (rule links_ok_set_new [OF lo_invD(1) [OF assms(1)], of s1 e "pr_destination_hash (ot_prepared t)"])
      (use r t in \<open>simp_all add: task_ok_def\<close>)
  then show ?case by (simp add: goto_def)
next
  case (2 k)
  then show ?case
    using lo_invD(2) [OF assms(1), of k] lo_inv_taskD [OF assms(1,2)] create_reserved_frame [OF assms(4)]
    by (auto simp: goto_def task_ok_def)
next
  case (3 k u)
  note r = create_reserved_frame [OF assms(4)]
  show ?case
  proof (cases "k = e")
    case True
    with 3 r lo_inv_taskD [OF assms(1,2)] show ?thesis by (auto simp: task_ok_def goto_def)
  next
    case False
    with 3 have "task_ok (lo_sys st) k u" using lo_invD(3) [OF assms(1)] by (simp add: goto_def)
    then have "task_ok s1 k u" by (rule task_ok_other [where e = e]) (use False r in simp_all)
    then show ?thesis by (simp add: goto_def)
  qed
qed

lemma rest_create_inv:
  assumes "lo_inv st" and "create_link_entry rsvc fresh p cid None sp (lo_sys st) = (e, s1)"
  shows "lo_inv (with_sys s1 st)"
proof (rule lo_invI, goal_cases)
  case 1
  note r = create_new_frame [OF assms(2)]
  have "links_ok s1 (ses s1)"
    by (rule links_ok_set_new [OF lo_invD(1) [OF assms(1)], of s1 e "pr_destination_hash p"])
      (simp_all add: r new_entry_def)
  then show ?case by (simp add: with_sys_def)
next
  case (2 k)
  then show ?case
    using lo_invD(2) [OF assms(1), of k] create_new_frame [OF assms(2)] by (simp add: with_sys_def)
next
  case (3 k u)
  then have t: "task_ok (lo_sys st) k u" using lo_invD(3) [OF assms(1)] by (simp add: with_sys_def)
  moreover from t create_new_frame(1) [OF assms(2)] have "k \<noteq> e" by (auto simp: task_ok_def)
  ultimately have "task_ok s1 k u"
    by (rule task_ok_other) (use create_new_frame [OF assms(2)] in simp_all)
  then show ?case by (simp add: with_sys_def)
qed

lemma emit_established_task_ok:
  "task_ok s k u \<Longrightarrow> k \<noteq> e \<Longrightarrow> task_ok (emit_established e s) k u"
  by (simp add: task_ok_def emit_established_suppress)

lemma emit_established_links_ok [simp]: "links_ok (emit_established e s) x = links_ok s x"
  by (simp add: links_ok_def)

lemma identified_inv:
  assumes "lo_inv st" and "lo_tasks st e = Some t" and "ot_pc t = OpIdentify" and "quiet (lo_sys st) s1"
  shows "lo_inv (goto e OpDone t (emit_established e s1) st)"
proof -
  have inv: "lo_inv (with_sys s1 st)" using assms(4,1) by (rule quiet_inv)
  note i = lo_invD [OF inv, unfolded with_sys_def, simplified]
  have "task_ok s1 e t" using i(3) assms(2) by simp
  then have "task_ok (emit_established e s1) e (t\<lparr>ot_pc := OpDone\<rparr>)"
    using assms(3) by (simp add: task_ok_def)
  then show ?thesis
    using i by (intro lo_invI) (auto simp: goto_def emit_established_task_ok split: if_splits)
qed

lemma rest_identified_inv:
  assumes "lo_inv st" and "lo_tasks st e = None" and "quiet (lo_sys st) s1"
  shows "lo_inv (with_sys (emit_established e s1) st)"
proof -
  have inv: "lo_inv (with_sys s1 st)" using assms(3,1) by (rule quiet_inv)
  note i = lo_invD [OF inv, unfolded with_sys_def, simplified]
  show ?thesis
    using i assms(2) by (intro lo_invI) (auto simp: with_sys_def intro!: emit_established_task_ok)
qed

lemma lo_step_inv: "lo_step E rsvc fi st ms st' \<Longrightarrow> lo_inv st \<Longrightarrow> lo_inv st'"
proof (induction rule: lo_step.induct)
  case lo_open then show ?case by (intro open_inv)
next
  case lo_construct then show ?case by (intro construct_inv)
next
  case lo_rest_create then show ?case by (intro rest_create_inv)
next
  case lo_identified then show ?case by (intro identified_inv quiet_identify)
next
  case lo_rest_identified then show ?case by (intro rest_identified_inv quiet_identify)
qed (auto intro!: goto_quiet_inv quiet_inv intro: quiet_intros simp: quiet_rlinks)

lemma lo_run_inv: "lo_run E rsvc fi st ms st' \<Longrightarrow> lo_inv st \<Longrightarrow> lo_inv st'"
  by (induction rule: lo_run.induct) (auto dest: lo_step_inv)

section \<open>What a step shows\<close>

lemma lo_step_next_ref: "lo_step E rsvc fi st ms st' \<Longrightarrow> next_ref (lo_sys st) \<le> next_ref (lo_sys st')"
proof (induction rule: lo_step.induct)
  case lo_open then show ?case using reserve_link_slot_frame(1,2) [OF lo_open(3)] by simp
next
  case lo_construct then show ?case using create_reserved_frame [OF lo_construct(3)] by (auto simp: goto_def)
next
  case lo_rest_create then show ?case using create_new_frame [OF lo_rest_create(1)] by (auto simp: with_sys_def)
qed (auto simp: goto_def with_sys_def say_def say_phase_def say_failed_def
    quiet_established [THEN quiet_next_ref] quiet_closed [THEN quiet_next_ref] dest!: quiet_calls [THEN quiet_next_ref])

text \<open>An established event is about a constructed link, and comes with the identification.\<close>

lemma lo_step_est:
  assumes "lo_step E rsvc fi st ms st'" and "lo_inv st" and "MkEst e \<in> set ms"
  shows "le_link (entries (lo_sys st) e) \<noteq> None \<and>
    (\<forall>t. lo_tasks st e = Some t \<and> ot_auto t \<longrightarrow>
      ot_pc t = OpDone \<or> (\<exists>l t'. ms = [MkIdent e l, MkEst e] \<and> lo_tasks st' e = Some t' \<and> ot_pc t' = OpDone))"
  using assms(1,3)
proof (cases rule: lo_step.cases)
  case (lo_rns_established e' l)
  then have e: "e' = e" "\<not> le_suppress (entries (lo_sys st) e)"
    using assms(3) by (auto split: if_splits)
  show ?thesis
  proof (intro conjI allI impI)
    show "le_link (entries (lo_sys st) e) \<noteq> None" using lo_rns_established e by simp
    fix t assume t: "lo_tasks st e = Some t \<and> ot_auto t"
    then have "task_ok (lo_sys st) e t" using lo_inv_taskD [OF assms(2)] by simp
    with t e lo_rns_established(3)
    show "ot_pc t = OpDone \<or> (\<exists>l t'. ms = [MkIdent e l, MkEst e] \<and> lo_tasks st' e = Some t' \<and> ot_pc t' = OpDone)"
      by (auto simp: task_ok_def)
  qed
qed (use assms(3) in \<open>auto simp: goto_def\<close>)

lemma lo_step_link:
  assumes "lo_step E rsvc fi st ms st'" and "lo_inv st" and "MkLink e l \<in> set ms"
  shows "e < next_ref (lo_sys st') \<and>
    (\<forall>t. lo_tasks st e = Some t \<longrightarrow> ms = [MkLink e l] \<and> (\<exists>d. ot_pc t = OpConstruct d))"
  using assms(1,3)
proof (cases rule: lo_step.cases)
  case (lo_construct e' t d)
  then show ?thesis
    using assms(3) lo_inv_taskD [OF assms(2) lo_construct(3)] create_reserved_frame [OF lo_construct(5)]
    by (auto simp: goto_def task_ok_def)
next
  case (lo_rest_create e' s1)
  then show ?thesis
    using assms(3) lo_inv_taskD [OF assms(2), of e] create_new_frame [OF lo_rest_create(3)]
    by (fastforce simp: with_sys_def task_ok_def)
qed (use assms(3) in \<open>auto split: if_splits\<close>)

text \<open>How the task of an entry, and its link, can change in a step.\<close>

lemma lo_step_task:
  assumes "lo_step E rsvc fi st ms st'" and "lo_tasks st' e = Some t'"
  shows "(e = next_ref (lo_sys st) \<and> ot_pc t' = OpStart \<and> ms = []) \<or>
    (\<exists>t. lo_tasks st e = Some t \<and> ot_auto t' = ot_auto t \<and> (ot_pc t = OpDone \<longrightarrow> ot_pc t' = OpDone) \<and>
       (\<forall>d. ot_pc t' = OpConstruct d \<longrightarrow> ot_pc t = OpConstruct d \<or> MkPhase e ''establishing_link'' \<in> set ms) \<and>
       (ot_auto t' \<and> ot_pc t' = OpDone \<longrightarrow> ot_pc t = OpDone \<or> (\<exists>l. MkIdent e l \<in> set ms)))"
  using assms
proof (induction rule: lo_step.induct)
  case lo_open then show ?case using reserve_link_slot_frame(1) [OF lo_open(3)] by (auto simp: new_task_def split: if_splits)
qed (auto simp: goto_def with_sys_def split: if_splits)

lemma lo_step_le_link:
  assumes "lo_step E rsvc fi st ms st'"
  shows "le_link (entries (lo_sys st') e) = le_link (entries (lo_sys st) e) \<or>
    (\<exists>l. MkLink e l \<in> set ms) \<or> e = next_ref (lo_sys st)"
  using assms
proof (induction rule: lo_step.induct)
  case lo_open then show ?case using reserve_link_slot_frame [OF lo_open(3)] by auto
next
  case lo_construct then show ?case using create_reserved_frame [OF lo_construct(3)] by (auto simp: goto_def)
next
  case lo_rest_create then show ?case using create_new_frame [OF lo_rest_create(1)] by (auto simp: with_sys_def)
qed (auto simp: goto_def with_sys_def say_def say_phase_def say_failed_def
    quiet_established [THEN quiet_coreD(2)] quiet_closed [THEN quiet_coreD(2)] dest: quiet_calls [THEN quiet_coreD(2)])

section \<open>Histories\<close>

text \<open>Every occurrence of \<open>x\<close> comes after something that satisfies \<open>P\<close>.\<close>

definition preceded :: "('a \<Rightarrow> bool) \<Rightarrow> 'a \<Rightarrow> 'a list \<Rightarrow> bool" where
  "preceded P x H \<longleftrightarrow> (\<forall>a b. H = a @ x # b \<longrightarrow> (\<exists>y \<in> set a. P y))"

lemma preceded_absent: "x \<notin> set H \<Longrightarrow> preceded P x H"
  by (auto simp: preceded_def)

lemma preceded_append:
  assumes "preceded P x H" and "x \<in> set ms \<Longrightarrow> (\<exists>y \<in> set H. P y) \<or> preceded P x ms"
  shows "preceded P x (H @ ms)"
  unfolding preceded_def
proof (intro allI impI)
  fix a b assume "H @ ms = a @ x # b"
  then obtain us where "H = a @ us \<and> us @ ms = x # b \<or> H @ us = a \<and> ms = us @ x # b"
    by (auto simp: append_eq_append_conv2)
  then consider vs where "H = a @ x # vs" | us where "a = H @ us" "ms = us @ x # b"
    by (cases us) auto
  then show "\<exists>y \<in> set a. P y"
  proof cases
    case 1 with assms(1) show ?thesis by (auto simp: preceded_def)
  next
    case 2 with assms(2) show ?thesis by (fastforce simp: preceded_def)
  qed
qed

lemma preceded_pair: "x \<noteq> y \<Longrightarrow> P x \<Longrightarrow> preceded P y [x, y]"
  by (auto simp: preceded_def Cons_eq_append_conv)

definition task_hist :: "mark list \<Rightarrow> sys \<Rightarrow> eref \<Rightarrow> open_task \<Rightarrow> bool" where
  "task_hist H s e t \<longleftrightarrow>
     (ot_auto t \<and> ot_pc t \<noteq> OpDone \<longrightarrow> MkEst e \<notin> set H) \<and>
     (ot_auto t \<and> ot_pc t = OpDone \<longrightarrow> (\<exists>l. MkIdent e l \<in> set H)) \<and>
     (\<forall>d. ot_pc t = OpConstruct d \<longrightarrow> MkPhase e ''establishing_link'' \<in> set H) \<and>
     (le_link (entries s e) \<noteq> None \<longrightarrow> (\<exists>l. MkLink e l \<in> set H)) \<and>
     (ot_auto t \<longrightarrow> preceded (\<lambda>m. \<exists>l. m = MkIdent e l) (MkEst e) H) \<and>
     preceded (\<lambda>m. \<exists>l. m = MkLink e l) (MkEst e) H \<and>
     (\<forall>l. preceded (\<lambda>m. m = MkPhase e ''establishing_link'') (MkLink e l) H)"

definition hist_inv :: "mark list \<Rightarrow> lo \<Rightarrow> bool" where
  "hist_inv H st \<longleftrightarrow>
     (\<forall>e. MkEst e \<in> set H \<or> (\<exists>l. MkLink e l \<in> set H) \<longrightarrow> e < next_ref (lo_sys st)) \<and>
     (\<forall>e t. lo_tasks st e = Some t \<longrightarrow> task_hist H (lo_sys st) e t)"

lemma lo_inv_est_ref: "lo_inv st \<Longrightarrow> le_link (entries (lo_sys st) e) \<noteq> None \<Longrightarrow> e < next_ref (lo_sys st)"
  by (metis lo_invD(2) not_le)

lemma hist_inv_bounds:
  assumes "hist_inv H st" and "lo_inv st" and "lo_step E rsvc fi st ms st'"
    and "MkEst e \<in> set (H @ ms) \<or> (\<exists>l. MkLink e l \<in> set (H @ ms))"
  shows "e < next_ref (lo_sys st')"
proof -
  note n = lo_step_next_ref [OF assms(3)]
  consider "MkEst e \<in> set H \<or> (\<exists>l. MkLink e l \<in> set H)" | "MkEst e \<in> set ms" | l where "MkLink e l \<in> set ms"
    using assms(4) by auto
  then show ?thesis
  proof cases
    case 1
    with assms(1) have "e < next_ref (lo_sys st)" unfolding hist_inv_def by blast
    with n show ?thesis by simp
  next
    case 2
    with lo_step_est [OF assms(3,2)] have "e < next_ref (lo_sys st)" by (intro lo_inv_est_ref [OF assms(2)]) blast
    with n show ?thesis by simp
  next
    case 3
    with lo_step_link [OF assms(3,2)] show ?thesis by blast
  qed
qed

lemma task_hist_new:
  assumes "hist_inv H st" and "e = next_ref (lo_sys st)" and "ot_pc t = OpStart" and "le_link (entries s e) = None"
  shows "task_hist H s e t"
proof -
  have "MkEst e \<notin> set H" "MkLink e l \<notin> set H" for l
    using assms(1,2) by (auto simp: hist_inv_def)
  with assms(3,4) show ?thesis by (simp add: task_hist_def preceded_absent)
qed

lemma task_hist_old:
  assumes h: "task_hist H (lo_sys st) e t" and t: "lo_tasks st e = Some t" and inv: "lo_inv st"
    and st: "lo_step E rsvc fi st ms st'" and t': "lo_tasks st' e = Some t'"
    and auto: "ot_auto t' = ot_auto t" and done_stays: "ot_pc t = OpDone \<longrightarrow> ot_pc t' = OpDone"
    and phase: "\<forall>d. ot_pc t' = OpConstruct d \<longrightarrow> ot_pc t = OpConstruct d \<or> MkPhase e ''establishing_link'' \<in> set ms"
    and ident: "ot_auto t' \<and> ot_pc t' = OpDone \<longrightarrow> ot_pc t = OpDone \<or> (\<exists>l. MkIdent e l \<in> set ms)"
  shows "task_hist (H @ ms) (lo_sys st') e t'"
proof -
  have est: "le_link (entries (lo_sys st) e) \<noteq> None"
    "ot_auto t \<Longrightarrow> ot_pc t = OpDone \<or> (\<exists>l. ms = [MkIdent e l, MkEst e]) \<and> ot_pc t' = OpDone" if "MkEst e \<in> set ms"
    using lo_step_est [OF st inv that] t t' by auto
  have link: "\<exists>d. ot_pc t = OpConstruct d" if "MkLink e l \<in> set ms" for l
    using lo_step_link [OF st inv that] t by auto
  have "e \<noteq> next_ref (lo_sys st)" using lo_inv_taskD [OF inv t] by (auto simp: task_ok_def)
  then have le: "le_link (entries (lo_sys st') e) = le_link (entries (lo_sys st) e) \<or> (\<exists>l. MkLink e l \<in> set ms)"
    using lo_step_le_link [OF st, of e] by simp
  have "ot_auto t' \<and> ot_pc t' \<noteq> OpDone \<longrightarrow> MkEst e \<notin> set (H @ ms)"
    using h est(2) auto done_stays by (auto simp: task_hist_def)
  moreover have "ot_auto t' \<and> ot_pc t' = OpDone \<longrightarrow> (\<exists>l. MkIdent e l \<in> set (H @ ms))"
    using h auto ident by (auto simp: task_hist_def)
  moreover have "\<forall>d. ot_pc t' = OpConstruct d \<longrightarrow> MkPhase e ''establishing_link'' \<in> set (H @ ms)"
    using h phase by (auto simp: task_hist_def)
  moreover have "le_link (entries (lo_sys st') e) \<noteq> None \<longrightarrow> (\<exists>l. MkLink e l \<in> set (H @ ms))"
    using h le by (auto simp: task_hist_def)
  moreover have "ot_auto t' \<longrightarrow> preceded (\<lambda>m. \<exists>l. m = MkIdent e l) (MkEst e) (H @ ms)"
  proof
    assume "ot_auto t'"
    with auto h est(2) show "preceded (\<lambda>m. \<exists>l. m = MkIdent e l) (MkEst e) (H @ ms)"
      by (intro preceded_append) (auto simp: task_hist_def intro!: preceded_pair)
  qed
  moreover have "preceded (\<lambda>m. \<exists>l. m = MkLink e l) (MkEst e) (H @ ms)"
    using h est(1) by (intro preceded_append) (auto simp: task_hist_def)
  moreover have "preceded (\<lambda>m. m = MkPhase e ''establishing_link'') (MkLink e l) (H @ ms)" for l
    using h link by (intro preceded_append) (auto simp: task_hist_def)
  ultimately show ?thesis by (simp add: task_hist_def)
qed

lemma hist_step:
  assumes "hist_inv H st" and "lo_inv st" and "lo_step E rsvc fi st ms st'"
  shows "hist_inv (H @ ms) st'"
  unfolding hist_inv_def
proof (intro conjI allI impI)
  fix e t' assume t': "lo_tasks st' e = Some t'"
  note cases = lo_step_task [OF assms(3) t']
  then show "task_hist (H @ ms) (lo_sys st') e t'"
  proof (elim disjE exE conjE)
    assume "e = next_ref (lo_sys st)" "ot_pc t' = OpStart" "ms = []"
    moreover from this lo_inv_taskD [OF lo_step_inv [OF assms(3,2)] t']
    have "le_link (entries (lo_sys st') e) = None" by (simp add: task_ok_def)
    ultimately show ?thesis using task_hist_new [OF assms(1)] by simp
  next
    fix t assume t: "lo_tasks st e = Some t"
    from assms(1) t have "task_hist H (lo_sys st) e t" by (simp add: hist_inv_def)
    from task_hist_old [OF this t assms(2,3) t']
    show "ot_auto t' = ot_auto t \<Longrightarrow> ot_pc t = OpDone \<longrightarrow> ot_pc t' = OpDone \<Longrightarrow>
      \<forall>d. ot_pc t' = OpConstruct d \<longrightarrow> ot_pc t = OpConstruct d \<or> MkPhase e ''establishing_link'' \<in> set ms \<Longrightarrow>
      ot_auto t' \<and> ot_pc t' = OpDone \<longrightarrow> ot_pc t = OpDone \<or> (\<exists>l. MkIdent e l \<in> set ms) \<Longrightarrow>
      task_hist (H @ ms) (lo_sys st') e t'" .
  qed
qed (use hist_inv_bounds [OF assms] in blast)

lemma hist_run: "lo_run E rsvc fi st H st' \<Longrightarrow> lo_inv st \<Longrightarrow> lo_tasks st = (\<lambda>_. None) \<Longrightarrow> hist_inv H st'"
proof (induction rule: lo_run.induct)
  case (lo_run_refl st)
  then show ?case by (simp add: hist_inv_def)
next
  case (lo_run_step st ms st1 ns st2)
  then show ?case by (intro hist_step) (auto dest: lo_run_inv)
qed

text \<open>The marks are the events: each \<open>link.established\<close> in the trace has one, and only those.\<close>

definition is_established :: "effect \<Rightarrow> bool" where
  "is_established eff =
     (case eff of HubSession _ j \<Rightarrow> ev_type j = Some ''link.established''
                | BridgeSession _ j \<Rightarrow> ev_type j = Some ''link.established'' | _ \<Rightarrow> False)"

definition est_count :: "effect list \<Rightarrow> nat" where
  "est_count tr = length (filter is_established tr)"

definition est_marks :: "mark list \<Rightarrow> nat" where
  "est_marks ms = length (filter (\<lambda>m. \<exists>e. m = MkEst e) ms)"

lemma est_count_simps [simp]:
  "est_count [] = 0" "est_count (x # tr) = (if is_established x then Suc (est_count tr) else est_count tr)"
  "est_count (a @ b) = est_count a + est_count b"
  by (simp_all add: est_count_def)

lemma is_established_simps [simp]:
  "\<not> is_established (Rns c)" "\<not> is_established (ConnSend k j)" "\<not> is_established (WriteFile f b)"
  "is_established (HubSession i j) = (ev_type j = Some ''link.established'')"
  "is_established (BridgeSession i j) = (ev_type j = Some ''link.established'')"
  by (simp_all add: is_established_def)

lemma est_count_none: "\<forall>x \<in> set tr. \<not> is_established x \<Longrightarrow> est_count tr = 0"
  by (simp add: est_count_def filter_empty_conv)

lemma est_count_wait: "wait_finish e s = (r, s') \<Longrightarrow> est_count (trace s') = est_count (trace s)"
  by (auto simp: wait_finish_def Let_def split: option.splits if_splits)

lemma est_count_close: "link_close i s = (r, s') \<Longrightarrow> est_count (trace s') = est_count (trace s)"
  by (auto simp: link_close_def split: sum.splits option.splits)

lemma est_count_identify:
  assumes "identify_entry E fi refused e s = (r, s')"
  shows "est_count (trace s') = est_count (trace s)"
proof -
  from identify_entry_trace [OF assms] obtain ws ids where w: "trace s' = trace s @ ws @ ids \<and>
      (\<forall>x \<in> set ws. \<exists>f b. x = WriteFile f b) \<and>
      (\<forall>l. le_link (entries s e) = Some l \<longrightarrow> ids = [] \<or> (\<exists>h. ids = [Rns (IdentifyLink l h)])) \<and>
      (le_link (entries s e) = None \<longrightarrow> ids = []) \<and> (\<not> is_error r \<longrightarrow> ids \<noteq> [])"
    by (elim exE) (erule that)
  note ws = w [THEN conjunct1] w [THEN conjunct2, THEN conjunct1] and ids = w [THEN conjunct2, THEN conjunct2]
  have "\<forall>x \<in> set ids. \<not> is_established x"
    using ids by (cases "le_link (entries s e)") auto
  moreover have "\<forall>x \<in> set ws. \<not> is_established x"
    using ws(2) by fastforce
  ultimately have "est_count ws = 0" "est_count ids = 0"
    by (simp_all add: est_count_none)
  then show ?thesis by (simp add: ws(1))
qed

lemma est_count_client_identify: "link_identify E fi refused i s = (r, s') \<Longrightarrow> est_count (trace s') = est_count (trace s)"
  by (auto simp: link_identify_def dest: est_count_identify split: sum.splits)

lemma est_count_create:
  "create_link_entry rsvc fresh p cid res sp s = (e, s') \<Longrightarrow> est_count (trace s') = est_count (trace s)"
  by (cases rsvc; cases res)
    (auto simp: create_link_entry_def Let_def wire_callbacks_def attach_link_def)

lemma est_count_established:
  "est_count (trace (emit_established e s)) =
     est_count (trace s) + (if le_link (entries s e) = None then 0 else 1)"
  by (simp add: emit_established_def Let_def established_event_def)

lemma est_count_on_established:
  "est_count (trace (on_established e s)) = est_count (trace s) + (if le_suppress (entries s e) then 0 else 1)"
  by (simp add: on_established_def Let_def established_event_def)

lemma est_count_on_closed: "est_count (trace (on_closed e s)) = est_count (trace s)"
  by (simp add: on_closed_def Let_def)

lemma est_count_say [simp]:
  "est_count (trace (say_phase t ph s)) = est_count (trace s)"
  "est_count (trace (say_failed t x s)) = est_count (trace s)"
  by (simp_all add: say_def say_phase_def say_failed_def phase_event_def failed_event_def Let_def
      split: prod.split exn.split)

lemma lo_step_est_count:
  "lo_step E rsvc fi st ms st' \<Longrightarrow> est_count (trace (lo_sys st')) = est_count (trace (lo_sys st)) + est_marks ms"
proof (induction rule: lo_step.induct)
  case lo_open then show ?case using reserve_link_slot_frame(6) [OF lo_open(3)] by (simp add: est_marks_def)
next
  case (lo_identified st e t refused f s1 l)
  then have "le_link (entries s1 e) = Some l"
    using quiet_coreD(2) [OF quiet_identify [OF lo_identified(3)], of e] by simp
  then show ?case
    by (simp add: goto_def est_marks_def est_count_established est_count_identify [OF lo_identified(3)])
next
  case (lo_rest_identified st e refused f s1 l)
  then have "le_link (entries s1 e) = Some l"
    using quiet_coreD(2) [OF quiet_identify [OF lo_rest_identified(2)], of e] by simp
  then show ?case
    by (simp add: with_sys_def est_marks_def est_count_established est_count_identify [OF lo_rest_identified(2)])
qed (auto simp: goto_def with_sys_def est_marks_def est_count_on_established est_count_on_closed est_count_none
    dest: est_count_wait est_count_close est_count_identify est_count_client_identify est_count_create)

lemma lo_run_est_count:
  "lo_run E rsvc fi st ms st' \<Longrightarrow> est_count (trace (lo_sys st')) = est_count (trace (lo_sys st)) + est_marks ms"
proof (induction rule: lo_run.induct)
  case (lo_run_step st ms st1 ns st2)
  then show ?case by (simp add: lo_step_est_count est_marks_def)
qed (simp add: est_marks_def)

section \<open>Properties\<close>


text \<open>C10. In every interleaving the link table stays well formed: one slot per destination hash, each
  holding an entry for that very hash; and an open that waits for its link, or identifies on it,
  has one.\<close>

theorem link_table_always_ok:
  assumes "lo_run E rsvc fi st0 H st" and "lo_inv st0"
  shows "links_ok (lo_sys st) (ses (lo_sys st)) \<and>
    (\<forall>e t. lo_tasks st e = Some t \<and> ot_pc t \<in> {OpWait, OpIdentify} \<longrightarrow>
       le_link (entries (lo_sys st) e) \<noteq> None \<and> (ot_auto t \<longrightarrow> le_suppress (entries (lo_sys st) e)))"
proof -
  have inv: "lo_inv st" using assms by (rule lo_run_inv)
  moreover have "le_link (entries (lo_sys st) e) \<noteq> None \<and> (ot_auto t \<longrightarrow> le_suppress (entries (lo_sys st) e))"
    if "lo_tasks st e = Some t" "ot_pc t \<in> {OpWait, OpIdentify}" for e t
    using lo_inv_taskD [OF inv that(1)] that(2) by (auto simp: task_ok_def)
  ultimately show ?thesis by (auto simp: lo_inv_def)
qed


text \<open>C37. The teardown of a session does not stop an open that is under way: from every state in which
  an open is about to construct its link, the cleanup can empty the link table, after which the
  open constructs the link all the same and files it in the dead session's table, where no
  teardown follows.\<close>

theorem open_outlives_cleanup:
  assumes "lo_run E rsvc fi st0 H st" and "lo_tasks st e = Some t" and "ot_pc t = OpConstruct d"
  shows "\<exists>l st' es. lo_run E rsvc fi st0 (H @ [MkLink e l]) st' \<and>
    trace (lo_sys st') = trace (link_cleanup (lo_sys st)) @ es \<and>
    Rns (NewLink l (pr_destination_hash (ot_prepared t))) \<in> set es \<and> (\<forall>l'. Rns (TeardownLink l') \<notin> set es) \<and>
    open_links (ses (lo_sys st')) = [(pr_destination_hash (ot_prepared t), e)] \<and>
    le_link (entries (lo_sys st') e) = Some l"
proof -
  let ?s = "link_cleanup (lo_sys st)"
  let ?st1 = "with_sys ?s st"
  have t: "lo_tasks ?st1 e = Some t" using assms(2) by (simp add: with_sys_def)
  obtain e' s1 where c: "create_link_entry rsvc undefined (ot_prepared t) (ot_client_id t) (Some e) (ot_auto t) ?s = (e', s1)"
    by fastforce
  note r = create_reserved_frame [OF c]
  have "lo_run E rsvc fi st0 (H @ []) ?st1"
    using assms(1) lo_cleanup by (rule lo_run_step)
  then have "lo_run E rsvc fi st0 H ?st1" by simp
  from lo_run_step [OF this lo_construct [OF t assms(3)], of undefined e' s1] c
  have run: "lo_run E rsvc fi st0 (H @ [MkLink e (next_ref ?s)]) (goto e OpWait t s1 ?st1)"
    by (simp add: with_sys_def)
  obtain es where "trace s1 = trace ?s @ Rns (NewLink (next_ref ?s) (pr_destination_hash (ot_prepared t))) # es"
    "\<forall>l'. Rns (TeardownLink l') \<notin> set es"
    using c by (cases rsvc) (auto simp: create_link_entry_def Let_def wire_callbacks_def attach_link_def)
  with run r show ?thesis
    by (intro exI [of _ "next_ref ?s"] exI [of _ "goto e OpWait t s1 ?st1"]
        exI [of _ "Rns (NewLink (next_ref ?s) (pr_destination_hash (ot_prepared t))) # es"])
      (simp add: goto_def with_sys_def dict_set_def)
qed

text \<open>C38. Two opens of one destination get in each other's way: when the wait of the first fails, it
  empties the slot that the second one's link has taken over meanwhile; that link is neither torn
  down nor listed any more, and nothing the client can name reaches it.\<close>

theorem failed_wait_evicts_other_link:
  assumes "lo_run E rsvc fi st0 H st" and "lo_inv st0"
    and "lo_tasks st e1 = Some t1" and "ot_pc t1 = OpWait" and "le_link (entries (lo_sys st) e1) = Some l1"
    and "rl_status (rlinks (lo_sys st) l1) \<noteq> LActive"
    and "dict_get (open_links (ses (lo_sys st))) (pr_destination_hash (ot_prepared t1)) = Some e2"
    and "le_link (entries (lo_sys st) e2) = Some l2" and "l2 \<noteq> l1"
  shows "\<exists>st' es. lo_run E rsvc fi st0 (H @ [MkFail e1]) st' \<and>
    trace (lo_sys st') = trace (lo_sys st) @ es \<and> Rns (TeardownLink l2) \<notin> set es \<and>
    rlinks (lo_sys st') l2 = rlinks (lo_sys st) l2 \<and>
    dict_get (open_links (ses (lo_sys st'))) (pr_destination_hash (ot_prepared t1)) = None"
proof -
  have "task_ok (lo_sys st) e1 t1"
    using lo_run_inv [OF assms(1,2)] assms(3) by (rule lo_inv_taskD)
  then have h: "le_destination_hash (entries (lo_sys st) e1) = pr_destination_hash (ot_prepared t1)"
    by (simp add: task_ok_def)
  let ?s1 = "pop_open_link (pr_destination_hash (ot_prepared t1)) (emit (Rns (TeardownLink l1)) (lo_sys st))"
  let ?x = "LinkError ''link establishment timed out''"
  have w: "wait_finish e1 (lo_sys st) = (Inl ?x, ?s1)"
    using assms(5,6) h by (simp add: wait_finish_def Let_def)
  let ?st' = "goto e1 OpFailed t1 (say_failed t1 ?x ?s1) st"
  have "lo_run E rsvc fi st0 (H @ [MkFail e1]) ?st'"
    using assms(1) lo_wait_failed [OF assms(3,4) w] by (rule lo_run_step)
  then show ?thesis
    using assms(9) by (intro exI [of _ ?st']) (auto simp: goto_def say_failed_def say_def)
qed

section \<open>Witnesses\<close>

definition lo0 :: lo where
  "lo0 = \<lparr>lo_sys = sample_sys, lo_tasks = (\<lambda>_. None)\<rparr>"

definition sample_task :: "bool \<Rightarrow> open_pc \<Rightarrow> open_task" where
  "sample_task auto pc = \<lparr>ot_prepared = sample_prepared, ot_auto = auto, ot_client_id = JInt 7, ot_local = None, ot_pc = pc\<rparr>"

lemma lo0_inv: "lo_inv lo0"
  by (simp add: lo_inv_def lo0_def links_ok_def sample_sys_def new_session_def)

lemma lo0_tasks: "lo_tasks lo0 = (\<lambda>_. None)"
  by (simp add: lo0_def)

lemma sample_env_prepared:
  "prepare_open_link sample_env (JStr (bytes_hex (replicate 16 7))) JNull (JStr ''app'') (JList [JStr ''echo'']) =
     Inr sample_prepared"
  by (simp add: prepare_open_link_def Let_def aspect_match_def drop_newline_def word_char_def code_def str_items_def
      sample_prepared_def sample_env_def)

lemma no_local_file: "id_files s = [] \<Longrightarrow> try_local_identity E s h = None"
  by (simp add: try_local_identity_def identity_load_def Let_def)

text \<open>A new open, up to the resolution of its destination.\<close>

lemma open_to_resolve:
  assumes run: "lo_run E rsvc fi st0 H st" and p: "prepare_open_link E ih dh app aspects = Inr sample_prepared"
    and files: "id_files (lo_sys st) = []" and reuse: "reuse_active_link (lo_sys st) (replicate 16 9) = None"
    and e: "e = next_ref (lo_sys st)"
  shows "\<exists>st'. lo_run E rsvc fi st0 H st' \<and> lo_tasks st' = (lo_tasks st)(e \<mapsto> sample_task auto OpResolve) \<and>
    next_ref (lo_sys st') = Suc e \<and> rlinks (lo_sys st') = rlinks (lo_sys st) \<and> id_files (lo_sys st') = [] \<and>
    entries (lo_sys st') = (entries (lo_sys st))(e := new_entry sample_prepared None (JInt 7) False) \<and>
    open_links (ses (lo_sys st')) = dict_set (replicate 16 9) e (open_links (ses (lo_sys st)))"
proof -
  have h: "pr_destination_hash sample_prepared = replicate 16 9" by (simp add: sample_prepared_def)
  obtain s1 where s1: "reserve_link_slot sample_prepared (JInt 7) (lo_sys st) = (e, s1)"
    by (simp add: reserve_link_slot_def e Let_def)
  note r = reserve_link_slot_frame [OF s1]
  have f1: "id_files s1 = []" using s1 files by (auto simp: reserve_link_slot_def Let_def)
  let ?s = "emit (ConnSend ''c'' (open_ack (JInt 7) sample_prepared)) s1"
  let ?st1 = "st\<lparr>lo_sys := ?s, lo_tasks := (lo_tasks st)(e \<mapsto> new_task sample_prepared auto (JInt 7))\<rparr>"
  have "lo_step E rsvc fi st [] ?st1"
    by (rule lo_open [OF p _ s1]) (simp add: h reuse)
  with run have 1: "lo_run E rsvc fi st0 (H @ []) ?st1" by (rule lo_run_step)
  let ?t = "new_task sample_prepared auto (JInt 7)"
  have "lo_step E rsvc fi ?st1 [] (goto e OpResolve (?t\<lparr>ot_local := None\<rparr>) ?s ?st1)"
    using lo_path_known [of ?st1 e ?t None E rsvc fi] by (simp add: new_task_def no_local_file f1)
  with 1 have "lo_run E rsvc fi st0 ((H @ []) @ []) (goto e OpResolve (?t\<lparr>ot_local := None\<rparr>) ?s ?st1)"
    by (rule lo_run_step)
  then show ?thesis
    using r f1 h by (intro exI [of _ "goto e OpResolve (?t\<lparr>ot_local := None\<rparr>) ?s ?st1"])
      (simp add: goto_def new_task_def sample_task_def)
qed

definition sample_out :: rns_destination where
  "sample_out = \<lparr>d_hash = replicate 16 9, d_identity = Some sample_identity,
     d_name = join ''.'' (''app'' # [''echo''] @ [id_hexhash sample_identity]), d_direction = DirOut, d_type = TSingle\<rparr>"

lemma discovery_resolves: "resolve_destination discovery_env None k sample_prepared = Inr sample_out"
  by (simp add: resolve_destination_def discovery_env_def sample_env_def sample_prepared_def sample_out_def)

lemma open_to_construct:
  assumes run: "lo_run discovery_env rsvc fi st0 H st" and files: "id_files (lo_sys st) = []"
    and reuse: "reuse_active_link (lo_sys st) (replicate 16 9) = None" and e: "e = next_ref (lo_sys st)"
  shows "\<exists>st'. lo_run discovery_env rsvc fi st0 (H @ [MkPhase e ''establishing_link'']) st' \<and>
    lo_tasks st' = (lo_tasks st)(e \<mapsto> sample_task auto (OpConstruct sample_out)) \<and>
    next_ref (lo_sys st') = Suc e \<and> rlinks (lo_sys st') = rlinks (lo_sys st) \<and> id_files (lo_sys st') = [] \<and>
    entries (lo_sys st') = (entries (lo_sys st))(e := new_entry sample_prepared None (JInt 7) False) \<and>
    open_links (ses (lo_sys st')) = dict_set (replicate 16 9) e (open_links (ses (lo_sys st)))"
proof -
  obtain st1 where st1: "lo_run discovery_env rsvc fi st0 H st1" "lo_tasks st1 = (lo_tasks st)(e \<mapsto> sample_task auto OpResolve)"
    and s: "next_ref (lo_sys st1) = Suc e" "rlinks (lo_sys st1) = rlinks (lo_sys st)" "id_files (lo_sys st1) = []"
      "entries (lo_sys st1) = (entries (lo_sys st))(e := new_entry sample_prepared None (JInt 7) False)"
      "open_links (ses (lo_sys st1)) = dict_set (replicate 16 9) e (open_links (ses (lo_sys st)))"
    using open_to_resolve [OF run sample_prepared_ok files reuse e] by blast
  have "lo_step discovery_env rsvc fi st1 [MkPhase e ''establishing_link'']
      (goto e (OpConstruct sample_out) (sample_task auto OpResolve)
        (say_phase (sample_task auto OpResolve) ''establishing_link'' (emit (Rns (OutDestination sample_out)) (lo_sys st1))) st1)"
    by (rule lo_resolved [of _ _ _ _ 0]) (simp_all add: st1(2), simp_all add: sample_task_def discovery_resolves)
  from lo_run_step [OF st1(1) this] st1(2) s show ?thesis
    by (intro exI [of _ "goto e (OpConstruct sample_out) (sample_task auto OpResolve)
        (say_phase (sample_task auto OpResolve) ''establishing_link'' (emit (Rns (OutDestination sample_out)) (lo_sys st1))) st1"])
      (simp add: goto_def say_phase_def say_def sample_task_def)
qed

lemma lo0_sys: "id_files (lo_sys lo0) = []" "next_ref (lo_sys lo0) = 0" "reuse_active_link (lo_sys lo0) h = None"
  "open_links (ses (lo_sys lo0)) = []"
  by (simp_all add: lo0_def sample_sys_simps reuse_active_link_def new_session_def)


theorem link_table_always_ok_witness:
  "\<exists>st. lo_run discovery_env None sample_identity lo0 [MkPhase 0 ''establishing_link''] st \<and>
     links_ok (lo_sys st) (ses (lo_sys st)) \<and> open_links (ses (lo_sys st)) \<noteq> []"
proof -
  obtain st1 where st1: "lo_run discovery_env None sample_identity lo0 ([] @ [MkPhase 0 ''establishing_link'']) st1"
    "open_links (ses (lo_sys st1)) = dict_set (replicate 16 9) 0 (open_links (ses (lo_sys lo0)))"
    using open_to_construct [OF lo_run_refl lo0_sys(1) lo0_sys(3) lo0_sys(2) [symmetric], where auto = True] by fastforce
  from link_table_always_ok [OF st1(1) lo0_inv] st1 show ?thesis
    by (intro exI [of _ st1]) (simp add: lo0_sys dict_set_def)
qed


theorem open_outlives_cleanup_witness:
  "\<exists>l H st. lo_run discovery_env None sample_identity lo0 (H @ [MkLink 0 l]) st \<and>
     open_links (ses (lo_sys st)) = [(replicate 16 9, 0)] \<and> le_link (entries (lo_sys st) 0) = Some l"
proof -
  obtain st1 where st1: "lo_run discovery_env None sample_identity lo0 ([] @ [MkPhase 0 ''establishing_link'']) st1"
    "lo_tasks st1 0 = Some (sample_task True (OpConstruct sample_out))"
    using open_to_construct [OF lo_run_refl lo0_sys(1) lo0_sys(3) lo0_sys(2) [symmetric], where auto = True] by fastforce
  have "ot_pc (sample_task True (OpConstruct sample_out)) = OpConstruct sample_out"
    "pr_destination_hash (ot_prepared (sample_task True (OpConstruct sample_out))) = replicate 16 9"
    by (simp_all add: sample_task_def sample_prepared_def)
  with open_outlives_cleanup [OF st1 this(1)] show ?thesis by metis
qed

text \<open>Two opens of the same destination, the first of which comes to a link that has closed.\<close>

lemma construct_sample:
  assumes "lo_run discovery_env None fi st0 H st" and "lo_tasks st e = Some (sample_task auto (OpConstruct sample_out))"
  shows "\<exists>st'. lo_run discovery_env None fi st0 (H @ [MkLink e (next_ref (lo_sys st))]) st' \<and>
    lo_tasks st' = (lo_tasks st)(e \<mapsto> sample_task auto OpWait) \<and> next_ref (lo_sys st') = Suc (next_ref (lo_sys st)) \<and>
    rlinks (lo_sys st') = (rlinks (lo_sys st))(next_ref (lo_sys st) := fresh) \<and>
    le_link (entries (lo_sys st') e) = Some (next_ref (lo_sys st)) \<and>
    (\<forall>k. k \<noteq> e \<longrightarrow> entries (lo_sys st') k = entries (lo_sys st) k) \<and>
    open_links (ses (lo_sys st')) = dict_set (replicate 16 9) e (open_links (ses (lo_sys st)))"
proof -
  let ?t = "sample_task auto (OpConstruct sample_out)"
  obtain e' s1 where c: "create_link_entry None fresh (ot_prepared ?t) (ot_client_id ?t) (Some e) (ot_auto ?t) (lo_sys st) = (e', s1)"
    by fastforce
  note r = create_reserved_frame [OF c]
  have "lo_step discovery_env None fi st [MkLink e (next_ref (lo_sys st))] (goto e OpWait ?t s1 st)"
    by (rule lo_construct [OF assms(2) _ c, of sample_out]) (simp add: sample_task_def)
  from lo_run_step [OF assms(1) this] r show ?thesis
    by (intro exI [of _ "goto e OpWait ?t s1 st"]) (simp add: goto_def sample_task_def sample_prepared_def)
qed

definition closed_link :: rns_link where
  "closed_link = active_link\<lparr>rl_status := LClosed\<rparr>"

theorem failed_wait_evicts_other_link_witness:
  "\<exists>H st. lo_run discovery_env None sample_identity lo0 (H @ [MkFail 0]) st \<and> MkLink 1 3 \<in> set H \<and>
     rl_status (rlinks (lo_sys st) 3) = LActive \<and> dict_get (open_links (ses (lo_sys st))) (replicate 16 9) = None"
proof -
  note start = open_to_construct [OF lo_run_refl lo0_sys(1) lo0_sys(3) lo0_sys(2) [symmetric], where auto = True]
  obtain st1 where st1: "lo_run discovery_env None sample_identity lo0 ([] @ [MkPhase 0 ''establishing_link'']) st1"
    "lo_tasks st1 0 = Some (sample_task True (OpConstruct sample_out))" "next_ref (lo_sys st1) = 1"
    "id_files (lo_sys st1) = []" "entries (lo_sys st1) 0 = new_entry sample_prepared None (JInt 7) False"
    "open_links (ses (lo_sys st1)) = [(replicate 16 9, 0)]"
    using start by (fastforce simp: lo0_sys dict_set_def)
  have "reuse_active_link (lo_sys st1) (replicate 16 9) = None"
    by (simp add: reuse_active_link_def st1(5,6) dict_get_def new_entry_def)
  from open_to_construct [OF st1(1,4) this st1(3) [symmetric], where auto = True]
  obtain st2 where st2: "lo_run discovery_env None sample_identity lo0
      (([] @ [MkPhase 0 ''establishing_link'']) @ [MkPhase 1 ''establishing_link'']) st2"
    "lo_tasks st2 0 = Some (sample_task True (OpConstruct sample_out))"
    "lo_tasks st2 1 = Some (sample_task True (OpConstruct sample_out))" "next_ref (lo_sys st2) = 2"
    using st1(2) by (auto simp: numeral_2_eq_2)
  obtain st3 where st3: "lo_run discovery_env None sample_identity lo0
      ((([] @ [MkPhase 0 ''establishing_link'']) @ [MkPhase 1 ''establishing_link'']) @ [MkLink 0 2]) st3"
    "lo_tasks st3 0 = Some (sample_task True OpWait)" "lo_tasks st3 1 = Some (sample_task True (OpConstruct sample_out))"
    "next_ref (lo_sys st3) = 3" "rlinks (lo_sys st3) 2 = closed_link" "le_link (entries (lo_sys st3) 0) = Some 2"
    using construct_sample [OF st2(1,2), of closed_link] st2(3,4) by (auto simp: numeral_3_eq_3)
  obtain st4 where st4: "lo_run discovery_env None sample_identity lo0
      (((([] @ [MkPhase 0 ''establishing_link'']) @ [MkPhase 1 ''establishing_link'']) @ [MkLink 0 2]) @ [MkLink 1 3]) st4"
    "lo_tasks st4 0 = Some (sample_task True OpWait)" "rlinks (lo_sys st4) 3 = active_link"
    "rlinks (lo_sys st4) 2 = closed_link" "le_link (entries (lo_sys st4) 0) = Some 2"
    "le_link (entries (lo_sys st4) 1) = Some 3" "dict_get (open_links (ses (lo_sys st4))) (replicate 16 9) = Some 1"
    using construct_sample [OF st3(1,3), of active_link] st3(2,4-6) by auto
  have "ot_pc (sample_task True OpWait) = OpWait" "pr_destination_hash (ot_prepared (sample_task True OpWait)) = replicate 16 9"
    "rl_status (rlinks (lo_sys st4) 2) \<noteq> LActive" "(3 :: nat) \<noteq> 2"
    using st4(4) by (simp_all add: sample_task_def sample_prepared_def closed_link_def)
  with failed_wait_evicts_other_link [OF st4(1) lo0_inv st4(2) this(1) st4(5) this(3), of 1 3] st4(3,6,7)
  obtain st where "lo_run discovery_env None sample_identity lo0
      ((((([] @ [MkPhase 0 ''establishing_link'']) @ [MkPhase 1 ''establishing_link'']) @ [MkLink 0 2]) @ [MkLink 1 3]) @ [MkFail 0]) st"
    "rlinks (lo_sys st) 3 = active_link" "dict_get (open_links (ses (lo_sys st))) (replicate 16 9) = None" by auto
  moreover have "rl_status active_link = LActive" by (simp add: active_link_def)
  ultimately show ?thesis
    by (intro exI [of _ "[MkPhase 0 ''establishing_link'', MkPhase 1 ''establishing_link'', MkLink 0 2, MkLink 1 3]"]
        exI [of _ st]) simp
qed

end
