(* ===== verification/Sessions.thy ===== *)
theory Sessions
  imports Resources Link_Open
begin

text \<open>
  \<open>auth/session.py\<close>, \<open>ws/hub.py\<close> and \<open>ws/connection.py\<close>: the registry of sessions, the
  WebSocket connections, and the fan-out of events to them. A \<open>world\<close> extends the shared state
  with all sessions and connections; a service operation runs on the \<open>sys\<close> of one session and
  is written back (\<open>on_session\<close>). \<open>wire\<close> lists the frames in the order they were sent.
\<close>

section \<open>State\<close>

type_synonym sref = nat

record ws_conn =
  ws_session :: "sref option"
  ws_closed :: bool

record world = shared +
  sessions :: "sref \<Rightarrow> session"
  next_sref :: nat
  by_token :: "(string, sref) dict"
  by_id :: "(string, sref) dict"
  anon :: "sref option"
  hub_conns :: "string list"
  conns :: "string \<Rightarrow> ws_conn"
  wire :: "(string \<times> json) list"

definition upd_session :: "sref \<Rightarrow> (session \<Rightarrow> session) \<Rightarrow> world \<Rightarrow> world" where
  "upd_session r f w = w\<lparr>sessions := (sessions w)(r := f (sessions w r))\<rparr>"

definition upd_conn :: "string \<Rightarrow> (ws_conn \<Rightarrow> ws_conn) \<Rightarrow> world \<Rightarrow> world" where
  "upd_conn c f w = w\<lparr>conns := (conns w)(c := f (conns w c))\<rparr>"

definition sys_of :: "sref \<Rightarrow> world \<Rightarrow> sys" where
  "sys_of r w = shared.extend (shared.truncate w) (sys.fields (sessions w r))"

definition put_sys :: "sref \<Rightarrow> sys \<Rightarrow> world \<Rightarrow> world" where
  "put_sys r s w = upd_session r (\<lambda>_. ses s) (shared.extend (shared.truncate s) (shared.more w))"

section \<open>Connections and the hub\<close>

text \<open>\<open>WSConnection.send_json\<close>: a frame for a closed socket is dropped.\<close>

definition conn_send :: "json \<Rightarrow> string \<Rightarrow> world \<Rightarrow> world" where
  "conn_send j c w = (if ws_closed (conns w c) then w else w\<lparr>wire := wire w @ [(c, j)]\<rparr>)"

definition conn_close :: "int \<Rightarrow> string \<Rightarrow> string \<Rightarrow> world \<Rightarrow> world" where
  "conn_close status msg c w =
     (if ws_closed (conns w c) then w
      else emit (ConnClose c status msg) (upd_conn c (\<lambda>k. k\<lparr>ws_closed := True\<rparr>) w))"

definition conn_attach :: "sref \<Rightarrow> string \<Rightarrow> world \<Rightarrow> world" where
  "conn_attach r c w =
     upd_session r (\<lambda>x. x\<lparr>ws_connections := set_add c (ws_connections x)\<rparr>)
       (upd_conn c (\<lambda>k. k\<lparr>ws_session := Some r\<rparr>) w)"

definition conn_detach :: "string \<Rightarrow> world \<Rightarrow> world" where
  "conn_detach c w =
     (case ws_session (conns w c) of
        None \<Rightarrow> w
      | Some r \<Rightarrow>
          upd_conn c (\<lambda>k. k\<lparr>ws_session := None\<rparr>)
            (upd_session r (\<lambda>x. x\<lparr>ws_connections := set_discard c (ws_connections x)\<rparr>) w))"

definition hub_register :: "string \<Rightarrow> world \<Rightarrow> world" where
  "hub_register c w = w\<lparr>hub_conns := set_add c (hub_conns w)\<rparr>"

definition hub_unregister :: "string \<Rightarrow> world \<Rightarrow> world" where
  "hub_unregister c w = w\<lparr>hub_conns := set_discard c (hub_conns w)\<rparr>"

definition session_connections :: "string \<Rightarrow> world \<Rightarrow> string list" where
  "session_connections sid w =
     filter (\<lambda>c. case ws_session (conns w c) of None \<Rightarrow> False | Some r \<Rightarrow> s_id (sessions w r) = sid) (hub_conns w)"

definition fanout :: "string list \<Rightarrow> json \<Rightarrow> world \<Rightarrow> world" where
  "fanout targets event w = fold (conn_send event) targets w"

definition hub_broadcast :: "json \<Rightarrow> world \<Rightarrow> world" where
  "hub_broadcast event w = fanout (hub_conns w) event w"

definition hub_send_session :: "string \<Rightarrow> json \<Rightarrow> world \<Rightarrow> world" where
  "hub_send_session sid event w = (if sid = [] then w else fanout (session_connections sid w) event w)"

text \<open>
  Events that a service operation put on the trace reach the hub in the order they were emitted;
  those of callbacks go through the bridge, which keeps their order.
\<close>

definition deliver :: "effect \<Rightarrow> world \<Rightarrow> world" where
  "deliver e w =
     (case e of
        HubSession i j \<Rightarrow> hub_send_session i j w
      | HubBroadcast j \<Rightarrow> hub_broadcast j w
      | BridgeSession i j \<Rightarrow> hub_send_session i j w
      | BridgeBroadcast j \<Rightarrow> hub_broadcast j w
      | ConnSend c j \<Rightarrow> conn_send j c w
      | _ \<Rightarrow> w)"

definition on_session :: "sref \<Rightarrow> (sys \<Rightarrow> sys) \<Rightarrow> world \<Rightarrow> world" where
  "on_session r f w =
     (let s = f (sys_of r w) in fold deliver (drop (length (trace w)) (trace s)) (put_sys r s w))"

section \<open>The registry\<close>

text \<open>\<open>create\<close>: \<open>token\<close> and \<open>sid\<close> are the random strings.\<close>

definition registry_create :: "string \<Rightarrow> string \<Rightarrow> rat \<Rightarrow> bool \<Rightarrow> world \<Rightarrow> sref \<times> world" where
  "registry_create token sid now is_anon w =
     (let r = next_sref w
      in (r, w\<lparr>sessions := (sessions w)(r := new_session sid token now is_anon), next_sref := Suc r,
               by_token := dict_set token r (by_token w), by_id := dict_set sid r (by_id w)\<rparr>))"

definition registry_anonymous :: "string \<Rightarrow> string \<Rightarrow> rat \<Rightarrow> world \<Rightarrow> sref \<times> world" where
  "registry_anonymous token sid now w =
     (let (r, w1) =
        (case anon w of
           Some r \<Rightarrow> (r, w)
         | None \<Rightarrow> (let (r, w') = registry_create token sid now True w in (r, w'\<lparr>anon := Some r\<rparr>)))
      in (r, upd_session r (touch now) w1))"

definition get_by_token :: "string \<Rightarrow> rat \<Rightarrow> world \<Rightarrow> sref option \<times> world" where
  "get_by_token token now w =
     (case dict_get (by_token w) token of
        None \<Rightarrow> (None, w) | Some r \<Rightarrow> (Some r, upd_session r (touch now) w))"

definition get_by_id :: "string \<Rightarrow> world \<Rightarrow> sref option" where
  "get_by_id sid w = dict_get (by_id w) sid"

definition ended_event :: "string \<Rightarrow> json" where
  "ended_event reason = JObj [(''type'', JStr ''auth.session.ended''), (''reason'', JStr reason)]"

definition registry_teardown :: "(sys \<Rightarrow> sys) list \<Rightarrow> string \<Rightarrow> sref \<Rightarrow> world \<Rightarrow> world" where
  "registry_teardown hooks reason r w =
     (let w1 = on_session r (run_hooks hooks) w;
          w2 = hub_send_session (s_id (sessions w1 r)) (ended_event reason) w1
      in fold (conn_close 4001 (''session_'' @ reason)) (ws_connections (sessions w2 r)) w2)"

definition registry_drop :: "sref \<Rightarrow> world \<Rightarrow> world" where
  "registry_drop r w =
     w\<lparr>by_token := dict_pop (s_token (sessions w r)) (by_token w), by_id := dict_pop (s_id (sessions w r)) (by_id w)\<rparr>"

definition registry_revoke :: "(sys \<Rightarrow> sys) list \<Rightarrow> string \<Rightarrow> string \<Rightarrow> world \<Rightarrow> sref option \<times> world" where
  "registry_revoke hooks token reason w =
     (case dict_get (by_token w) token of
        None \<Rightarrow> (None, w)
      | Some r \<Rightarrow>
         (let w1 = w\<lparr>by_token := dict_pop token (by_token w)\<rparr>;
              w2 = w1\<lparr>by_id := dict_pop (s_id (sessions w r)) (by_id w1)\<rparr>;
              w3 = (if anon w2 = Some r then w2\<lparr>anon := None\<rparr> else w2)
          in (Some r, registry_teardown hooks reason r w3)))"

definition is_expired :: "auth_config \<Rightarrow> session \<Rightarrow> rat \<Rightarrow> bool" where
  "is_expired a x now \<longleftrightarrow>
     \<not> is_anonymous x \<and>
     (of_int (session_inactivity_timeout a) < now - last_seen_at x \<or> of_int (session_max_lifetime a) < now - created_at x)"

definition sweep_sessions :: "(sys \<Rightarrow> sys) list \<Rightarrow> auth_config \<Rightarrow> rat \<Rightarrow> world \<Rightarrow> sref list \<times> world" where
  "sweep_sessions hooks a now w =
     (let expired = filter (\<lambda>r. is_expired a (sessions w r) now) (dict_values (by_token w))
      in (expired, fold (\<lambda>r w. registry_teardown hooks ''expired'' r (registry_drop r w)) expired w))"

text \<open>\<open>build_app\<close> registers the hooks in this order.\<close>

definition app_hooks :: "(sys \<Rightarrow> sys) list" where
  "app_hooks = [resource_cleanup, link_cleanup, packet_cleanup, destination_cleanup]"

section \<open>Lemmas\<close>

lemma sys_of_simps [simp]:
  "entries (sys_of r w) = entries w" "rlinks (sys_of r w) = rlinks w" "transfers (sys_of r w) = transfers w"
  "store_paths (sys_of r w) = store_paths w" "id_files (sys_of r w) = id_files w"
  "default_id_file (sys_of r w) = default_id_file w" "res_files (sys_of r w) = res_files w"
  "res_tags (sys_of r w) = res_tags w" "next_ref (sys_of r w) = next_ref w" "trace (sys_of r w) = trace w"
  "ses (sys_of r w) = sessions w r"
  by (simp_all add: sys_of_def shared.defs sys.defs)

lemma put_sys_simps [simp]:
  "entries (put_sys r s w) = entries s" "rlinks (put_sys r s w) = rlinks s" "transfers (put_sys r s w) = transfers s"
  "res_files (put_sys r s w) = res_files s" "trace (put_sys r s w) = trace s" "next_ref (put_sys r s w) = next_ref s"
  "sessions (put_sys r s w) = (sessions w)(r := ses s)" "next_sref (put_sys r s w) = next_sref w"
  "by_token (put_sys r s w) = by_token w" "by_id (put_sys r s w) = by_id w" "anon (put_sys r s w) = anon w"
  "hub_conns (put_sys r s w) = hub_conns w" "conns (put_sys r s w) = conns w" "wire (put_sys r s w) = wire w"
  by (cases w; simp add: put_sys_def upd_session_def shared.defs)+

lemma upd_session_simps [simp]:
  "sessions (upd_session r f w) = (sessions w)(r := f (sessions w r))" "next_sref (upd_session r f w) = next_sref w"
  "by_token (upd_session r f w) = by_token w" "by_id (upd_session r f w) = by_id w" "anon (upd_session r f w) = anon w"
  "hub_conns (upd_session r f w) = hub_conns w" "conns (upd_session r f w) = conns w" "wire (upd_session r f w) = wire w"
  "trace (upd_session r f w) = trace w"
  by (simp_all add: upd_session_def)

lemma upd_conn_simps [simp]:
  "conns (upd_conn c f w) = (conns w)(c := f (conns w c))" "sessions (upd_conn c f w) = sessions w"
  "next_sref (upd_conn c f w) = next_sref w" "by_token (upd_conn c f w) = by_token w" "by_id (upd_conn c f w) = by_id w"
  "anon (upd_conn c f w) = anon w" "hub_conns (upd_conn c f w) = hub_conns w" "wire (upd_conn c f w) = wire w"
  "trace (upd_conn c f w) = trace w"
  by (simp_all add: upd_conn_def)

lemma emit_world [simp]:
  "sessions (emit x w) = sessions w" "next_sref (emit x w) = next_sref w" "by_token (emit x w) = by_token w"
  "by_id (emit x w) = by_id w" "anon (emit x w) = anon w" "hub_conns (emit x w) = hub_conns w"
  "conns (emit x w) = conns w" "wire (emit x w) = wire w"
  by (simp_all add: emit_def)

text \<open>Sending and closing leave the registry, the sessions and the hub alone.\<close>

lemma conn_send_frame [simp]:
  "sessions (conn_send j c w) = sessions w" "next_sref (conn_send j c w) = next_sref w"
  "by_token (conn_send j c w) = by_token w" "by_id (conn_send j c w) = by_id w" "anon (conn_send j c w) = anon w"
  "hub_conns (conn_send j c w) = hub_conns w" "conns (conn_send j c w) = conns w" "trace (conn_send j c w) = trace w"
  "wire (conn_send j c w) = wire w @ (if ws_closed (conns w c) then [] else [(c, j)])"
  by (simp_all add: conn_send_def)

lemma fanout_frame [simp]:
  "sessions (fanout cs j w) = sessions w" "next_sref (fanout cs j w) = next_sref w"
  "by_token (fanout cs j w) = by_token w" "by_id (fanout cs j w) = by_id w" "anon (fanout cs j w) = anon w"
  "hub_conns (fanout cs j w) = hub_conns w" "conns (fanout cs j w) = conns w" "trace (fanout cs j w) = trace w"
  "wire (fanout cs j w) = wire w @ map (\<lambda>c. (c, j)) (filter (\<lambda>c. \<not> ws_closed (conns w c)) cs)"
  unfolding fanout_def by (induction cs arbitrary: w) simp_all

lemma hub_send_session_frame [simp]:
  "sessions (hub_send_session i j w) = sessions w" "next_sref (hub_send_session i j w) = next_sref w"
  "by_token (hub_send_session i j w) = by_token w" "by_id (hub_send_session i j w) = by_id w"
  "anon (hub_send_session i j w) = anon w" "hub_conns (hub_send_session i j w) = hub_conns w"
  "conns (hub_send_session i j w) = conns w" "trace (hub_send_session i j w) = trace w"
  by (simp_all add: hub_send_session_def)

lemma hub_send_session_wire:
  "i \<noteq> [] \<Longrightarrow> wire (hub_send_session i j w) =
     wire w @ map (\<lambda>c. (c, j)) (filter (\<lambda>c. \<not> ws_closed (conns w c)) (session_connections i w))"
  by (simp add: hub_send_session_def)

lemma deliver_frame [simp]:
  "sessions (deliver e w) = sessions w" "next_sref (deliver e w) = next_sref w"
  "by_token (deliver e w) = by_token w" "by_id (deliver e w) = by_id w" "anon (deliver e w) = anon w"
  "hub_conns (deliver e w) = hub_conns w" "conns (deliver e w) = conns w" "trace (deliver e w) = trace w"
  by (simp_all add: deliver_def hub_broadcast_def split: effect.split)

lemma fold_deliver_frame [simp]:
  "sessions (fold deliver es w) = sessions w" "next_sref (fold deliver es w) = next_sref w"
  "by_token (fold deliver es w) = by_token w" "by_id (fold deliver es w) = by_id w" "anon (fold deliver es w) = anon w"
  "hub_conns (fold deliver es w) = hub_conns w" "conns (fold deliver es w) = conns w"
  "trace (fold deliver es w) = trace w"
  by (induction es arbitrary: w) simp_all

lemma on_session_simps [simp]:
  "sessions (on_session r f w) = (sessions w)(r := ses (f (sys_of r w)))" "next_sref (on_session r f w) = next_sref w"
  "by_token (on_session r f w) = by_token w" "by_id (on_session r f w) = by_id w" "anon (on_session r f w) = anon w"
  "hub_conns (on_session r f w) = hub_conns w" "conns (on_session r f w) = conns w"
  "trace (on_session r f w) = trace (f (sys_of r w))"
  by (simp_all add: on_session_def Let_def)

lemma conn_close_frame [simp]:
  "sessions (conn_close k m c w) = sessions w" "next_sref (conn_close k m c w) = next_sref w"
  "by_token (conn_close k m c w) = by_token w" "by_id (conn_close k m c w) = by_id w" "anon (conn_close k m c w) = anon w"
  "hub_conns (conn_close k m c w) = hub_conns w" "wire (conn_close k m c w) = wire w"
  "ws_session (conns (conn_close k m c w) d) = ws_session (conns w d)"
  "ws_closed (conns (conn_close k m c w) d) = (d = c \<or> ws_closed (conns w d))"
  by (simp_all add: conn_close_def)

lemma fold_close_frame [simp]:
  "sessions (fold (conn_close k m) cs w) = sessions w" "next_sref (fold (conn_close k m) cs w) = next_sref w"
  "by_token (fold (conn_close k m) cs w) = by_token w" "by_id (fold (conn_close k m) cs w) = by_id w"
  "anon (fold (conn_close k m) cs w) = anon w" "hub_conns (fold (conn_close k m) cs w) = hub_conns w"
  "wire (fold (conn_close k m) cs w) = wire w"
  "ws_session (conns (fold (conn_close k m) cs w) d) = ws_session (conns w d)"
  "ws_closed (conns (fold (conn_close k m) cs w) d) = (d \<in> set cs \<or> ws_closed (conns w d))"
  by (induction cs arbitrary: w) auto

lemma conn_close_trace:
  "trace (conn_close k m c w) = trace w @ (if ws_closed (conns w c) then [] else [ConnClose c k m])"
  by (simp add: conn_close_def)

lemma fold_close_trace:
  "\<exists>es. trace (fold (conn_close k m) cs w) = trace w @ es \<and> (\<forall>e \<in> set es. \<exists>c. e = ConnClose c k m)"
proof (induction cs arbitrary: w)
  case (Cons c cs)
  obtain es where "trace (fold (conn_close k m) cs (conn_close k m c w)) = trace (conn_close k m c w) @ es"
    "\<forall>e \<in> set es. \<exists>c. e = ConnClose c k m"
    using Cons by blast
  then show ?case
    by (intro exI [of _ "(if ws_closed (conns w c) then [] else [ConnClose c k m]) @ es"])
       (auto simp: conn_close_trace)
qed simp

section \<open>The hooks of the application\<close>

definition session_cleared :: "session \<Rightarrow> bool" where
  "session_cleared x \<longleftrightarrow>
     owned_destinations x = [] \<and> open_links x = [] \<and> packet_listeners x = [] \<and> pending_receipts x = [] \<and>
     active_transfers x = []"

lemma app_hooks_ok: "\<forall>h \<in> set app_hooks. hook_ok h"
  using resource_hook.hook_is_ok link_hook.hook_is_ok packet_hook.hook_is_ok destination_hook.hook_is_ok
  by (simp add: app_hooks_def)

lemma app_hooks_person: "same_person (ses s) (ses (run_hooks app_hooks s))"
  using hook_okD(2) [OF run_hooks_ok [OF app_hooks_ok]] .

lemma app_hooks_clear: "session_cleared (ses (run_hooks app_hooks s))"
proof -
  have "active_transfers (ses (run_hooks ([] @ resource_cleanup # [link_cleanup, packet_cleanup, destination_cleanup]) s)) = []"
    by (rule resource_hook.cleared_after) (use app_hooks_ok in \<open>simp add: app_hooks_def\<close>)
  moreover have "open_links (ses (run_hooks ([resource_cleanup] @ link_cleanup # [packet_cleanup, destination_cleanup]) s)) = []"
    by (rule link_hook.cleared_after) (use app_hooks_ok in \<open>simp add: app_hooks_def\<close>)
  moreover have "packet_listeners (ses (run_hooks ([resource_cleanup, link_cleanup] @ packet_cleanup # [destination_cleanup]) s)) = [] \<and>
      pending_receipts (ses (run_hooks ([resource_cleanup, link_cleanup] @ packet_cleanup # [destination_cleanup]) s)) = []"
    by (rule packet_hook.cleared_after) (use app_hooks_ok in \<open>simp add: app_hooks_def\<close>)
  moreover have "owned_destinations (ses (run_hooks ([resource_cleanup, link_cleanup, packet_cleanup] @ destination_cleanup # []) s)) = []"
    by (rule destination_hook.cleared_after) simp
  ultimately show ?thesis by (simp add: session_cleared_def app_hooks_def)
qed

section \<open>The invariant of the registry and the connections\<close>

definition registered :: "world \<Rightarrow> sref \<Rightarrow> bool" where
  "registered w r \<longleftrightarrow> dict_get (by_token w) (s_token (sessions w r)) = Some r"

text \<open>
  \<open>registry_ok\<close>: the two indexes hold the same sessions under their own token and id, the
  anonymous session is one of them, and no two sessions share an id. \<open>conns_ok\<close>: a connection
  and its session name each other, and a socket whose session is gone is closed.
\<close>

definition registry_ok :: "world \<Rightarrow> bool" where
  "registry_ok w \<longleftrightarrow>
     dict_ok (by_token w) \<and> dict_ok (by_id w) \<and>
     (\<forall>t r. dict_get (by_token w) t = Some r \<longrightarrow>
        r < next_sref w \<and> s_token (sessions w r) = t \<and> dict_get (by_id w) (s_id (sessions w r)) = Some r) \<and>
     (\<forall>i r. dict_get (by_id w) i = Some r \<longrightarrow> s_id (sessions w r) = i \<and> registered w r) \<and>
     (\<forall>r. anon w = Some r \<longrightarrow> registered w r \<and> is_anonymous (sessions w r)) \<and>
     (\<forall>r q. r < next_sref w \<longrightarrow> q < next_sref w \<longrightarrow> s_id (sessions w r) = s_id (sessions w q) \<longrightarrow> r = q) \<and>
     (\<forall>r. r < next_sref w \<longrightarrow> s_id (sessions w r) \<noteq> [])"

definition conns_ok :: "world \<Rightarrow> bool" where
  "conns_ok w \<longleftrightarrow>
     (\<forall>c r. ws_session (conns w c) = Some r \<longrightarrow> r < next_sref w \<and> (registered w r \<or> ws_closed (conns w c))) \<and>
     (\<forall>r c. r < next_sref w \<longrightarrow> (c \<in> set (ws_connections (sessions w r))) = (ws_session (conns w c) = Some r)) \<and>
     (\<forall>r. r < next_sref w \<longrightarrow> distinct (ws_connections (sessions w r))) \<and>
     distinct (hub_conns w) \<and>
     (\<forall>c r. ws_session (conns w c) = Some r \<longrightarrow> c \<in> set (hub_conns w))"

definition world_ok :: "world \<Rightarrow> bool" where
  "world_ok w \<longleftrightarrow> registry_ok w \<and> conns_ok w"

text \<open>The random token is new among the tokens in use, the random id among all sessions so far.\<close>

definition fresh_names :: "string \<Rightarrow> string \<Rightarrow> world \<Rightarrow> bool" where
  "fresh_names token sid w \<longleftrightarrow>
     sid \<noteq> [] \<and> dict_get (by_token w) token = None \<and> (\<forall>r < next_sref w. s_id (sessions w r) \<noteq> sid)"

lemma registry_okD:
  assumes "registry_ok w"
  shows "dict_ok (by_token w)" "dict_ok (by_id w)"
    "dict_get (by_token w) t = Some r \<Longrightarrow> r < next_sref w"
    "dict_get (by_token w) t = Some r \<Longrightarrow> s_token (sessions w r) = t"
    "dict_get (by_token w) t = Some r \<Longrightarrow> dict_get (by_id w) (s_id (sessions w r)) = Some r"
    "dict_get (by_id w) i = Some r \<Longrightarrow> s_id (sessions w r) = i"
    "dict_get (by_id w) i = Some r \<Longrightarrow> registered w r"
    "anon w = Some r \<Longrightarrow> registered w r" "anon w = Some r \<Longrightarrow> is_anonymous (sessions w r)"
    "r < next_sref w \<Longrightarrow> q < next_sref w \<Longrightarrow> s_id (sessions w r) = s_id (sessions w q) \<Longrightarrow> r = q"
    "r < next_sref w \<Longrightarrow> s_id (sessions w r) \<noteq> []"
  using assms unfolding registry_ok_def by blast+

lemma registered_bound: "registry_ok w \<Longrightarrow> registered w r \<Longrightarrow> r < next_sref w"
  unfolding registered_def by (rule registry_okD(3))

text \<open>Everything the invariant looks at.\<close>

definition same_registry :: "world \<Rightarrow> world \<Rightarrow> bool" where
  "same_registry w v \<longleftrightarrow>
     next_sref v = next_sref w \<and> by_token v = by_token w \<and> by_id v = by_id w \<and> anon v = anon w \<and>
     (\<forall>r. s_id (sessions v r) = s_id (sessions w r) \<and> s_token (sessions v r) = s_token (sessions w r) \<and>
          is_anonymous (sessions v r) = is_anonymous (sessions w r))"

lemma registry_ok_cong: "same_registry w v \<Longrightarrow> registry_ok w = registry_ok v"
  unfolding same_registry_def registry_ok_def registered_def by auto

lemma registered_cong: "same_registry w v \<Longrightarrow> registered v r = registered w r"
  unfolding same_registry_def registered_def by auto

lemma world_ok_frame:
  assumes "world_ok w" and "same_registry w v" and "conns v = conns w" and "hub_conns v = hub_conns w"
    and "\<forall>r. ws_connections (sessions v r) = ws_connections (sessions w r)"
  shows "world_ok v"
proof -
  have "conns_ok v = conns_ok w"
    using assms(2-5) registered_cong [OF assms(2)] unfolding conns_ok_def same_registry_def by simp
  with assms(1) registry_ok_cong [OF assms(2)] show ?thesis by (simp add: world_ok_def)
qed

lemma touch_ok: "world_ok w \<Longrightarrow> world_ok (upd_session r (touch now) w)"
  by (rule world_ok_frame [of w]) (auto simp: same_registry_def)

lemma lookup_ok: "world_ok w \<Longrightarrow> world_ok (snd (get_by_token t now w))"
  by (simp add: get_by_token_def touch_ok split: option.split)

lemma service_ok:
  assumes "world_ok w" and "\<forall>s. same_person (ses s) (ses (f s))"
  shows "world_ok (on_session r f w)"
proof (rule world_ok_frame [OF assms(1)])
  have "same_person (sessions w r) (ses (f (sys_of r w)))"
    using assms(2) by (metis sys_of_simps(11))
  then show "same_registry w (on_session r f w)"
    and "\<forall>q. ws_connections (sessions (on_session r f w) q) = ws_connections (sessions w q)"
    by (auto simp: same_person_def same_registry_def)
qed simp_all

lemma create_registry_ok:
  assumes "registry_ok w" and "fresh_names t i w"
  shows "registry_ok (snd (registry_create t i now b w))"
proof -
  let ?v = "snd (registry_create t i now b w)"
  note ok = registry_okD [OF assms(1)]
  have fields: "by_token ?v = dict_set t (next_sref w) (by_token w)" "by_id ?v = dict_set i (next_sref w) (by_id w)"
    "anon ?v = anon w" "next_sref ?v = Suc (next_sref w)"
    "sessions ?v = (sessions w)(next_sref w := new_session i t now b)"
    by (simp_all add: registry_create_def Let_def)
  have old: "r < next_sref w" "s_token (sessions w r) \<noteq> t" "s_id (sessions w r) \<noteq> i" if "registered w r" for r
    using that registered_bound [OF assms(1) that] assms(2) by (auto simp: fresh_names_def registered_def)
  have keep: "registered ?v r" if "registered w r" for r
    using that old [OF that] by (simp add: registered_def fields)
  have id_old: "i' \<noteq> i" if "dict_get (by_id w) i' = Some r" for i' r
    using old(3) ok(6,7) that by blast
  show ?thesis
    unfolding registry_ok_def
  proof (intro conjI allI impI)
    fix t' r assume got: "dict_get (by_token ?v) t' = Some r"
    show "r < next_sref ?v" "s_token (sessions ?v r) = t'" "dict_get (by_id ?v) (s_id (sessions ?v r)) = Some r"
      using got ok(3,4,5) assms(2)
      by (auto simp: fields new_session_def fresh_names_def less_Suc_eq split: if_splits)
  next
    fix i' r assume got: "dict_get (by_id ?v) i' = Some r"
    have new: "registered ?v (next_sref w)" by (simp add: registered_def fields new_session_def)
    show "s_id (sessions ?v r) = i'"
      using got ok(6,7) [of i' r] old(1) [of r] by (auto simp: fields new_session_def split: if_splits)
    show "registered ?v r"
      using got ok(7) [of i' r] keep [of r] new by (auto simp: fields split: if_splits)
  next
    fix r assume "anon ?v = Some r"
    then show "registered ?v r" "is_anonymous (sessions ?v r)"
      using ok(8,9) keep old(1) by (auto simp: fields)
  next
    fix r q assume "r < next_sref ?v" "q < next_sref ?v" "s_id (sessions ?v r) = s_id (sessions ?v q)"
    then show "r = q"
      using ok(10) assms(2) by (auto simp: fields less_Suc_eq new_session_def fresh_names_def split: if_splits)
  next
    fix r assume "r < next_sref ?v"
    then show "s_id (sessions ?v r) \<noteq> []"
      using ok(11) assms(2) by (auto simp: fields less_Suc_eq new_session_def fresh_names_def)
  qed (use ok(1,2) in \<open>simp_all add: fields\<close>)
qed

lemma create_keeps_registered:
  assumes "registry_ok w" and "fresh_names t i w" and "registered w r"
  shows "registered (snd (registry_create t i now b w)) r"
  using assms registered_bound [OF assms(1,3)]
  by (auto simp: registry_create_def Let_def registered_def fresh_names_def)

lemma create_ok:
  assumes "world_ok w" and "fresh_names t i w"
  shows "world_ok (snd (registry_create t i now b w))"
proof -
  let ?v = "snd (registry_create t i now b w)"
  have reg: "registry_ok w" and con: "conns_ok w" using assms(1) by (simp_all add: world_ok_def)
  have fields: "next_sref ?v = Suc (next_sref w)" "conns ?v = conns w" "hub_conns ?v = hub_conns w"
    "sessions ?v = (sessions w)(next_sref w := new_session i t now b)"
    by (simp_all add: registry_create_def Let_def)
  have "conns_ok ?v"
    using con create_keeps_registered [OF reg assms(2), of _ now b]
    unfolding conns_ok_def by (auto simp: fields less_Suc_eq new_session_def)
  with create_registry_ok [OF reg assms(2)] show ?thesis by (simp add: world_ok_def)
qed

lemma set_anon_ok:
  assumes "registry_ok w" and "registered w r" and "is_anonymous (sessions w r)"
  shows "registry_ok (w\<lparr>anon := Some r\<rparr>)"
proof -
  have "by_token (w\<lparr>anon := Some r\<rparr>) = by_token w" "by_id (w\<lparr>anon := Some r\<rparr>) = by_id w"
    "next_sref (w\<lparr>anon := Some r\<rparr>) = next_sref w" "sessions (w\<lparr>anon := Some r\<rparr>) = sessions w"
    "anon (w\<lparr>anon := Some r\<rparr>) = Some r"
    by simp_all
  then show ?thesis
    using assms unfolding registry_ok_def registered_def by (simp only: option.inject) blast
qed

lemma anonymous_ok:
  assumes "world_ok w" and "fresh_names t i w"
  shows "world_ok (snd (registry_anonymous t i now w))"
proof (cases "anon w")
  case (Some r)
  with assms show ?thesis by (simp add: registry_anonymous_def touch_ok)
next
  case None
  let ?r = "next_sref w" and ?v = "snd (registry_create t i now True w)"
  have ok: "world_ok ?v" using assms by (rule create_ok)
  have v: "registered ?v ?r" "is_anonymous (sessions ?v ?r)"
    by (simp_all add: registry_create_def Let_def registered_def new_session_def)
  have "registry_ok (?v\<lparr>anon := Some ?r\<rparr>)"
    using ok v by (simp add: world_ok_def set_anon_ok)
  moreover have "conns_ok (?v\<lparr>anon := Some ?r\<rparr>) = conns_ok ?v"
    by (simp add: conns_ok_def registered_def)
  ultimately have "world_ok (?v\<lparr>anon := Some ?r\<rparr>)"
    using ok by (simp add: world_ok_def)
  moreover have "snd (registry_anonymous t i now w) = upd_session ?r (touch now) (?v\<lparr>anon := Some ?r\<rparr>)"
    using None by (simp add: registry_anonymous_def Let_def registry_create_def split_beta)
  ultimately show ?thesis by (simp add: touch_ok)
qed

text \<open>A connection joins the hub, is attached to a session that is still registered, and leaves.\<close>

lemma connect_ok:
  assumes "world_ok w" and "c \<notin> set (hub_conns w)"
  shows "world_ok (hub_register c (upd_conn c (\<lambda>_. \<lparr>ws_session = None, ws_closed = False\<rparr>) w))"
proof -
  have none: "ws_session (conns w c) = None"
    using assms by (cases "ws_session (conns w c)") (auto simp: world_ok_def conns_ok_def)
  show ?thesis
    using assms none
    by (auto simp: world_ok_def registry_ok_def conns_ok_def registered_def hub_register_def set_add_def)
qed

lemma attach_ok:
  assumes "world_ok w" and "registered w r" and "c \<in> set (hub_conns w)" and "ws_session (conns w c) = None"
  shows "world_ok (conn_attach r c w)"
proof -
  have reg: "registry_ok w" and con: "conns_ok w" using assms(1) by (simp_all add: world_ok_def)
  have r: "r < next_sref w" using reg assms(2) by (rule registered_bound)
  have same: "same_registry w (conn_attach r c w)"
    by (auto simp: same_registry_def conn_attach_def)
  have "conns_ok (conn_attach r c w)"
    using con assms(2,3,4) r registered_cong [OF same]
    unfolding conns_ok_def by (auto simp: conn_attach_def set_add_def)
  with reg registry_ok_cong [OF same] show ?thesis by (simp add: world_ok_def)
qed

lemma disconnect_ok:
  assumes "world_ok w"
  shows "world_ok (hub_unregister c (conn_detach c w))"
proof -
  have reg: "registry_ok w" and con: "conns_ok w" using assms by (simp_all add: world_ok_def)
  let ?v = "hub_unregister c (conn_detach c w)"
  have same: "same_registry w ?v"
    by (auto simp: same_registry_def conn_detach_def hub_unregister_def split: option.split)
  have "conns_ok ?v"
  proof (cases "ws_session (conns w c)")
    case None
    with con registered_cong [OF same] show ?thesis
      unfolding conns_ok_def by (auto simp: conn_detach_def hub_unregister_def set_discard_def)
  next
    case (Some r)
    with con registered_cong [OF same] show ?thesis
      unfolding conns_ok_def by (auto simp: conn_detach_def hub_unregister_def set_discard_def)
  qed
  with reg registry_ok_cong [OF same] show ?thesis by (simp add: world_ok_def)
qed

lemma closed_ok: "world_ok w \<Longrightarrow> world_ok (upd_conn c (\<lambda>k. k\<lparr>ws_closed := True\<rparr>) w)"
  by (auto simp: world_ok_def registry_ok_def conns_ok_def registered_def)

section \<open>Ending a session\<close>

lemma deliver_wire: "\<exists>fs. wire (deliver e w) = wire w @ fs"
  by (cases e) (auto simp: deliver_def hub_broadcast_def hub_send_session_def)

lemma fold_deliver_wire: "\<exists>fs. wire (fold deliver es w) = wire w @ fs"
proof (induction es arbitrary: w)
  case (Cons e es)
  obtain fs gs where "wire (fold deliver es (deliver e w)) = wire (deliver e w) @ fs" "wire (deliver e w) = wire w @ gs"
    using Cons deliver_wire by blast
  then show ?case by simp
qed simp

lemma on_session_wire: "\<exists>fs. wire (on_session r f w) = wire w @ fs"
  using fold_deliver_wire [of "drop (length (trace w)) (trace (f (sys_of r w)))" "put_sys r (f (sys_of r w)) w"]
  by (simp add: on_session_def Let_def)

lemma hooks_person:
  assumes "\<forall>h \<in> set hooks. hook_ok h"
  shows "same_person (sessions w r) (ses (run_hooks hooks (sys_of r w)))"
  using hook_okD(2) [OF run_hooks_ok [OF assms], of "sys_of r w"] by simp

lemma teardown_facts:
  assumes "\<forall>h \<in> set hooks. hook_ok h" and "v = registry_teardown hooks reason r w"
  shows "sessions v = (sessions w)(r := ses (run_hooks hooks (sys_of r w)))"
    and "next_sref v = next_sref w" and "by_token v = by_token w" and "by_id v = by_id w" and "anon v = anon w"
    and "hub_conns v = hub_conns w" and "ws_session (conns v c) = ws_session (conns w c)"
    and "ws_closed (conns v c) = (c \<in> set (ws_connections (sessions w r)) \<or> ws_closed (conns w c))"
  using hooks_person [OF assms(1), of w r]
  by (auto simp: assms(2) registry_teardown_def Let_def same_person_def)

text \<open>After the hooks every open connection of the session gets the notice, and it is its last frame.\<close>

lemma teardown_wire:
  assumes "\<forall>h \<in> set hooks. hook_ok h" and "s_id (sessions w r) \<noteq> []"
  shows "\<exists>fs. wire (registry_teardown hooks reason r w) = wire w @ fs @
      map (\<lambda>c. (c, ended_event reason))
        (filter (\<lambda>c. \<not> ws_closed (conns w c)) (session_connections (s_id (sessions w r)) w))"
proof -
  let ?w1 = "on_session r (run_hooks hooks) w"
  have ids: "s_id (sessions ?w1 q) = s_id (sessions w q)" for q
    using hooks_person [OF assms(1), of w r] by (simp add: same_person_def)
  then have "session_connections i ?w1 = session_connections i w" for i
    by (simp only: session_connections_def on_session_simps(6,7))
  moreover obtain fs where "wire ?w1 = wire w @ fs" using on_session_wire by blast
  ultimately show ?thesis
    using assms(2) by (auto simp: registry_teardown_def Let_def hub_send_session_wire ids simp del: on_session_simps(1))
qed

text \<open>What removing one session from the indexes and tearing it down leaves behind.\<close>

definition removed :: "sref \<Rightarrow> world \<Rightarrow> world \<Rightarrow> bool" where
  "removed r w v \<longleftrightarrow>
     next_sref v = next_sref w \<and> hub_conns v = hub_conns w \<and>
     by_token v = dict_pop (s_token (sessions w r)) (by_token w) \<and> by_id v = dict_pop (s_id (sessions w r)) (by_id w) \<and>
     anon v = (if anon w = Some r then None else anon w) \<and>
     (\<forall>q. same_person (sessions w q) (sessions v q)) \<and> (\<forall>q. q \<noteq> r \<longrightarrow> sessions v q = sessions w q) \<and>
     (\<forall>c. ws_session (conns v c) = ws_session (conns w c)) \<and>
     (\<forall>c. ws_closed (conns v c) = (c \<in> set (ws_connections (sessions w r)) \<or> ws_closed (conns w c)))"

lemma removed_registered:
  assumes "registry_ok w" and "registered w r" and "removed r w v"
  shows "registered v q = (registered w q \<and> q \<noteq> r)"
proof -
  have "same_person (sessions w q) (sessions v q)" using assms(3) unfolding removed_def by blast
  then have t: "s_token (sessions v q) = s_token (sessions w q)" by (simp add: same_person_def)
  have "q = r" if "registered w q" "s_token (sessions w q) = s_token (sessions w r)"
    using that assms(2) by (simp add: registered_def)
  with t assms show ?thesis
    by (auto simp: registered_def removed_def)
qed

lemma removed_ok:
  assumes "world_ok w" and "registered w r" and "removed r w v"
  shows "world_ok v"
proof -
  have reg: "registry_ok w" and con: "conns_ok w" using assms(1) by (simp_all add: world_ok_def)
  note ok = registry_okD [OF reg]
  note gone = removed_registered [OF reg assms(2,3)]
  have bt: "by_token v = dict_pop (s_token (sessions w r)) (by_token w)" and bi: "by_id v = dict_pop (s_id (sessions w r)) (by_id w)"
    and an: "anon v = (if anon w = Some r then None else anon w)" and nx: "next_sref v = next_sref w" and hc: "hub_conns v = hub_conns w"
    and se: "\<And>c. ws_session (conns v c) = ws_session (conns w c)"
    and cl: "\<And>c. ws_closed (conns v c) = (c \<in> set (ws_connections (sessions w r)) \<or> ws_closed (conns w c))"
    and sp: "\<And>q. same_person (sessions w q) (sessions v q)"
    using assms(3) unfolding removed_def by blast+
  have same: "s_id (sessions v q) = s_id (sessions w q)" "s_token (sessions v q) = s_token (sessions w q)"
    "is_anonymous (sessions v q) = is_anonymous (sessions w q)" "ws_connections (sessions v q) = ws_connections (sessions w q)" for q
    using sp [of q] by (simp_all add: same_person_def)
  have r: "r < next_sref w" using reg assms(2) by (rule registered_bound)
  have "registry_ok v"
    unfolding registry_ok_def
  proof (intro conjI allI impI)
    fix t q assume got: "dict_get (by_token v) t = Some q"
    then have q: "dict_get (by_token w) t = Some q" "t \<noteq> s_token (sessions w r)" by (simp_all add: bt split: if_splits)
    show "q < next_sref v" and "s_token (sessions v q) = t" using ok(3,4) q by (simp_all add: nx same)
    have "q \<noteq> r" using ok(4) q by blast
    then have "s_id (sessions w q) \<noteq> s_id (sessions w r)" using ok(3,10) q(1) r by blast
    then show "dict_get (by_id v) (s_id (sessions v q)) = Some q" using ok(5) [OF q(1)] by (simp add: bi same)
  next
    fix i q assume got: "dict_get (by_id v) i = Some q"
    then have q: "dict_get (by_id w) i = Some q" "i \<noteq> s_id (sessions w r)" by (simp_all add: bi split: if_splits)
    show "s_id (sessions v q) = i" and "registered v q" using ok(6,7) [OF q(1)] q(2) by (auto simp: gone same)
  next
    fix q assume "anon v = Some q"
    then show "registered v q" "is_anonymous (sessions v q)"
      using ok(8,9) by (auto simp: an gone same split: if_splits)
  next
    fix p q assume "p < next_sref v" "q < next_sref v" "s_id (sessions v p) = s_id (sessions v q)"
    then show "p = q" using ok(10) by (simp add: nx same)
  next
    fix q assume "q < next_sref v"
    then show "s_id (sessions v q) \<noteq> []" using ok(11) by (simp add: nx same)
  qed (simp_all add: bt bi ok(1,2))
  moreover have "conns_ok v"
    using con r unfolding conns_ok_def by (auto simp: se cl nx hc same gone)
  ultimately show ?thesis by (simp add: world_ok_def)
qed

lemma revoke_removes:
  assumes "\<forall>h \<in> set hooks. hook_ok h" and "registry_ok w" and "dict_get (by_token w) t = Some r"
  shows "fst (registry_revoke hooks t reason w) = Some r" and "removed r w (snd (registry_revoke hooks t reason w))"
proof -
  define w3 where "w3 = w\<lparr>by_token := dict_pop t (by_token w), by_id := dict_pop (s_id (sessions w r)) (by_id w),
      anon := (if anon w = Some r then None else anon w)\<rparr>"
  have eq: "registry_revoke hooks t reason w = (Some r, registry_teardown hooks reason r w3)"
    using assms(3) by (cases "anon w = Some r") (simp_all add: registry_revoke_def Let_def w3_def)
  show "fst (registry_revoke hooks t reason w) = Some r" by (simp add: eq)
  have tok: "s_token (sessions w r) = t" using registry_okD(4) [OF assms(2,3)] .
  note f = teardown_facts [OF assms(1) refl, where w = w3 and r = r and reason = reason]
  have p: "same_person (sessions w3 r) (ses (run_hooks hooks (sys_of r w3)))" by (rule hooks_person [OF assms(1)])
  show "removed r w (snd (registry_revoke hooks t reason w))"
    unfolding removed_def eq snd_conv f using p tok by (auto simp: w3_def)
qed

lemma sweep_one_removes:
  assumes "\<forall>h \<in> set hooks. hook_ok h" and "anon w \<noteq> Some r"
  shows "removed r w (registry_teardown hooks reason r (registry_drop r w))"
proof -
  note f = teardown_facts [OF assms(1) refl, where w = "registry_drop r w" and r = r and reason = reason]
  have p: "same_person (sessions (registry_drop r w) r) (ses (run_hooks hooks (sys_of r (registry_drop r w))))"
    by (rule hooks_person [OF assms(1)])
  show ?thesis unfolding removed_def f using p assms(2) by (auto simp: registry_drop_def)
qed

lemma revoke_ok:
  assumes "\<forall>h \<in> set hooks. hook_ok h" and "world_ok w"
  shows "world_ok (snd (registry_revoke hooks t reason w))"
proof (cases "dict_get (by_token w) t")
  case None
  with assms(2) show ?thesis by (simp add: registry_revoke_def)
next
  case (Some r)
  have reg: "registry_ok w" using assms(2) by (simp add: world_ok_def)
  have "registered w r" using Some registry_okD(4) [OF reg Some] by (simp add: registered_def)
  then show ?thesis using removed_ok [OF assms(2)] revoke_removes(2) [OF assms(1) reg Some] by blast
qed

text \<open>
  A sweep removes its list one by one: the others stay registered until their turn, and a
  session that is not on the list is the same value afterwards.
\<close>

definition sweep_fold :: "(sys \<Rightarrow> sys) list \<Rightarrow> sref list \<Rightarrow> world \<Rightarrow> world" where
  "sweep_fold hooks rs w = fold (\<lambda>r w. registry_teardown hooks ''expired'' r (registry_drop r w)) rs w"

lemma sweep_fold_simps [simp]:
  "sweep_fold hooks [] w = w"
  "sweep_fold hooks (r # rs) w = sweep_fold hooks rs (registry_teardown hooks ''expired'' r (registry_drop r w))"
  by (simp_all add: sweep_fold_def)

definition sweepable :: "world \<Rightarrow> sref \<Rightarrow> bool" where
  "sweepable w r \<longleftrightarrow> registered w r \<and> \<not> is_anonymous (sessions w r)"

lemma sweep_fold_facts:
  assumes "\<forall>h \<in> set hooks. hook_ok h" and "world_ok w" and "distinct rs"
    and "\<forall>r \<in> set rs. sweepable w r"
  shows "world_ok (sweep_fold hooks rs w)"
    and "registered (sweep_fold hooks rs w) q = (registered w q \<and> q \<notin> set rs)"
    and "q \<notin> set rs \<Longrightarrow> sessions (sweep_fold hooks rs w) q = sessions w q"
    and "same_person (sessions w q) (sessions (sweep_fold hooks rs w) q)"
    and "anon (sweep_fold hooks rs w) = anon w"
    and "ws_session (conns (sweep_fold hooks rs w) c) = ws_session (conns w c)"
    and "ws_closed (conns (sweep_fold hooks rs w) c) =
      (ws_closed (conns w c) \<or> (\<exists>r \<in> set rs. c \<in> set (ws_connections (sessions w r))))"
  using assms(2-4)
proof (induction rs arbitrary: w)
  case Nil
  { case 1 then show ?case by simp next case 2 then show ?case by simp next case 3 then show ?case by simp
    next case 4 then show ?case by simp next case 5 then show ?case by simp next case 6 then show ?case by simp
    next case 7 then show ?case by simp }
next
  case (Cons r rs)
  let ?V = "\<lambda>w. registry_teardown hooks ''expired'' r (registry_drop r w)"
  have main: "world_ok (?V w) \<and> removed r w (?V w) \<and> distinct rs \<and> r \<notin> set rs \<and> (\<forall>q. registered (?V w) q = (registered w q \<and> q \<noteq> r)) \<and>
      (\<forall>p \<in> set rs. sweepable (?V w) p) \<and> anon (?V w) = anon w"
    if *: "world_ok w" "distinct (r # rs)" "\<forall>p \<in> set (r # rs). sweepable w p" for w
  proof -
    have reg: "registry_ok w" using *(1) by (simp add: world_ok_def)
    have na: "anon w \<noteq> Some r" using registry_okD(9) [OF reg, of r] *(3) by (auto simp: sweepable_def)
    have rem: "removed r w (?V w)" using assms(1) na by (rule sweep_one_removes)
    have r: "registered w r" using *(3) by (simp add: sweepable_def)
    have gone: "registered (?V w) q = (registered w q \<and> q \<noteq> r)" for q
      by (rule removed_registered [OF reg r rem])
    have "sessions (?V w) p = sessions w p" if "p \<in> set rs" for p
      using rem that *(2) unfolding removed_def by auto
    moreover have "anon (?V w) = anon w" using rem na by (simp add: removed_def)
    ultimately show ?thesis using removed_ok [OF *(1) r rem] rem gone * by (auto simp: sweepable_def)
  qed
  { case 1 show ?case using Cons.IH(1) main [OF 1] by simp
  next case 2 show ?case using Cons.IH(2) main [OF 2] by auto
  next case 3
    then have "sessions (sweep_fold hooks rs (?V w)) q = sessions (?V w) q" using Cons.IH(3) main [OF 3(2-4)] by auto
    then show ?case using main [OF 3(2-4)] 3(1) by (auto simp: removed_def)
  next case 4
    have "same_person (sessions w q) (sessions (?V w) q)" using main [OF 4] unfolding removed_def by blast
    then show ?case using Cons.IH(4) main [OF 4] same_person_trans by auto
  next case 5 show ?case using Cons.IH(5) main [OF 5] by simp
  next case 6
    show ?case using Cons.IH(6) main [OF 6] by (simp add: removed_def)
  next case 7
    have "sessions (?V w) p = sessions w p" if "p \<in> set rs" for p
      using main [OF 7] that unfolding removed_def by auto
    then show ?case using Cons.IH(7) main [OF 7] by (auto simp: removed_def) }
qed

lemma expired_list:
  assumes "world_ok w" and "rs = filter (\<lambda>r. is_expired a (sessions w r) now) (dict_values (by_token w))"
  shows "distinct rs" and "\<forall>r \<in> set rs. sweepable w r"
    and "set rs = {r. registered w r \<and> is_expired a (sessions w r) now}"
proof -
  have reg: "registry_ok w" using assms(1) by (simp add: world_ok_def)
  have ok: "dict_ok (by_token w)" by (rule registry_okD(1) [OF reg])
  have tok: "s_token (sessions w r) = t \<and> dict_get (by_token w) t = Some r" if "(t, r) \<in> set (by_token w)" for t r
    using dict_items_get [OF ok that] registry_okD(4) [OF reg] by blast
  have inj: "inj_on snd (set (by_token w))"
  proof (rule inj_onI)
    fix x y assume "x \<in> set (by_token w)" "y \<in> set (by_token w)" "snd x = snd y"
    then have "(fst x, snd x) \<in> set (by_token w)" "(fst y, snd x) \<in> set (by_token w)"
      by (metis prod.collapse)+
    from tok [OF this(1)] tok [OF this(2)] have "fst x = fst y" by simp
    with \<open>snd x = snd y\<close> show "x = y" by (rule prod_eqI [rotated])
  qed
  have val: "r \<in> set (dict_values (by_token w)) \<longleftrightarrow> registered w r" for r
  proof
    assume "r \<in> set (dict_values (by_token w))"
    then obtain t where "(t, r) \<in> set (by_token w)" by (auto simp: dict_values_def)
    then show "registered w r" using tok by (simp add: registered_def)
  qed (simp add: registered_def dict_get_in_values)
  have "distinct (by_token w)" using ok by (auto simp: dict_ok_def distinct_map)
  with inj show "distinct rs" by (simp add: assms(2) dict_values_def distinct_map)
  show "\<forall>r \<in> set rs. sweepable w r" "set rs = {r. registered w r \<and> is_expired a (sessions w r) now}"
    using val by (auto simp: sweepable_def assms(2) is_expired_def)
qed

lemma sweep_ok:
  assumes "\<forall>h \<in> set hooks. hook_ok h" and "world_ok w"
  shows "world_ok (snd (sweep_sessions hooks a now w))"
  using sweep_fold_facts(1) [OF assms expired_list(1,2) [OF assms(2) refl]]
  by (simp add: sweep_sessions_def Let_def sweep_fold_def)

section \<open>Reachable worlds\<close>

definition start_world :: "shared \<Rightarrow> world" where
  "start_world base = shared.extend base
     \<lparr>sessions = (\<lambda>_. new_session [] [] 0 False), next_sref = 0, by_token = [], by_id = [], anon = None,
      hub_conns = [], conns = (\<lambda>_. \<lparr>ws_session = None, ws_closed = False\<rparr>), wire = []\<rparr>"

text \<open>\<open>WSConnection(ws)\<close> followed by \<open>hub.register(conn)\<close>.\<close>

definition conn_open :: "string \<Rightarrow> world \<Rightarrow> world" where
  "conn_open c w = hub_register c (upd_conn c (\<lambda>_. \<lparr>ws_session = None, ws_closed = False\<rparr>) w)"

text \<open>
  One step of the daemon as the registry and the connections see it. A service operation is any
  function on the state of one session that leaves the session's own identity alone.
\<close>

inductive world_step :: "auth_config \<Rightarrow> world \<Rightarrow> world \<Rightarrow> bool" for a where
  Create: "fresh_names t i w \<Longrightarrow> world_step a w (snd (registry_create t i now False w))"
| Anonymous: "fresh_names t i w \<Longrightarrow> world_step a w (snd (registry_anonymous t i now w))"
| Lookup: "world_step a w (snd (get_by_token t now w))"
| Touch: "world_step a w (upd_session r (touch now) w)"
| Revoke: "world_step a w (snd (registry_revoke app_hooks t reason w))"
| Sweep: "world_step a w (snd (sweep_sessions app_hooks a now w))"
| Connect: "c \<notin> set (hub_conns w) \<Longrightarrow> world_step a w (conn_open c w)"
| Attach: "registered w r \<Longrightarrow> c \<in> set (hub_conns w) \<Longrightarrow> ws_session (conns w c) = None \<Longrightarrow>
    world_step a w (conn_attach r c w)"
| Disconnect: "world_step a w (hub_unregister c (conn_detach c w))"
| Closed: "world_step a w (upd_conn c (\<lambda>k. k\<lparr>ws_closed := True\<rparr>) w)"
| Close: "world_step a w (conn_close k m c w)"
| Send: "world_step a w (conn_send j c w)"
| Deliver: "world_step a w (deliver e w)"
| Service: "\<forall>s. same_person (ses s) (ses (f s)) \<Longrightarrow> world_step a w (on_session r f w)"

inductive_cases world_stepE: "world_step a w v"

definition world_steps :: "auth_config \<Rightarrow> world \<Rightarrow> world \<Rightarrow> bool" where
  "world_steps a = (world_step a)\<^sup>*\<^sup>*"

lemma start_world_simps [simp]:
  "sessions (start_world b) r = new_session [] [] 0 False" "next_sref (start_world b) = 0"
  "by_token (start_world b) = []" "by_id (start_world b) = []" "anon (start_world b) = None"
  "hub_conns (start_world b) = []" "conns (start_world b) c = \<lparr>ws_session = None, ws_closed = False\<rparr>"
  "wire (start_world b) = []" "trace (start_world b) = trace b" "entries (start_world b) = entries b"
  "transfers (start_world b) = transfers b"
  by (simp_all add: start_world_def shared.defs)

lemma start_world_ok: "world_ok (start_world b)"
  by (simp add: world_ok_def registry_ok_def conns_ok_def registered_def)

lemma same_view_ok:
  assumes "world_ok w" and "sessions v = sessions w" and "next_sref v = next_sref w" and "by_token v = by_token w"
    and "by_id v = by_id w" and "anon v = anon w" and "hub_conns v = hub_conns w" and "conns v = conns w"
  shows "world_ok v"
  by (rule world_ok_frame [OF assms(1)]) (simp_all add: assms(2-8) same_registry_def)

lemma close_ok: "world_ok w \<Longrightarrow> world_ok (conn_close k m c w)"
  unfolding conn_close_def by (simp only: if_split) (intro conjI impI; (rule same_view_ok [OF closed_ok [of w c]])?; simp)

lemma world_step_ok: "world_step a w v \<Longrightarrow> world_ok w \<Longrightarrow> world_ok v"
proof (induction rule: world_step.induct)
  case (Connect c w) then show ?case unfolding conn_open_def by (intro connect_ok)
next
  case (Send w j c) show ?case by (rule same_view_ok [OF Send]) simp_all
next
  case (Deliver w e) show ?case by (rule same_view_ok [OF Deliver]) simp_all
next
  case (Close w k m c) then show ?case by (rule close_ok)
next
  case (Closed w c) then show ?case by (rule closed_ok)
next
  case (Service f w r) then show ?case by (intro service_ok)
next
  case (Revoke w t reason) then show ?case using app_hooks_ok by (intro revoke_ok)
next
  case (Sweep w now) then show ?case using app_hooks_ok by (intro sweep_ok)
qed (simp_all add: create_ok anonymous_ok lookup_ok touch_ok attach_ok disconnect_ok)

lemma world_steps_ok: "world_steps a w v \<Longrightarrow> world_ok w \<Longrightarrow> world_ok v"
  unfolding world_steps_def by (induction rule: rtranclp_induct) (auto intro: world_step_ok)

lemma world_steps_refl: "world_steps a w w"
  by (simp add: world_steps_def)

lemma world_steps_snoc: "world_steps a w v \<Longrightarrow> world_step a v u \<Longrightarrow> world_steps a w u"
  by (simp add: world_steps_def)

lemma reachable_world_ok: "world_steps a (start_world b) w \<Longrightarrow> world_ok w"
  using world_steps_ok start_world_ok by blast

lemma attached_iff:
  assumes "world_ok w" and "r < next_sref w"
  shows "c \<in> set (session_connections (s_id (sessions w r)) w) \<longleftrightarrow> ws_session (conns w c) = Some r"
proof
  assume "c \<in> set (session_connections (s_id (sessions w r)) w)"
  then obtain q where q: "ws_session (conns w c) = Some q" "s_id (sessions w q) = s_id (sessions w r)"
    by (auto simp: session_connections_def split: option.splits)
  then have "q < next_sref w" using assms(1) by (simp add: world_ok_def conns_ok_def)
  with q assms show "ws_session (conns w c) = Some r"
    using registry_okD(10) [of w q r] by (simp add: world_ok_def)
next
  assume "ws_session (conns w c) = Some r"
  with assms show "c \<in> set (session_connections (s_id (sessions w r)) w)"
    by (auto simp: session_connections_def world_ok_def conns_ok_def)
qed


text \<open>C8. An event for a session reaches each open socket of that session exactly once and no other
  socket, in any reachable world.\<close>

theorem events_stay_in_session:
  assumes "world_steps a (start_world b) w" and "r < next_sref w"
  shows "\<exists>cs. wire (deliver (HubSession (s_id (sessions w r)) j) w) = wire w @ map (\<lambda>c. (c, j)) cs \<and> distinct cs \<and>
    set cs = {c. ws_session (conns w c) = Some r \<and> \<not> ws_closed (conns w c)}"
proof -
  have ok: "world_ok w" using assms(1) by (rule reachable_world_ok)
  let ?cs = "filter (\<lambda>c. \<not> ws_closed (conns w c)) (session_connections (s_id (sessions w r)) w)"
  have "s_id (sessions w r) \<noteq> []" using ok assms(2) registry_okD(11) by (simp add: world_ok_def)
  then have "wire (deliver (HubSession (s_id (sessions w r)) j) w) = wire w @ map (\<lambda>c. (c, j)) ?cs"
    by (simp add: deliver_def hub_send_session_wire)
  moreover have "distinct ?cs" using ok by (simp add: session_connections_def world_ok_def conns_ok_def)
  moreover have "set ?cs = {c. ws_session (conns w c) = Some r \<and> \<not> ws_closed (conns w c)}"
    using attached_iff [OF ok assms(2)] by auto
  ultimately show ?thesis by blast
qed

text \<open>C6. Revoking a token ends its session and nothing else: neither index knows it afterwards, all
  tables of the session are empty, all its sockets are closed after a last frame that says why,
  and every other session keeps its state and its place.\<close>

theorem revoke_ends_session:
  assumes "world_steps a (start_world b) w" and "dict_get (by_token w) t = Some r"
    and "registry_revoke app_hooks t reason w = (x, v)"
  shows "x = Some r \<and> fst (get_by_token t now v) = None \<and> get_by_id (s_id (sessions w r)) v = None \<and>
    session_cleared (sessions v r) \<and>
    (\<forall>c. ws_session (conns w c) = Some r \<longrightarrow> ws_closed (conns v c)) \<and>
    (\<exists>cs fs. wire v = wire w @ fs @ map (\<lambda>c. (c, ended_event reason)) cs \<and>
       set cs = {c. ws_session (conns w c) = Some r \<and> \<not> ws_closed (conns w c)}) \<and>
    (\<forall>q. q \<noteq> r \<longrightarrow> sessions v q = sessions w q \<and> registered v q = registered w q)"
proof -
  have ok: "world_ok w" using assms(1) by (rule reachable_world_ok)
  then have reg: "registry_ok w" and con: "conns_ok w" by (simp_all add: world_ok_def)
  have r: "r < next_sref w" and tok: "s_token (sessions w r) = t" using registry_okD(3,4) [OF reg assms(2)] .
  have v: "v = snd (registry_revoke app_hooks t reason w)" by (simp add: assms(3))
  have rem: "removed r w v" unfolding v by (rule revoke_removes(2) [OF app_hooks_ok reg assms(2)])
  have live: "registered w r" using assms(2) tok by (simp add: registered_def)
  define u where "u = w\<lparr>by_token := dict_pop t (by_token w), by_id := dict_pop (s_id (sessions w r)) (by_id w),
      anon := (if anon w = Some r then None else anon w)\<rparr>"
  have u: "sessions u = sessions w" "conns u = conns w" "hub_conns u = hub_conns w" "wire u = wire w"
    by (simp_all add: u_def)
  have vu: "v = registry_teardown app_hooks reason r u"
    using assms(2,3) by (cases "anon w = Some r") (auto simp: registry_revoke_def Let_def u_def)
  have "sessions v r = ses (run_hooks app_hooks (sys_of r u))"
    using teardown_facts(1) [OF app_hooks_ok vu] by simp
  then have clear: "session_cleared (sessions v r)" by (simp add: app_hooks_clear)
  let ?cs = "filter (\<lambda>c. \<not> ws_closed (conns w c)) (session_connections (s_id (sessions w r)) w)"
  have "session_connections i u = session_connections i w" for i unfolding session_connections_def u ..
  moreover have "s_id (sessions w r) \<noteq> []" using registry_okD(11) [OF reg r] .
  ultimately have "\<exists>fs. wire v = wire w @ fs @ map (\<lambda>c. (c, ended_event reason)) ?cs"
    using teardown_wire [OF app_hooks_ok, of u r reason] by (simp add: vu u)
  moreover have "set ?cs = {c. ws_session (conns w c) = Some r \<and> \<not> ws_closed (conns w c)}"
    using attached_iff [OF ok r] by auto
  ultimately have wires: "\<exists>cs fs. wire v = wire w @ fs @ map (\<lambda>c. (c, ended_event reason)) cs \<and>
       set cs = {c. ws_session (conns w c) = Some r \<and> \<not> ws_closed (conns w c)}" by blast
  have closed: "ws_closed (conns v c)" if "ws_session (conns w c) = Some r" for c
    using rem con r that by (simp add: removed_def conns_ok_def)
  have others: "\<forall>q. q \<noteq> r \<longrightarrow> sessions v q = sessions w q \<and> registered v q = registered w q"
    using rem removed_registered [OF reg live rem] by (simp add: removed_def)
  have "by_token v = dict_pop t (by_token w)" "by_id v = dict_pop (s_id (sessions w r)) (by_id w)"
    using rem tok by (simp_all add: removed_def)
  then have gone: "fst (get_by_token t now v) = None" "get_by_id (s_id (sessions w r)) v = None"
    by (simp_all add: get_by_token_def get_by_id_def)
  have "x = Some r" using revoke_removes(1) [OF app_hooks_ok reg assms(2), of reason] assms(3) by simp
  with gone clear closed wires others show ?thesis by blast
qed

text \<open>C7. A sweep ends exactly the registered sessions that are past their idle time or their lifetime:
  each of them loses its tables and its sockets, every other session (the anonymous one among them) is
  untouched and stays registered, and the registry is consistent again.\<close>

theorem sweep_expires_exactly:
  assumes "world_steps a (start_world b) w" and "sweep_sessions app_hooks a now w = (expired, v)"
  shows "set expired = {r. registered w r \<and> is_expired a (sessions w r) now} \<and> distinct expired \<and>
    (\<forall>q. registered v q = (registered w q \<and> \<not> is_expired a (sessions w q) now)) \<and>
    (\<forall>q. q \<notin> set expired \<longrightarrow> sessions v q = sessions w q) \<and>
    (\<forall>c r. r \<in> set expired \<longrightarrow> ws_session (conns w c) = Some r \<longrightarrow> ws_closed (conns v c)) \<and>
    anon v = anon w \<and> world_ok v"
proof -
  have ok: "world_ok w" using assms(1) by (rule reachable_world_ok)
  have ex: "expired = filter (\<lambda>r. is_expired a (sessions w r) now) (dict_values (by_token w))"
    and v: "v = sweep_fold app_hooks expired w"
    using assms(2) by (auto simp: sweep_sessions_def Let_def sweep_fold_def)
  note l = expired_list [OF ok ex]
  note f = sweep_fold_facts [OF app_hooks_ok ok l(1,2), folded v]
  have bound: "r < next_sref w" if "r \<in> set expired" for r
    using that l(3) registered_bound ok by (auto simp: world_ok_def)
  have "ws_closed (conns v c)" if "r \<in> set expired" "ws_session (conns w c) = Some r" for c r
    using that bound [OF that(1)] ok f(7) [of c] unfolding world_ok_def conns_ok_def by blast
  then show ?thesis using l(1,3) f(1,2,3,5) by auto
qed

lemma cleanup_transfer_effects:
  "\<exists>es. trace (fold cleanup_transfer ts s) = trace s @ es \<and>
     list_all (\<lambda>e. case e of Rns (CancelResource r) \<Rightarrow> True | Unlink f \<Rightarrow> True | _ \<Rightarrow> False) es"
proof (induction ts arbitrary: s)
  case (Cons t ts)
  obtain es where "trace (fold cleanup_transfer ts (cleanup_transfer t s)) = trace (cleanup_transfer t s) @ es"
    "list_all (\<lambda>e. case e of Rns (CancelResource r) \<Rightarrow> True | Unlink f \<Rightarrow> True | _ \<Rightarrow> False) es"
    using Cons by blast
  moreover have "\<exists>fs. trace (cleanup_transfer t s) = trace s @ fs \<and>
      list_all (\<lambda>e. case e of Rns (CancelResource r) \<Rightarrow> True | Unlink f \<Rightarrow> True | _ \<Rightarrow> False) fs"
    by (auto split: option.split)
  ultimately show ?case by (auto simp del: cleanup_transfer_frame)
qed simp

lemma resource_cleanup_trace:
  "\<exists>es. trace (resource_cleanup s) = trace s @ es \<and>
     list_all (\<lambda>e. case e of Rns (CancelResource r) \<Rightarrow> True | Unlink f \<Rightarrow> True | _ \<Rightarrow> False) es"
  using cleanup_transfer_effects [of "dict_values (active_transfers (ses s))" s] by (simp add: resource_cleanup_def)

lemma resource_cleanup_others:
  "ses (resource_cleanup s) = (ses s)\<lparr>active_transfers := []\<rparr>" "entries (resource_cleanup s) = entries s"
  by (simp_all add: resource_cleanup_def)

lemma destination_cleanup_trace:
  "trace (destination_cleanup s) = trace s @ map (\<lambda>d. Rns (Deregister d)) (dict_values (owned_destinations (ses s)))"
  by (simp add: destination_cleanup_def)

definition teardown_effects :: "sys \<Rightarrow> effect list" where
  "teardown_effects s =
     map (\<lambda>l. Rns (TeardownLink l)) (constructed_links s) @
     map (\<lambda>h. Rns (SetDestCallback h False))
       (filter (\<lambda>h. dict_get (owned_destinations (ses s)) h \<noteq> None) (packet_listeners (ses s))) @
     map (\<lambda>q. Rns (ReceiptCallbacks q False))
       (concat (map (\<lambda>q. case q of None \<Rightarrow> [] | Some q \<Rightarrow> [q]) (dict_values (pending_receipts (ses s))))) @
     map (\<lambda>d. Rns (Deregister d)) (dict_values (owned_destinations (ses s)))"

lemma app_hooks_trace:
  "trace (run_hooks app_hooks s) = trace (resource_cleanup s) @ teardown_effects s"
proof -
  have "constructed_links (resource_cleanup s) = constructed_links s"
    by (simp add: constructed_links_def resource_cleanup_others)
  then show ?thesis
    by (simp add: app_hooks_def teardown_effects_def destination_cleanup_trace packet_cleanup_frame resource_cleanup_others)
qed

text \<open>C9. The teardown of a session runs in the order the session's objects depend on each other: its
  transfers are cancelled and their files removed, then every constructed link is torn down, then the packet
  callbacks and receipts are cleared, then the destinations are deregistered (\<open>teardown_effects\<close>), and only
  then are its sockets closed; nothing else is done to RNS or to the file system.\<close>

theorem teardown_in_order:
  "\<exists>rs cs. trace (registry_teardown app_hooks reason r w) =
      trace w @ rs @ teardown_effects (sys_of r w) @ map (\<lambda>c. ConnClose c 4001 (''session_'' @ reason)) cs \<and>
    list_all (\<lambda>e. case e of Rns (CancelResource q) \<Rightarrow> True | Unlink f \<Rightarrow> True | _ \<Rightarrow> False) rs"
proof -
  obtain rs where rs: "trace (resource_cleanup (sys_of r w)) = trace w @ rs"
    "list_all (\<lambda>e. case e of Rns (CancelResource q) \<Rightarrow> True | Unlink f \<Rightarrow> True | _ \<Rightarrow> False) rs"
    using resource_cleanup_trace [of "sys_of r w"] by auto
  define w1 where "w1 = on_session r (run_hooks app_hooks) w"
  define w2 where "w2 = hub_send_session (s_id (sessions w1 r)) (ended_event reason) w1"
  have w2: "trace w2 = trace w @ rs @ teardown_effects (sys_of r w)"
    by (simp only: w2_def w1_def hub_send_session_frame(8) on_session_simps(8) app_hooks_trace rs(1) append_assoc)
  have eq: "registry_teardown app_hooks reason r w =
      fold (conn_close 4001 (''session_'' @ reason)) (ws_connections (sessions w2 r)) w2"
    by (simp only: registry_teardown_def Let_def w1_def w2_def)
  obtain es where es: "trace (registry_teardown app_hooks reason r w) = trace w2 @ es"
    "\<forall>e \<in> set es. \<exists>c. e = ConnClose c 4001 (''session_'' @ reason)"
    using fold_close_trace unfolding eq by blast
  have "\<exists>cs. es = map (\<lambda>c. ConnClose c 4001 (''session_'' @ reason)) cs"
    using es(2) by (simp only: ex_map_conv)
  then obtain cs where cs: "es = map (\<lambda>c. ConnClose c 4001 (''session_'' @ reason)) cs" ..
  show ?thesis
    by (rule exI [of _ rs], rule exI [of _ cs]) (simp only: es(1) w2 cs rs(2) append_assoc)
qed

section \<open>Witnesses\<close>

text \<open>Two logins, a socket on each session.\<close>

definition two_sessions :: world where
  "two_sessions =
     (let w1 = snd (registry_create ''t0'' ''s0'' 0 False (start_world (shared.truncate linked_sys)));
          w2 = snd (registry_create ''t1'' ''s1'' 50 False w1)
      in conn_attach 1 ''c1'' (conn_open ''c1'' (conn_attach 0 ''c0'' (conn_open ''c0'' w2))))"

lemma two_sessions_simps:
  "by_token two_sessions = [(''t0'', 0), (''t1'', 1)]" "by_id two_sessions = [(''s0'', 0), (''s1'', 1)]"
  "next_sref two_sessions = 2" "hub_conns two_sessions = [''c0'', ''c1'']" "anon two_sessions = None"
  "sessions two_sessions 0 = (new_session ''s0'' ''t0'' 0 False)\<lparr>ws_connections := [''c0'']\<rparr>"
  "sessions two_sessions (Suc 0) = (new_session ''s1'' ''t1'' 50 False)\<lparr>ws_connections := [''c1'']\<rparr>"
  "conns two_sessions ''c0'' = \<lparr>ws_session = Some 0, ws_closed = False\<rparr>"
  "conns two_sessions ''c1'' = \<lparr>ws_session = Some (Suc 0), ws_closed = False\<rparr>"
  "wire two_sessions = []"
  by (simp_all add: two_sessions_def Let_def registry_create_def conn_open_def conn_attach_def hub_register_def
      set_add_def dict_set_def new_session_def numeral_2_eq_2)

lemma two_sessions_reachable: "world_steps a (start_world (shared.truncate linked_sys)) two_sessions"
proof -
  let ?w0 = "start_world (shared.truncate linked_sys)"
  let ?w1 = "snd (registry_create ''t0'' ''s0'' 0 False ?w0)"
  let ?w2 = "snd (registry_create ''t1'' ''s1'' 50 False ?w1)"
  let ?w3 = "conn_open ''c0'' ?w2"
  let ?w4 = "conn_attach 0 ''c0'' ?w3"
  let ?w5 = "conn_open ''c1'' ?w4"
  note defs = registry_create_def Let_def conn_open_def conn_attach_def hub_register_def set_add_def dict_set_def
    new_session_def registered_def dict_get_def fresh_names_def
  have "world_step a ?w0 ?w1" by (rule world_step.Create) (simp add: defs)
  with world_steps_refl have "world_steps a ?w0 ?w1" by (rule world_steps_snoc)
  moreover have "world_step a ?w1 ?w2" by (rule world_step.Create) (simp add: defs)
  ultimately have "world_steps a ?w0 ?w2" by (rule world_steps_snoc)
  moreover have "world_step a ?w2 ?w3" by (rule world_step.Connect) (simp add: defs)
  ultimately have "world_steps a ?w0 ?w3" by (rule world_steps_snoc)
  moreover have "world_step a ?w3 ?w4" by (rule world_step.Attach) (simp_all add: defs)
  ultimately have "world_steps a ?w0 ?w4" by (rule world_steps_snoc)
  moreover have "world_step a ?w4 ?w5" by (rule world_step.Connect) (simp add: defs)
  ultimately have "world_steps a ?w0 ?w5" by (rule world_steps_snoc)
  moreover have "world_step a ?w5 (conn_attach 1 ''c1'' ?w5)" by (rule world_step.Attach) (simp_all add: defs)
  ultimately have "world_steps a ?w0 (conn_attach 1 ''c1'' ?w5)" by (rule world_steps_snoc)
  then show ?thesis by (simp only: two_sessions_def Let_def)
qed


theorem events_stay_in_session_witness:
  "\<exists>cs. wire (deliver (HubSession ''s1'' JNull) two_sessions) = map (\<lambda>c. (c, JNull)) cs \<and> ''c1'' \<in> set cs \<and> ''c0'' \<notin> set cs"
  using events_stay_in_session [OF two_sessions_reachable, of 1 JNull]
  by (auto simp: two_sessions_simps new_session_def)

theorem revoke_ends_session_witness:
  "\<exists>x v. registry_revoke app_hooks ''t1'' ''logout'' two_sessions = (x, v) \<and> x = Some 1 \<and> ws_closed (conns v ''c1'') \<and>
     sessions v 0 = sessions two_sessions 0"
proof -
  obtain x v where *: "registry_revoke app_hooks ''t1'' ''logout'' two_sessions = (x, v)" by fastforce
  have "dict_get (by_token two_sessions) ''t1'' = Some 1" by (simp add: two_sessions_simps dict_get_def)
  from revoke_ends_session [OF two_sessions_reachable this *] * show ?thesis by (auto simp: two_sessions_simps)
qed

definition short_auth :: auth_config where
  "short_auth = \<lparr>enabled = True, username = ''u'', password_hash = [], session_inactivity_timeout = 60,
     session_max_lifetime = 600, ws_auth_frame_timeout = 10\<rparr>"

theorem sweep_expires_exactly_witness:
  "\<exists>expired v. sweep_sessions app_hooks short_auth 100 two_sessions = (expired, v) \<and> 0 \<in> set expired \<and> 1 \<notin> set expired \<and>
     ws_closed (conns v ''c0'') \<and> registered v 1"
proof -
  obtain e v where *: "sweep_sessions app_hooks short_auth 100 two_sessions = (e, v)" by fastforce
  have now: "registered two_sessions 0" "registered two_sessions 1"
    "is_expired short_auth (sessions two_sessions 0) 100" "\<not> is_expired short_auth (sessions two_sessions 1) 100"
    "ws_session (conns two_sessions ''c0'') = Some 0"
    by (simp_all add: registered_def is_expired_def two_sessions_simps new_session_def dict_get_def short_auth_def)
  note s = sweep_expires_exactly [OF two_sessions_reachable *]
  have "0 \<in> set e" "1 \<notin> set e" "registered v 1" using s now by simp_all
  moreover have "ws_closed (conns v ''c0'')" using s now(5) \<open>0 \<in> set e\<close> by blast
  ultimately show ?thesis using * by blast
qed

end
