(* ===== verification/Api.thy ===== *)
theory Api
  imports Sessions
begin

text \<open>
  What the handlers of \<open>handlers/*.py\<close> share: REST requests and responses, WebSocket replies, the
  pattern ``call a service, turn its own exception into an error answer'', and \<open>ws/router.py\<close>.

  A handler works on the \<open>sys\<close> of its session. An exception it does not catch is \<open>Inl\<close> for REST
  (aiohttp answers 500) and \<open>Some\<close> for a WebSocket handler (the router answers \<open>internal\<close>).
\<close>

section \<open>REST\<close>

text \<open>
  \<open>rq_body\<close> is what \<open>await request.json()\<close> gives, \<open>None\<close> if it raises; while it waits for the
  body, other tasks run: \<open>rq_meanwhile\<close> is what they do to the state of this session.
  \<open>rq_match\<close> is the variable of the path, \<open>rq_content\<close> a streamed body or the message of the
  error that broke it off.
\<close>

record request =
  rq_body :: "json option"
  rq_match :: string
  rq_query :: "(string, string) dict"
  rq_content :: "string + bytes"
  rq_meanwhile :: "sys \<Rightarrow> sys"

datatype response =
    Json_response int json
  | File_response string string

fun rs_status :: "response \<Rightarrow> int" where
  "rs_status (Json_response st _) = st"
| "rs_status (File_response _ _) = 200"

type_synonym rest_answer = "(exn + response) \<times> sys"

definition respond :: "int \<Rightarrow> fields \<Rightarrow> response" where
  "respond st d = Json_response st (JObj d)"

definition rest_error :: "int \<Rightarrow> string \<Rightarrow> response" where
  "rest_error st m = respond st [(''error'', JStr m)]"

definition no_get :: exn where
  "no_get = PyExn ''AttributeError'' ''object has no attribute get''"

text \<open>
  \<open>try: body = await request.json()\<close>, answering \<open>invalid_json\<close>; the first \<open>body.get\<close> raises
  when the JSON value is no object.
\<close>

definition with_json :: "request \<Rightarrow> (json \<Rightarrow> sys \<Rightarrow> rest_answer) \<Rightarrow> sys \<Rightarrow> rest_answer" where
  "with_json rq k s =
     (let s1 = rq_meanwhile rq s in
      case rq_body rq of
        None \<Rightarrow> (Inr (rest_error 400 ''invalid_json''), s1)
      | Some j \<Rightarrow> k j s1)"

definition with_body :: "request \<Rightarrow> (fields \<Rightarrow> sys \<Rightarrow> rest_answer) \<Rightarrow> sys \<Rightarrow> rest_answer" where
  "with_body rq k s =
     with_json rq (\<lambda>j s. case as_obj j of None \<Rightarrow> (Inl no_get, s) | Some d \<Rightarrow> k d s) s"

text \<open>
  \<open>try: result = svc.op(...) except E as e: return error\<close>: \<open>status_of\<close> gives the status for an
  exception the handler catches.
\<close>

definition rest_result :: "(exn \<Rightarrow> int option) \<Rightarrow> int \<Rightarrow> (exn + fields) \<times> sys \<Rightarrow> rest_answer" where
  "rest_result status_of ok rs =
     (case fst rs of
        Inl e \<Rightarrow> (case status_of e of None \<Rightarrow> (Inl e, snd rs) | Some st \<Rightarrow> (Inr (rest_error st (exn_str e)), snd rs))
      | Inr d \<Rightarrow> (Inr (respond ok d), snd rs))"

text \<open>\<open>a or b\<close>.\<close>

definition py_or :: "json \<Rightarrow> json \<Rightarrow> json" where
  "py_or a b = (if truthy a then a else b)"

section \<open>WebSocket replies\<close>

text \<open>A handler gets the connection and the message.\<close>

type_synonym ws_answer = "exn option \<times> sys"
type_synonym ws_handler = "string \<Rightarrow> fields \<Rightarrow> sys \<Rightarrow> ws_answer"

definition reply :: "string \<Rightarrow> fields \<Rightarrow> 'a shared_scheme \<Rightarrow> 'a shared_scheme" where
  "reply c d s = emit (ConnSend c (JObj d)) s"

definition ws_error :: "fields \<Rightarrow> string \<Rightarrow> fields" where
  "ws_error msg m = [(''type'', JStr ''error''), (''error'', JStr m), (''id'', field ''id'' msg)]"

definition ws_fail :: "string \<Rightarrow> fields \<Rightarrow> string \<Rightarrow> sys \<Rightarrow> ws_answer" where
  "ws_fail c msg m s = (None, reply c (ws_error msg m) s)"

definition ws_reply :: "fields \<Rightarrow> string \<Rightarrow> fields \<Rightarrow> fields" where
  "ws_reply msg kind d = merge [(''type'', JStr kind), (''id'', field ''id'' msg)] d"

definition ws_result :: "(exn \<Rightarrow> bool) \<Rightarrow> string \<Rightarrow> fields \<Rightarrow> string \<Rightarrow> (exn + fields) \<times> sys \<Rightarrow> ws_answer" where
  "ws_result catches c msg kind rs =
     (case fst rs of
        Inl e \<Rightarrow> (if catches e then ws_fail c msg (exn_str e) (snd rs) else (Some e, snd rs))
      | Inr d \<Rightarrow> (None, reply c (ws_reply msg kind d) (snd rs)))"

fun is_identity_error :: "exn \<Rightarrow> bool" where
  "is_identity_error (IdentityError _) = True" | "is_identity_error _ = False"

fun is_destination_error :: "exn \<Rightarrow> bool" where
  "is_destination_error (DestinationError _) = True" | "is_destination_error _ = False"

fun is_announce_error :: "exn \<Rightarrow> bool" where
  "is_announce_error (AnnounceError _) = True" | "is_announce_error _ = False"

fun is_paths_error :: "exn \<Rightarrow> bool" where
  "is_paths_error (PathsError _) = True" | "is_paths_error _ = False"

fun is_packet_error :: "exn \<Rightarrow> bool" where
  "is_packet_error (PacketError _) = True" | "is_packet_error _ = False"

fun is_link_error :: "exn \<Rightarrow> bool" where
  "is_link_error (LinkError _) = True" | "is_link_error _ = False"

fun is_resource_error :: "exn \<Rightarrow> bool" where
  "is_resource_error (ResourceError _) = True" | "is_resource_error _ = False"

section \<open>The router\<close>

text \<open>
  \<open>WSRouter\<close>: handlers by message type. A handler runs on the world, since it may end the session
  it belongs to; what a session handler does is \<open>lift_ws\<close>.
\<close>

type_synonym world_handler = "string \<Rightarrow> fields \<Rightarrow> world \<Rightarrow> exn option \<times> world"

definition router_register ::
  "string \<Rightarrow> 'h \<Rightarrow> (string, 'h) dict \<Rightarrow> exn + (string, 'h) dict" where
  "router_register msg_type h table =
     (if dict_get table msg_type \<noteq> None
      then Inl (PyExn ''ValueError'' (''handler for '' @ py_repr msg_type @ '' already registered''))
      else Inr (dict_set msg_type h table))"

definition router_has :: "(string, 'h) dict \<Rightarrow> string \<Rightarrow> bool" where
  "router_has table msg_type \<longleftrightarrow> dict_get table msg_type \<noteq> None"

fun register_all :: "(string \<times> 'h) list \<Rightarrow> (string, 'h) dict \<Rightarrow> exn + (string, 'h) dict" where
  "register_all [] table = Inr table"
| "register_all ((k, h) # hs) table =
     (case router_register k h table of Inl e \<Rightarrow> Inl e | Inr t \<Rightarrow> register_all hs t)"

definition missing_type_error :: "fields \<Rightarrow> fields" where
  "missing_type_error msg = ws_error msg ''missing_type''"

definition router_error :: "string \<Rightarrow> string \<Rightarrow> fields \<Rightarrow> fields" where
  "router_error what msg_type msg =
     [(''type'', JStr ''error''), (''error'', JStr what), (''requested_type'', JStr msg_type), (''id'', field ''id'' msg)]"

definition dispatch :: "(string, world_handler) dict \<Rightarrow> string \<Rightarrow> fields \<Rightarrow> world \<Rightarrow> world" where
  "dispatch table c msg w =
     (case as_str (field ''type'' msg) of
        None \<Rightarrow> conn_send (JObj (missing_type_error msg)) c w
      | Some msg_type \<Rightarrow>
         (case dict_get table msg_type of
            None \<Rightarrow> conn_send (JObj (router_error ''unknown_type'' msg_type msg)) c w
          | Some h \<Rightarrow>
             (case h c msg w of
                (None, w1) \<Rightarrow> w1
              | (Some e, w1) \<Rightarrow> conn_send (JObj (router_error ''internal'' msg_type msg)) c w1)))"

text \<open>\<open>if conn.session is None: return\<close>, else the handler on that session; its frames go out.\<close>

definition lift_ws :: "ws_handler \<Rightarrow> world_handler" where
  "lift_ws h c msg w =
     (case ws_session (conns w c) of
        None \<Rightarrow> (None, w)
      | Some r \<Rightarrow> (fst (h c msg (sys_of r w)), on_session r (\<lambda>s. snd (h c msg s)) w))"

section \<open>Lemmas\<close>

lemma reply_frame [simp]:
  "trace (reply c d s) = trace s @ [ConnSend c (JObj d)]" "ses (reply c d t) = ses t"
  "entries (reply c d s) = entries s" "rlinks (reply c d s) = rlinks s" "transfers (reply c d s) = transfers s"
  "res_files (reply c d s) = res_files s" "next_ref (reply c d s) = next_ref s" "id_files (reply c d s) = id_files s"
  by (simp_all add: reply_def)

lemma register_all_distinct:
  "distinct (map fst hs) \<Longrightarrow> set (map fst hs) \<inter> set (dict_keys table) = {} \<Longrightarrow>
   register_all hs table = Inr (table @ hs)"
proof (induction hs arbitrary: table)
  case (Cons p hs)
  obtain k h where p: "p = (k, h)" by (cases p)
  have "k \<notin> fst ` set table" using Cons.prems p by (auto simp: dict_keys_def)
  then have "router_register k h table = Inr (table @ [(k, h)])"
    using dict_get_None_iff [of table k] by (simp add: router_register_def dict_set_fresh dict_keys_def)
  moreover have "register_all hs (table @ [(k, h)]) = Inr ((table @ [(k, h)]) @ hs)"
    using Cons.prems p by (intro Cons.IH) (auto simp: dict_keys_def)
  ultimately show ?case by (simp add: p)
qed simp

lemma register_all_duplicate:
  "\<not> distinct (map fst hs) \<Longrightarrow> \<exists>e. register_all hs table = Inl e"
proof (induction hs arbitrary: table)
  case (Cons p hs)
  obtain k h where p: "p = (k, h)" by (cases p)
  have known: "\<exists>e. register_all gs t = Inl e" if "dict_get t k' \<noteq> None" "k' \<in> fst ` set gs" for gs :: "(string \<times> 'a) list" and t k'
    using that
  proof (induction gs arbitrary: t)
    case (Cons q gs)
    obtain l g where q: "q = (l, g)" by (cases q)
    show ?case
    proof (cases "k' = l")
      case True
      with Cons.prems q show ?thesis by (simp add: router_register_def)
    next
      case False
      with Cons.prems Cons.IH [of "dict_set l g t"] q show ?thesis
        by (auto simp: router_register_def split: sum.split)
    qed
  qed simp
  show ?case
  proof (cases "router_register k h table")
    case (Inl e)
    then show ?thesis by (simp add: p)
  next
    case (Inr t)
    then have t: "t = dict_set k h table" by (auto simp: router_register_def split: if_splits)
    show ?thesis
    proof (cases "k \<in> fst ` set hs")
      case True
      with known [of t k hs] t show ?thesis by (simp add: p Inr)
    next
      case False
      with Cons p Inr show ?thesis by auto
    qed
  qed
qed simp

section \<open>Well-behaved operations\<close>

text \<open>
  What the registry and the sockets rely on: an operation leaves the identity of its session alone
  and only appends to the trace. A handler must moreover answer: unless it raises, which the router
  answers, the connection or its whole session is sent a frame.
\<close>

named_theorems polite_intros \<open>operations that keep the session's identity and extend the trace\<close>

definition polite :: "sys \<Rightarrow> sys \<Rightarrow> bool" where
  "polite s s' \<longleftrightarrow> same_person (ses s) (ses s') \<and> trace_ext s s'"

lemma polite_refl [simp, polite_intros]: "polite s s"
  by (simp add: polite_def)

lemma polite_trans: "polite s t \<Longrightarrow> polite t u \<Longrightarrow> polite s u"
  by (meson polite_def same_person_trans trace_ext_trans)

lemma politeD: "polite s s' \<Longrightarrow> s_id (ses s') = s_id (ses s)"
  by (simp add: polite_def same_person_def)

definition answered :: "string \<Rightarrow> sys \<Rightarrow> exn option \<times> sys \<Rightarrow> bool" where
  "answered c s xs \<longleftrightarrow>
     same_person (ses s) (ses (snd xs)) \<and>
     (\<exists>es. trace (snd xs) = trace s @ es \<and>
        (fst xs = None \<longrightarrow> (\<exists>j. ConnSend c j \<in> set es \<or> HubSession (s_id (ses s)) j \<in> set es)))"

lemma answered_reply: "polite s s' \<Longrightarrow> answered c s (None, reply c d s')"
  by (auto simp: polite_def answered_def trace_ext_def)

lemma answered_event: "polite s s' \<Longrightarrow> answered c s (None, emit (HubSession (s_id (ses s')) j) s')"
  by (auto simp: polite_def answered_def trace_ext_def same_person_def)

lemma answered_raise: "polite s s' \<Longrightarrow> answered c s (Some e, s')"
  by (auto simp: polite_def answered_def trace_ext_def)

lemma answered_fail: "polite s s' \<Longrightarrow> answered c s (ws_fail c msg m s')"
  by (simp add: ws_fail_def answered_reply)

lemma answered_result: "polite s (snd rs) \<Longrightarrow> answered c s (ws_result catches c msg kind rs)"
  by (auto simp: ws_result_def answered_reply answered_fail answered_raise split: sum.split)

lemmas answered_intros = answered_fail answered_result answered_reply answered_event answered_raise

text \<open>An answered handler puts a frame on the wire of its connection.\<close>

lemma deliver_keeps_wire: "p \<in> set (wire w) \<Longrightarrow> p \<in> set (wire (deliver e w))"
  using deliver_wire [of e w] by auto

lemma fold_deliver_reaches:
  assumes "e \<in> set es" and "\<not> ws_closed (conns w c)" and "i \<noteq> []" and "c \<in> set (session_connections i w)"
    and "e = ConnSend c j \<or> e = HubSession i j"
  shows "(c, j) \<in> set (drop (length (wire w)) (wire (fold deliver es w)))"
proof -
  obtain xs ys where es: "es = xs @ e # ys" using assms(1) by (meson split_list)
  let ?w1 = "fold deliver xs w"
  obtain fs where fs: "wire ?w1 = wire w @ fs" using fold_deliver_wire by blast
  have cc: "session_connections i ?w1 = session_connections i w" for i
    by (simp only: session_connections_def fold_deliver_frame)
  obtain gs where "wire (deliver e ?w1) = wire ?w1 @ gs" "(c, j) \<in> set gs"
    using assms(2-5) by (auto simp: deliver_def hub_send_session_wire cc)
  moreover obtain hs where "wire (fold deliver ys (deliver e ?w1)) = wire (deliver e ?w1) @ hs"
    using fold_deliver_wire by blast
  ultimately show ?thesis by (simp add: es fs)
qed

lemma lift_ws_answers:
  assumes "answered c (sys_of r w) (h c msg (sys_of r w))" and "ws_session (conns w c) = Some r"
    and "\<not> ws_closed (conns w c)" and "s_id (sessions w r) \<noteq> []"
    and "c \<in> set (session_connections (s_id (sessions w r)) w)" and "fst (lift_ws h c msg w) = None"
  shows "\<exists>j. (c, j) \<in> set (drop (length (wire w)) (wire (snd (lift_ws h c msg w))))"
proof -
  define s where "s = snd (h c msg (sys_of r w))"
  obtain es j where es: "trace s = trace w @ es" "ConnSend c j \<in> set es \<or> HubSession (s_id (sessions w r)) j \<in> set es"
    using assms(1,2,6) by (auto simp: answered_def lift_ws_def s_def)
  have same: "same_person (sessions w r) (ses s)" using assms(1) by (simp add: answered_def s_def)
  let ?w1 = "put_sys r s w"
  have "session_connections i ?w1 = session_connections i w" for i
  proof -
    have "s_id (sessions ?w1 q) = s_id (sessions w q)" for q using same by (simp add: same_person_def)
    then show ?thesis by (simp only: session_connections_def put_sys_simps(12,13))
  qed
  with fold_deliver_reaches [of _ es ?w1 c "s_id (sessions w r)" j] assms(3-5) es(2)
  have "(c, j) \<in> set (drop (length (wire w)) (wire (fold deliver es ?w1)))" by auto
  moreover have "snd (lift_ws h c msg w) = fold deliver es ?w1"
    using es(1) assms(2) by (simp add: lift_ws_def on_session_def s_def [symmetric] Let_def)
  ultimately show ?thesis by metis
qed

text \<open>The handlers of a type-checked dispatch are world steps of the registry.\<close>

lemma lift_ws_step:
  assumes "\<And>s. answered c s (h c msg s)"
  shows "world_steps a w (snd (lift_ws h c msg w))"
proof (cases "ws_session (conns w c)")
  case (Some r)
  have "\<forall>s. same_person (ses s) (ses (snd (h c msg s)))" using assms by (simp add: answered_def)
  then have "world_step a w (on_session r (\<lambda>s. snd (h c msg s)) w)" by (rule world_step.Service)
  with Some show ?thesis by (simp add: lift_ws_def world_steps_def)
qed (simp add: lift_ws_def world_steps_refl)

end
