(* ===== verification/Api_Auth.thy ===== *)
theory Api_Auth
  imports Api Passwords
begin

text \<open>
  \<open>handlers/auth.py\<close>, \<open>auth/middleware.py\<close> and the connection life cycle of \<open>server.py\<close>: who is
  let in, over REST and over WebSocket. These run on the whole world.
\<close>

section \<open>REST\<close>

type_synonym world_answer = "(exn + response) \<times> world"

definition session_info :: "session \<Rightarrow> fields" where
  "session_info x =
     [(''session_id'', JStr (s_id x)), (''created_at'', JFloat (created_at x)), (''last_seen_at'', JFloat (last_seen_at x)),
      (''is_anonymous'', JBool (is_anonymous x)), (''ws_connections'', jnat (length (ws_connections x)))]"

definition login_body :: "session \<Rightarrow> bool \<Rightarrow> bool \<Rightarrow> fields" where
  "login_body x auth_required anonymous =
     [(''token'', JStr (s_token x)), (''session_id'', JStr (s_id x)), (''auth_required'', JBool auth_required),
      (''is_anonymous'', JBool anonymous)]"

text \<open>
  \<open>verify_password\<close> on any JSON value: a true value that is no string has no \<open>encode\<close>, which is
  noticed only when the configured hash has been taken apart.
\<close>

definition verify_json :: "kdf \<Rightarrow> json \<Rightarrow> string \<Rightarrow> exn + bool" where
  "verify_json kdf password encoded =
     (case py_or password (JStr []) of
        JStr p \<Rightarrow> verify_password kdf p encoded
      | _ \<Rightarrow> verify_password (\<lambda>_ _ _ _ _ _. Inl (PyExn ''AttributeError'' ''object has no attribute encode'')) ''x'' encoded)"

definition created_event :: "session \<Rightarrow> fields" where
  "created_event x =
     [(''type'', JStr ''auth.session.created''), (''session_id'', JStr (s_id x)), (''at'', JFloat (created_at x))]"

text \<open>\<open>token\<close> and \<open>sid\<close> are the random strings a new session would get.\<close>

definition rest_login :: "auth_config \<Rightarrow> kdf \<Rightarrow> string \<Rightarrow> string \<Rightarrow> rat \<Rightarrow> json option \<Rightarrow> world \<Rightarrow> world_answer" where
  "rest_login a kdf token sid now body w =
     (if \<not> enabled a
      then (let (r, w1) = registry_anonymous token sid now w
            in (Inr (respond 200 (login_body (sessions w1 r) False True)), w1))
      else (case body of
        None \<Rightarrow> (Inr (rest_error 400 ''invalid_json''), w)
      | Some j \<Rightarrow>
         (case as_obj j of
            None \<Rightarrow> (Inl no_get, w)
          | Some d \<Rightarrow>
             (case (if field ''username'' d = JStr (username a) then verify_json kdf (field ''password'' d) (password_hash a)
                    else Inr False) of
                Inl e \<Rightarrow> (Inl e, w)
              | Inr False \<Rightarrow> (Inr (rest_error 401 ''invalid_credentials''), w)
              | Inr True \<Rightarrow>
                  (let (r, w1) = registry_create token sid now False w; x = sessions w1 r
                   in (Inr (respond 200 (login_body x True False)),
                       hub_send_session (s_id x) (JObj (created_event x)) w1))))))"

definition rest_logout :: "sref \<Rightarrow> world \<Rightarrow> world_answer" where
  "rest_logout r w =
     (if is_anonymous (sessions w r)
      then (Inr (respond 200 [(''ok'', JBool True), (''note'', JStr ''anonymous_session_not_revoked'')]), w)
      else (Inr (respond 200 [(''ok'', JBool True)]),
            snd (registry_revoke app_hooks (s_token (sessions w r)) ''logout'' w)))"

definition rest_session :: "sref \<Rightarrow> world \<Rightarrow> world_answer" where
  "rest_session r w = (Inr (respond 200 (session_info (sessions w r))), w)"

section \<open>The middleware\<close>

definition public_paths :: "string list" where
  "public_paths = [''/health'', ''/version'', ''/auth/login'']"

definition ws_paths :: "string list" where
  "ws_paths = [''/ws'']"

definition bearer :: string where "bearer = ''Bearer ''"

definition extract_token :: "string option \<Rightarrow> string option" where
  "extract_token header =
     (let h = (case header of None \<Rightarrow> [] | Some h \<Rightarrow> h) in
      if starts_with bearer h
      then (let t = strip (drop (length bearer) h) in if t = [] then None else Some t)
      else None)"

text \<open>The handler is given \<open>request["session"]\<close>, if the middleware sets one.\<close>

definition auth_middleware ::
  "auth_config \<Rightarrow> string \<Rightarrow> string \<Rightarrow> rat \<Rightarrow> string \<Rightarrow> string option \<Rightarrow>
   (sref option \<Rightarrow> world \<Rightarrow> world_answer) \<Rightarrow> world \<Rightarrow> world_answer" where
  "auth_middleware a token sid now path header handler w =
     (if \<not> enabled a then (let (r, w1) = registry_anonymous token sid now w in handler (Some r) w1)
      else if path \<in> set ws_paths then handler None w
      else if path \<in> set public_paths then handler None w
      else (case extract_token header of
        None \<Rightarrow> (Inr (rest_error 401 ''unauthorized''), w)
      | Some t \<Rightarrow>
         (case get_by_token t now w of
            (None, w1) \<Rightarrow> (Inr (rest_error 401 ''unauthorized''), w1)
          | (Some r, w1) \<Rightarrow> handler (Some r) w1)))"

section \<open>WebSocket\<close>

definition not_authenticated :: "fields \<Rightarrow> fields" where
  "not_authenticated msg = ws_error msg ''not_authenticated''"

definition ws_logout :: world_handler where
  "ws_logout c msg w =
     (case ws_session (conns w c) of
        None \<Rightarrow> (None, conn_send (JObj (not_authenticated msg)) c w)
      | Some r \<Rightarrow>
          if is_anonymous (sessions w r)
          then (None, conn_send (JObj [(''type'', JStr ''auth.logout.result''), (''ok'', JBool True),
                        (''note'', JStr ''anonymous_session_not_revoked''), (''id'', field ''id'' msg)]) c w)
          else (None, snd (registry_revoke app_hooks (s_token (sessions w r)) ''logout''
                 (conn_send (JObj [(''type'', JStr ''auth.logout.result''), (''ok'', JBool True),
                                   (''id'', field ''id'' msg)]) c w))))"

definition ws_touch :: "rat \<Rightarrow> string \<Rightarrow> world \<Rightarrow> world" where
  "ws_touch now c w =
     (case ws_session (conns w c) of None \<Rightarrow> w | Some r \<Rightarrow> upd_session r (touch now) w)"

definition ws_ping :: "rat \<Rightarrow> world_handler" where
  "ws_ping now c msg w =
     (None, conn_send (JObj [(''type'', JStr ''pong''), (''id'', field ''id'' msg), (''t'', JFloat now)]) c (ws_touch now c w))"

definition ws_session_info :: world_handler where
  "ws_session_info c msg w =
     (case ws_session (conns w c) of
        None \<Rightarrow> (None, conn_send (JObj (not_authenticated msg)) c w)
      | Some r \<Rightarrow>
          (None, conn_send (JObj (merge [(''type'', JStr ''session.info''), (''id'', field ''id'' msg)]
                   (session_info (sessions w r)))) c w))"

subsection \<open>The connection\<close>

text \<open>
  The first frame: none before the timeout, a closing frame, a frame that is no text, or a text
  with the JSON value it parses to.
\<close>

datatype first_frame = FirstTimeout | FirstClosed | FirstBinary | FirstText "json option"

definition rejected :: "string \<Rightarrow> json" where
  "rejected reason = JObj [(''type'', JStr ''auth.session.rejected''), (''reason'', JStr reason)]"

definition ws_reject :: "int \<Rightarrow> string \<Rightarrow> string \<Rightarrow> world \<Rightarrow> world" where
  "ws_reject st reason c w = conn_close st reason c (conn_send (rejected reason) c w)"

definition connected_event :: "string \<Rightarrow> session \<Rightarrow> string \<Rightarrow> json" where
  "connected_event kind x c =
     JObj [(''type'', JStr kind), (''session_id'', JStr (s_id x)), (''connection_id'', JStr c)]"

definition ws_attach :: "sref \<Rightarrow> string \<Rightarrow> world \<Rightarrow> world" where
  "ws_attach r c w =
     (let w1 = conn_attach r c w; x = sessions w1 r
      in hub_send_session (s_id x) (connected_event ''auth.session.connected'' x c)
           (conn_send (JObj [(''type'', JStr ''auth.session.attached''), (''session_id'', JStr (s_id x)),
                             (''is_anonymous'', JBool (is_anonymous x))]) c w1))"

text \<open>
  The handshake; \<open>waiting\<close> is what the daemon does while the first frame is awaited. \<open>Inr True\<close> when the connection is attached and its frames are read, \<open>Inr False\<close>
  when the handler returns, \<open>Inl\<close> the exception that ends it.
\<close>

definition ws_handshake ::
  "auth_config \<Rightarrow> string \<Rightarrow> string \<Rightarrow> rat \<Rightarrow> string \<Rightarrow> (world \<Rightarrow> world) \<Rightarrow> first_frame \<Rightarrow> world \<Rightarrow>
   (exn + bool) \<times> world" where
  "ws_handshake a token sid now c waiting frame w0 =
     (if \<not> enabled a
      then (let (r, w1) = registry_anonymous token sid now (conn_open c w0) in (Inr True, ws_attach r c w1))
      else (let w = waiting (conn_open c w0) in case frame of
        FirstTimeout \<Rightarrow> (Inr False, ws_reject 4001 ''auth_timeout'' c w)
      | FirstClosed \<Rightarrow> (Inr False, upd_conn c (\<lambda>k. k\<lparr>ws_closed := True\<rparr>) w)
      | FirstBinary \<Rightarrow> (Inr False, ws_reject 4001 ''auth_required'' c w)
      | FirstText None \<Rightarrow> (Inr False, ws_reject 4001 ''invalid_json'' c w)
      | FirstText (Some j) \<Rightarrow>
         (case as_obj j of
            None \<Rightarrow> (Inl no_get, w)
          | Some d \<Rightarrow>
             (case (if field ''type'' d = JStr ''auth'' then as_str (field ''token'' d) else None) of
                None \<Rightarrow> (Inr False, ws_reject 4001 ''auth_required'' c w)
              | Some t \<Rightarrow>
                 (case get_by_token t now w of
                    (None, w1) \<Rightarrow> (Inr False, ws_reject 4001 ''invalid_token'' c w1)
                  | (Some r, w1) \<Rightarrow> (Inr True, ws_attach r c w1))))))"

text \<open>The body of the loop over the text frames; \<open>None\<close> is a text that is no JSON.\<close>

definition ws_frame :: "(string, world_handler) dict \<Rightarrow> rat \<Rightarrow> string \<Rightarrow> json option \<Rightarrow> world \<Rightarrow> world" where
  "ws_frame table now c frame w =
     (case frame of
        None \<Rightarrow> conn_send (JObj [(''type'', JStr ''error''), (''error'', JStr ''invalid_json'')]) c w
      | Some j \<Rightarrow>
         (case as_obj j of
            None \<Rightarrow> conn_send (JObj [(''type'', JStr ''error''), (''error'', JStr ''invalid_message'')]) c w
          | Some msg \<Rightarrow> dispatch table c msg (ws_touch now c w)))"

text \<open>The \<open>finally\<close> block.\<close>

definition ws_finally :: "string \<Rightarrow> world \<Rightarrow> world" where
  "ws_finally c w =
     hub_unregister c (conn_detach c
       (case ws_session (conns w c) of
          None \<Rightarrow> w
        | Some r \<Rightarrow> (let x = sessions w r
                    in hub_send_session (s_id x) (connected_event ''auth.session.disconnected'' x c) w)))"

text \<open>
  A whole connection: \<open>frames\<close> are what the client sends, each after whatever else the daemon
  does in between; the loop ends when the socket is closed.
\<close>

fun ws_frames :: "(string, world_handler) dict \<Rightarrow> string \<Rightarrow> ((world \<Rightarrow> world) \<times> rat \<times> json option) list \<Rightarrow> world \<Rightarrow> world" where
  "ws_frames table c [] w = w"
| "ws_frames table c ((meanwhile, now, frame) # frames) w =
     (let w1 = meanwhile w in
      if ws_closed (conns w1 c) then w1 else ws_frames table c frames (ws_frame table now c frame w1))"

definition ws_connection ::
  "auth_config \<Rightarrow> string \<Rightarrow> string \<Rightarrow> (string, world_handler) dict \<Rightarrow> string \<Rightarrow> rat \<Rightarrow> (world \<Rightarrow> world) \<Rightarrow> first_frame \<Rightarrow>
   ((world \<Rightarrow> world) \<times> rat \<times> json option) list \<Rightarrow> world \<Rightarrow> world" where
  "ws_connection a token sid table c now waiting frame frames w =
     (case ws_handshake a token sid now c waiting frame w of
        (Inr True, w1) \<Rightarrow> ws_finally c (ws_frames table c frames w1)
      | (_, w1) \<Rightarrow> ws_finally c w1)"

section \<open>The gate\<close>

lemma auth_middleware_gate:
  assumes "enabled a" and "path \<notin> set ws_paths" and "path \<notin> set public_paths"
  shows "auth_middleware a token sid now path header handler w =
      (case extract_token header of
         None \<Rightarrow> (Inr (rest_error 401 ''unauthorized''), w)
       | Some t \<Rightarrow> (case dict_get (by_token w) t of
                     None \<Rightarrow> (Inr (rest_error 401 ''unauthorized''), w)
                   | Some r \<Rightarrow> handler (Some r) (upd_session r (touch now) w)))"
proof (cases "extract_token header")
  case None
  then show ?thesis using assms by (simp add: auth_middleware_def)
next
  case (Some t)
  then show ?thesis
    using assms by (cases "dict_get (by_token w) t") (simp_all add: auth_middleware_def get_by_token_def)
qed

lemma revoked_token_unknown:
  "\<forall>h \<in> set hs. hook_ok h \<Longrightarrow> dict_get (by_token (snd (registry_revoke hs t reason w))) t = None"
  by (cases "dict_get (by_token w) t")
    (simp_all add: registry_revoke_def Let_def teardown_facts(3) [OF _ refl])

lemma swept_token_unknown:
  assumes "world_ok w" and "registered w r" and "is_expired a (sessions w r) later"
  shows "dict_get (by_token (snd (sweep_sessions app_hooks a later w))) (s_token (sessions w r)) = None"
proof -
  define rs where "rs = filter (\<lambda>r. is_expired a (sessions w r) later) (dict_values (by_token w))"
  let ?v = "sweep_fold app_hooks rs w"
  note l = expired_list [OF assms(1) rs_def]
  note f = sweep_fold_facts [OF app_hooks_ok assms(1) l(1,2)]
  have v: "snd (sweep_sessions app_hooks a later w) = ?v"
    by (simp add: sweep_sessions_def Let_def sweep_fold_def rs_def)
  have "dict_get (by_token ?v) (s_token (sessions w r)) = None"
  proof (rule ccontr)
    assume "dict_get (by_token ?v) (s_token (sessions w r)) \<noteq> None"
    then obtain q where q: "dict_get (by_token ?v) (s_token (sessions w r)) = Some q" by blast
    then have tok: "s_token (sessions ?v q) = s_token (sessions w r)"
      using f(1) registry_okD(4) by (simp add: world_ok_def)
    with q have "registered ?v q" by (simp add: registered_def)
    then have "registered w q" "q \<notin> set rs" using f(2) by simp_all
    then have "q = r" using tok f(3) [of q] assms(2) by (simp add: registered_def)
    with \<open>q \<notin> set rs\<close> l(3) assms(2,3) show False by simp
  qed
  with v show ?thesis by simp
qed

text \<open>C2. With authentication on, a request to any path but the public ones reaches its handler exactly when
  its bearer token is that of a registered session, and then it runs on that very session, whose idle time
  restarts; otherwise it is answered 401 and the world does not change. From the moment a session is revoked,
  or swept because it expired, its token is refused.\<close>

theorem bearer_token_gates:
  assumes "world_steps a (start_world b) w" and "enabled a" and "path \<notin> set ws_paths" and "path \<notin> set public_paths"
  shows "(if \<exists>r. registered w r \<and> extract_token header = Some (s_token (sessions w r))
      then \<exists>r. registered w r \<and> extract_token header = Some (s_token (sessions w r)) \<and>
        auth_middleware a token sid now path header handler w = handler (Some r) (upd_session r (touch now) w)
      else auth_middleware a token sid now path header handler w = (Inr (rest_error 401 ''unauthorized''), w)) \<and>
    (registered w q \<longrightarrow> extract_token header = Some (s_token (sessions w q)) \<longrightarrow>
      (let v = snd (registry_revoke app_hooks (s_token (sessions w q)) reason w) in
         auth_middleware a token sid now path header handler v = (Inr (rest_error 401 ''unauthorized''), v)) \<and>
      (is_expired a (sessions w q) later \<longrightarrow>
       (let v = snd (sweep_sessions app_hooks a later w) in
         auth_middleware a token sid now path header handler v = (Inr (rest_error 401 ''unauthorized''), v))))"
proof -
  note gate = auth_middleware_gate [OF assms(2-4)]
  have ok: "world_ok w" using assms(1) by (rule reachable_world_ok)
  have known: "dict_get (by_token w) t = Some r \<longleftrightarrow> registered w r \<and> s_token (sessions w r) = t" for t r
    using registry_okD(4) [of w t r] ok by (auto simp: registered_def world_ok_def)
  have reach: "if \<exists>r. registered w r \<and> extract_token header = Some (s_token (sessions w r))
      then \<exists>r. registered w r \<and> extract_token header = Some (s_token (sessions w r)) \<and>
        auth_middleware a token sid now path header handler w = handler (Some r) (upd_session r (touch now) w)
      else auth_middleware a token sid now path header handler w = (Inr (rest_error 401 ''unauthorized''), w)"
  proof (cases "\<exists>r. registered w r \<and> extract_token header = Some (s_token (sessions w r))")
    case True
    then obtain r where r: "registered w r" "extract_token header = Some (s_token (sessions w r))" by blast
    then have "dict_get (by_token w) (s_token (sessions w r)) = Some r" by (simp add: registered_def)
    with r show ?thesis by (auto simp: gate)
  next
    case False
    then have none: "dict_get (by_token w) t = None" if "extract_token header = Some t" for t
      using that known by (cases "dict_get (by_token w) t") auto
    have "auth_middleware a token sid now path header handler w = (Inr (rest_error 401 ''unauthorized''), w)"
      using none by (cases "extract_token header") (simp_all add: gate)
    with False show ?thesis by (simp only: if_False)
  qed
  then show ?thesis
    by (simp add: gate Let_def revoked_token_unknown [OF app_hooks_ok] swept_token_unknown [OF ok])
qed

section \<open>The handshake\<close>

text \<open>What the daemon may do around one connection: world steps that leave this connection alone.\<close>

definition leaves_alone :: "auth_config \<Rightarrow> string \<Rightarrow> (world \<Rightarrow> world) \<Rightarrow> bool" where
  "leaves_alone a c m \<longleftrightarrow>
     (\<forall>w. world_steps a w (m w) \<and> (c \<in> set (hub_conns w) \<longrightarrow> c \<in> set (hub_conns (m w))) \<and>
          ws_session (conns (m w) c) = ws_session (conns w c))"

lemma world_steps_trans: "world_steps a u v \<Longrightarrow> world_steps a v w \<Longrightarrow> world_steps a u w"
  unfolding world_steps_def by (rule rtranclp_trans)

lemma world_steps_one: "world_step a w v \<Longrightarrow> world_steps a w v"
  by (simp add: world_steps_def)

lemma hub_send_step: "world_step a w (hub_send_session i j w)"
  using world_step.Deliver [of a w "HubSession i j"] by (simp add: deliver_def)

lemma ws_reject_steps: "world_steps a w (ws_reject st m c w)"
  unfolding ws_reject_def
  by (rule world_steps_snoc [OF world_steps_one [OF world_step.Send] world_step.Close])

lemma ws_reject_frame [simp]:
  "sessions (ws_reject st m c w) = sessions w" "hub_conns (ws_reject st m c w) = hub_conns w"
  "by_token (ws_reject st m c w) = by_token w" "ws_session (conns (ws_reject st m c w) d) = ws_session (conns w d)"
  "ws_closed (conns (ws_reject st m c w) d) = (d = c \<or> ws_closed (conns w d))"
  by (simp_all add: ws_reject_def)

lemma ws_attach_steps:
  assumes "registered w r" and "c \<in> set (hub_conns w)" and "ws_session (conns w c) = None"
  shows "world_steps a w (ws_attach r c w)"
proof -
  have "world_steps a w (conn_attach r c w)"
    by (rule world_steps_one [OF world_step.Attach]) (use assms in simp_all)
  then show ?thesis
    unfolding ws_attach_def Let_def by (rule world_steps_snoc [OF world_steps_snoc [OF _ world_step.Send] hub_send_step])
qed

lemma ws_attach_frame [simp]:
  "ws_session (conns (ws_attach r c w) d) = (if d = c then Some r else ws_session (conns w d))"
  "by_token (ws_attach r c w) = by_token w" "hub_conns (ws_attach r c w) = hub_conns w"
  "s_token (sessions (ws_attach r c w) q) = s_token (sessions w q)"
  by (simp_all add: ws_attach_def Let_def conn_attach_def)

lemma conn_open_frame [simp]:
  "sessions (conn_open c w) = sessions w" "by_token (conn_open c w) = by_token w" "next_sref (conn_open c w) = next_sref w"
  "anon (conn_open c w) = anon w" "set (hub_conns (conn_open c w)) = insert c (set (hub_conns w))"
  "ws_session (conns (conn_open c w) c) = None" "wire (conn_open c w) = wire w"
  by (simp_all add: conn_open_def hub_register_def)

text \<open>The token that admits, if the first frame carries one.\<close>

definition frame_token :: "first_frame \<Rightarrow> string option" where
  "frame_token frame =
     (case frame of
        FirstText (Some (JObj d)) \<Rightarrow> (if field ''type'' d = JStr ''auth'' then as_str (field ''token'' d) else None)
      | _ \<Rightarrow> None)"

lemma ws_handshake_enabled:
  assumes "enabled a"
  shows "ws_handshake a token sid now c waiting frame w0 =
    (let w = waiting (conn_open c w0) in
      case frame_token frame of
        Some t \<Rightarrow>
          (case dict_get (by_token w) t of
             Some r \<Rightarrow> (Inr True, ws_attach r c (upd_session r (touch now) w))
           | None \<Rightarrow> (Inr False, ws_reject 4001 ''invalid_token'' c w))
      | None \<Rightarrow>
          (case frame of
             FirstTimeout \<Rightarrow> (Inr False, ws_reject 4001 ''auth_timeout'' c w)
           | FirstClosed \<Rightarrow> (Inr False, upd_conn c (\<lambda>k. k\<lparr>ws_closed := True\<rparr>) w)
           | FirstBinary \<Rightarrow> (Inr False, ws_reject 4001 ''auth_required'' c w)
           | FirstText None \<Rightarrow> (Inr False, ws_reject 4001 ''invalid_json'' c w)
           | FirstText (Some j) \<Rightarrow>
               if as_obj j = None then (Inl no_get, w) else (Inr False, ws_reject 4001 ''auth_required'' c w)))"
proof (cases frame)
  case (FirstText oj)
  show ?thesis
  proof (cases oj)
    case (Some j)
    show ?thesis
    proof (cases j)
      case (JObj d)
      show ?thesis
      proof (cases "if field ''type'' d = JStr ''auth'' then as_str (field ''token'' d) else None")
        case None
        then show ?thesis using assms by (simp add: FirstText Some JObj ws_handshake_def frame_token_def Let_def)
      next
        case t: (Some t)
        then show ?thesis
          using assms by (cases "dict_get (by_token (waiting (conn_open c w0))) t")
            (simp_all add: FirstText Some JObj ws_handshake_def frame_token_def get_by_token_def Let_def)
      qed
    qed (use assms in \<open>simp_all add: FirstText Some ws_handshake_def frame_token_def Let_def\<close>)
  qed (use assms in \<open>simp add: FirstText ws_handshake_def frame_token_def Let_def\<close>)
qed (use assms in \<open>simp_all add: ws_handshake_def frame_token_def Let_def\<close>)

lemma ws_handshake_steps:
  assumes "world_ok w0" and "c \<notin> set (hub_conns w0)" and "leaves_alone a c waiting"
    and "\<not> enabled a \<Longrightarrow> fresh_names token sid w0"
  shows "world_steps a w0 (snd (ws_handshake a token sid now c waiting frame w0))"
proof -
  have open_steps: "world_steps a w0 (conn_open c w0)"
    by (rule world_steps_one [OF world_step.Connect]) (rule assms(2))
  show ?thesis
  proof (cases "enabled a")
    case True
    define w where "w = waiting (conn_open c w0)"
    have w: "world_steps a w0 w" "c \<in> set (hub_conns w)" "ws_session (conns w c) = None"
      using assms(3) world_steps_trans [OF open_steps] by (auto simp: leaves_alone_def w_def)
    have ok: "world_ok w" using world_steps_ok [OF w(1) assms(1)] .
    have attach: "world_steps a w0 (ws_attach r c (upd_session r (touch now) w))" if "dict_get (by_token w) t = Some r" for t r
    proof (rule world_steps_trans [OF world_steps_snoc [OF w(1) world_step.Touch] ws_attach_steps])
      show "registered (upd_session r (touch now) w) r"
        using that registry_okD(4) [of w t r] ok by (simp add: registered_def world_ok_def)
    qed (use w in simp_all)
    have "world_steps a w0 (upd_conn c (\<lambda>k. k\<lparr>ws_closed := True\<rparr>) w)"
      by (rule world_steps_snoc [OF w(1) world_step.Closed])
    then show ?thesis
      using w(1) attach world_steps_trans [OF w(1) ws_reject_steps]
      by (auto simp: ws_handshake_enabled [OF True] w_def [symmetric] Let_def split: option.split first_frame.split)
  next
    case False
    let ?w = "conn_open c w0"
    obtain r w1 where an: "registry_anonymous token sid now ?w = (r, w1)" by fastforce
    have fresh: "fresh_names token sid ?w" using assms(4) [OF False] by (simp add: fresh_names_def)
    have ok: "world_ok w1" using anonymous_ok [OF world_steps_ok [OF open_steps assms(1)] fresh, of now] an by simp
    have steps: "world_steps a w0 w1"
      using world_steps_snoc [OF open_steps world_step.Anonymous [OF fresh, of a now]] an by simp
    have "anon w1 = Some r \<and> hub_conns w1 = hub_conns ?w \<and> conns w1 = conns ?w"
      using an by (auto simp: registry_anonymous_def registry_create_def Let_def split: option.splits)
    then show ?thesis
      using False an ok world_steps_trans [OF steps ws_attach_steps, of r c] registry_okD(8) [of w1 r]
      by (simp add: ws_handshake_def world_ok_def)
  qed
qed

text \<open>C3. With authentication on, a socket is attached to a session exactly when its first frame is an
  \<open>auth\<close> object with the token of a session that is registered at that moment, and then it is attached to
  that session; in every other case it stays unattached, no session changes, and, unless the frame was JSON
  other than an object, the socket is closed.\<close>

theorem handshake_admits_token_holders:
  assumes "world_steps a (start_world b) w0" and "enabled a" and "c \<notin> set (hub_conns w0)" and "leaves_alone a c waiting"
    and "w = waiting (conn_open c w0)" and "ws_handshake a token sid now c waiting frame w0 = (res, v)"
  shows "(res = Inr True) = (\<exists>t r. frame_token frame = Some t \<and> dict_get (by_token w) t = Some r) \<and>
    (res = Inr True \<longrightarrow> (\<exists>t r. frame_token frame = Some t \<and> dict_get (by_token w) t = Some r \<and>
       ws_session (conns v c) = Some r \<and> s_token (sessions v r) = t \<and> registered v r)) \<and>
    (res \<noteq> Inr True \<longrightarrow> ws_session (conns v c) = None \<and> sessions v = sessions w) \<and>
    (res = Inr False \<longrightarrow> ws_closed (conns v c)) \<and> world_ok v"
proof -
  have ok0: "world_ok w0" using assms(1) by (rule reachable_world_ok)
  have steps: "world_steps a w0 v"
    using ws_handshake_steps [OF ok0 assms(3,4), of token sid now frame] assms(2,6) by simp
  then have ok: "world_ok v" using world_steps_ok ok0 by blast
  have w: "ws_session (conns w c) = None" "world_ok w"
    using assms(4) world_steps_ok [OF world_steps_trans [OF world_steps_one [OF world_step.Connect [OF assms(3)]]] ok0]
    by (auto simp: leaves_alone_def assms(5))
  show ?thesis
  proof (cases "\<exists>t r. frame_token frame = Some t \<and> dict_get (by_token w) t = Some r")
    case True
    then obtain t r where t: "frame_token frame = Some t" "dict_get (by_token w) t = Some r" by blast
    have "s_token (sessions w r) = t" using registry_okD(4) [of w t r] t(2) w(2) by (simp add: world_ok_def)
    with t assms(2,6) ok show ?thesis
      by (auto simp: ws_handshake_enabled [OF assms(2)] assms(5) [symmetric] Let_def registered_def)
  next
    case False
    then have "res \<noteq> Inr True \<and> ws_session (conns v c) = None \<and> sessions v = sessions w \<and>
        (res = Inr False \<longrightarrow> ws_closed (conns v c))"
      using assms(6) w(1)
      by (auto simp: ws_handshake_enabled [OF assms(2)] assms(5) [symmetric] Let_def
          split: option.splits first_frame.splits if_splits)
    with False ok show ?thesis by blast
  qed
qed

section \<open>Witnesses\<close>

theorem bearer_token_gates_witness:
  "fst (auth_middleware short_auth [] [] 100 ''/session'' (Some ''Bearer t1 '') (\<lambda>q. rest_session (the q)) two_sessions) =
     Inr (respond 200 (session_info ((sessions two_sessions (Suc 0))\<lparr>last_seen_at := 100\<rparr>))) \<and>
   fst (auth_middleware short_auth [] [] 200 ''/session'' (Some ''Bearer t1 '') (\<lambda>q. rest_session (the q))
     (snd (sweep_sessions app_hooks short_auth 150 two_sessions))) = Inr (rest_error 401 ''unauthorized'')"
proof -
  have token: "extract_token (Some ''Bearer t1 '') = Some ''t1''" by code_simp
  have reg: "registered two_sessions r \<and> s_token (sessions two_sessions r) = ''t1'' \<longleftrightarrow> r = Suc 0" for r
    by (auto simp: registered_def two_sessions_simps dict_get_def new_session_def)
  have expired: "is_expired short_auth (sessions two_sessions (Suc 0)) 150"
    by (simp add: is_expired_def two_sessions_simps new_session_def short_auth_def)
  have gate: "enabled short_auth" "''/session'' \<notin> set ws_paths" "''/session'' \<notin> set public_paths"
    by (simp_all add: short_auth_def ws_paths_def public_paths_def)
  note b = bearer_token_gates [OF two_sessions_reachable gate, of "Some ''Bearer t1 ''" "[]" "[]" _ "\<lambda>q. rest_session (the q)" "Suc 0" _ 150]
  have one: "registered two_sessions (Suc 0)" "s_token (sessions two_sessions (Suc 0)) = ''t1''" using reg by blast+
  have "\<exists>r. registered two_sessions r \<and> extract_token (Some ''Bearer t1 '') = Some (s_token (sessions two_sessions r))"
    using one token by metis
  with conjunct1 [OF b [of 100 "[]"]] obtain r where r: "registered two_sessions r" "s_token (sessions two_sessions r) = ''t1''"
    "auth_middleware short_auth [] [] 100 ''/session'' (Some ''Bearer t1 '') (\<lambda>q. rest_session (the q)) two_sessions =
       rest_session (the (Some r)) (upd_session r (touch 100) two_sessions)"
    by (auto simp only: if_True token option.inject)
  moreover have "r = Suc 0" using r(1,2) reg by blast
  moreover have "fst (auth_middleware short_auth [] [] 200 ''/session'' (Some ''Bearer t1 '') (\<lambda>q. rest_session (the q))
     (snd (sweep_sessions app_hooks short_auth 150 two_sessions))) = Inr (rest_error 401 ''unauthorized'')"
    using conjunct2 [OF b [of 200 "[]"]] one expired token by (simp only: Let_def simp_thms fst_conv)
  ultimately show ?thesis by (simp add: rest_session_def touch_def)
qed

theorem handshake_admits_token_holders_witness:
  "\<exists>v. ws_handshake short_auth [] [] 100 ''c9'' id (FirstText (Some (JObj [(''type'', JStr ''auth''), (''token'', JStr ''t1'')])))
       two_sessions = (Inr True, v) \<and> ws_session (conns v ''c9'') = Some 1"
proof -
  let ?f = "FirstText (Some (JObj [(''type'', JStr ''auth''), (''token'', JStr ''t1'')]))"
  obtain res v where *: "ws_handshake short_auth [] [] 100 ''c9'' id ?f two_sessions = (res, v)" by fastforce
  have "leaves_alone short_auth ''c9'' id" by (simp add: leaves_alone_def world_steps_refl)
  moreover have "frame_token ?f = Some ''t1''" by (simp add: frame_token_def field_def dict_get_def)
  moreover have "dict_get (by_token two_sessions) ''t1'' = Some 1" by (simp add: two_sessions_simps dict_get_def)
  moreover have "enabled short_auth" "''c9'' \<notin> set (hub_conns two_sessions)"
    by (simp_all add: short_auth_def two_sessions_simps)
  moreover note handshake_admits_token_holders [OF two_sessions_reachable \<open>enabled short_auth\<close> \<open>''c9'' \<notin> _\<close>
      \<open>leaves_alone short_auth ''c9'' id\<close> refl *]
  ultimately have "res = Inr True \<and> ws_session (conns v ''c9'') = Some 1" by auto
  with * show ?thesis by blast
qed

end
