(* ===== verification/Api_Identity.thy ===== *)
theory Api_Identity
  imports Api
begin

text \<open>
  \<open>handlers/identity.py\<close>: identities, the active identity of a session and its destinations, over
  REST and over WebSocket. \<open>fresh\<close> is the identity \<open>RNS.Identity()\<close> generates.
\<close>

section \<open>Helpers\<close>

definition session_is_dirty :: "session \<Rightarrow> bool" where
  "session_is_dirty x \<longleftrightarrow> owned_destinations x \<noteq> [] \<or> open_links x \<noteq> []"

definition dirty_counts :: "session \<Rightarrow> fields" where
  "dirty_counts x =
     [(''owned_destinations'', jnat (length (owned_destinations x))), (''open_links'', jnat (length (open_links x)))]"

definition active_identity_body :: "rns_env \<Rightarrow> sys \<Rightarrow> exn + fields" where
  "active_identity_body E s =
     (case active_identity_hash (ses s) of
        None \<Rightarrow> Inr [(''active'', JBool False)]
      | Some h \<Rightarrow>
         (case identity_load E s (bytes_hex h) of
            Inl e \<Rightarrow> (if is_identity_error e then Inr [(''active'', JBool False)] else Inl e)
          | Inr i \<Rightarrow> Inr (merge [(''active'', JBool True)] (identity_info_to_dict (identity_info_for s i)))))"

definition emit_session :: "fields \<Rightarrow> sys \<Rightarrow> sys" where
  "emit_session event s = emit (HubSession (s_id (ses s)) (JObj event)) s"

definition about_session :: "string \<Rightarrow> sys \<Rightarrow> fields" where
  "about_session kind s = [(''type'', JStr kind), (''session_id'', JStr (s_id (ses s)))]"

definition active_changed_event :: "fields \<Rightarrow> sys \<Rightarrow> fields" where
  "active_changed_event info s =
     merge (about_session ''session.active_identity.changed'' s @ [(''active'', JBool True)]) info"

definition active_cleared_event :: "sys \<Rightarrow> fields" where
  "active_cleared_event s = about_session ''session.active_identity.changed'' s @ [(''active'', JBool False)]"

definition set_active :: "rns_identity \<Rightarrow> sys \<Rightarrow> sys" where
  "set_active i s = upd_ses (\<lambda>x. x\<lparr>active_identity_hash := Some (id_hash i)\<rparr>) s"

definition clear_active :: "sys \<Rightarrow> sys" where
  "clear_active s = upd_ses (\<lambda>x. x\<lparr>active_identity_hash := None\<rparr>) s"

text \<open>\<open>isinstance(aspects, list) and all(isinstance(a, str) for a in aspects)\<close>.\<close>

definition str_list :: "json \<Rightarrow> string list option" where
  "str_list j = (case as_list j of None \<Rightarrow> None | Some vs \<Rightarrow> all_str vs)"

section \<open>REST\<close>

definition rest_create_identity :: "rns_env \<Rightarrow> rns_identity \<Rightarrow> request \<Rightarrow> sys \<Rightarrow> rest_answer" where
  "rest_create_identity E fresh rq s =
     (let ((_, info), s1) = identity_create E fresh s;
          d = identity_info_to_dict info
      in (Inr (respond 201 d), emit_session (merge (about_session ''identity.created'' s1) d) s1))"

definition rest_list_identities :: "rns_env \<Rightarrow> request \<Rightarrow> sys \<Rightarrow> rest_answer" where
  "rest_list_identities E rq s =
     (Inr (respond 200 [(''identities'', JList (map (\<lambda>i. JObj (identity_info_to_dict i)) (identity_list E s)))]), s)"

definition rest_get_identity :: "rns_env \<Rightarrow> request \<Rightarrow> sys \<Rightarrow> rest_answer" where
  "rest_get_identity E rq s =
     rest_result (\<lambda>e. if is_identity_error e then Some 404 else None) 200
       (map_sum id (\<lambda>i. identity_info_to_dict (identity_info_for s i)) (identity_load E s (rq_match rq)), s)"

definition rest_get_active_identity :: "rns_env \<Rightarrow> request \<Rightarrow> sys \<Rightarrow> rest_answer" where
  "rest_get_active_identity E rq s = rest_result (\<lambda>_. None) 200 (active_identity_body E s, s)"

text \<open>The session is checked before the body is awaited, and not again afterwards.\<close>

definition rest_set_active_identity :: "rns_env \<Rightarrow> request \<Rightarrow> sys \<Rightarrow> rest_answer" where
  "rest_set_active_identity E rq s =
     (if session_is_dirty (ses s)
      then (Inr (respond 409
             (merge [(''error'', JStr ''session_dirty''),
                     (''message'', JStr ''cannot switch identity with active destinations or links'')]
               (dirty_counts (ses s)))), s)
      else with_body rq (\<lambda>body s.
        case as_str (py_or (field ''hash'' body) (field ''identity_hash'' body)) of
          None \<Rightarrow> (Inr (rest_error 400 ''missing_hash''), s)
        | Some h \<Rightarrow>
           (case identity_load E s h of
              Inl e \<Rightarrow> (if is_identity_error e then (Inr (rest_error 404 (exn_str e)), s) else (Inl e, s))
            | Inr i \<Rightarrow>
               (let s1 = set_active i s; info = identity_info_to_dict (identity_info_for s1 i)
                in (Inr (respond 200 (merge [(''active'', JBool True)] info)),
                    emit_session (active_changed_event info s1) s1)))) s)"

definition rest_clear_active_identity :: "request \<Rightarrow> sys \<Rightarrow> rest_answer" where
  "rest_clear_active_identity rq s =
     (if session_is_dirty (ses s)
      then (Inr (respond 409 (merge [(''error'', JStr ''session_dirty'')] (dirty_counts (ses s)))), s)
      else (let s1 = clear_active s
            in (Inr (respond 200 [(''active'', JBool False)]), emit_session (active_cleared_event s1) s1)))"

definition rest_list_destinations :: "request \<Rightarrow> sys \<Rightarrow> rest_answer" where
  "rest_list_destinations rq s =
     (Inr (respond 200
        [(''destinations'', JList (map (\<lambda>d. JObj (destination_info_to_dict d)) (destination_list (ses s))))]), s)"

definition rest_add_destination :: "rns_env \<Rightarrow> request \<Rightarrow> sys \<Rightarrow> rest_answer" where
  "rest_add_destination E rq s =
     (if active_identity_hash (ses s) = None then (Inr (rest_error 409 ''no_active_identity''), s)
      else with_body rq (\<lambda>body s.
        case str_list (field_default ''aspects'' (JList []) body) of
          None \<Rightarrow> (Inr (rest_error 400 ''aspects must be a list of strings''), s)
        | Some aspects \<Rightarrow>
           (case as_str (field ''app_name'' body) of
              None \<Rightarrow> (Inr (rest_error 400 ''app_name is required''), s)
            | Some app_name \<Rightarrow>
               if app_name = [] then (Inr (rest_error 400 ''app_name is required''), s)
               else (case active_identity_hash (ses s) of
                 None \<Rightarrow> (Inl (PyExn ''AttributeError'' ''object has no attribute hex''), s)
               | Some ah \<Rightarrow>
                  (case identity_load E s (bytes_hex ah) of
                     Inl e \<Rightarrow> (if is_identity_error e then (Inr (rest_error 500 (exn_str e)), s) else (Inl e, s))
                   | Inr i \<Rightarrow>
                      (case destination_create E i (field_default ''direction'' (JStr ''in'') body)
                              (field_default ''type'' (JStr ''single'') body) app_name aspects s of
                         (Inl e, s1) \<Rightarrow>
                           (if is_destination_error e then (Inr (rest_error 400 (exn_str e)), s1) else (Inl e, s1))
                       | (Inr info, s1) \<Rightarrow>
                           (Inr (respond 201 (destination_info_to_dict info)),
                            emit_session (about_session ''destination.added'' s1 @
                              [(''destination'', JObj (destination_info_to_dict info))]) s1)))))) s)"

definition rest_remove_destination :: "request \<Rightarrow> sys \<Rightarrow> rest_answer" where
  "rest_remove_destination rq s =
     (case destination_remove (rq_match rq) s of
        (Inl e, s1) \<Rightarrow> (if is_destination_error e then (Inr (rest_error 404 (exn_str e)), s1) else (Inl e, s1))
      | (Inr info, s1) \<Rightarrow>
          (Inr (respond 200 (destination_info_to_dict info)),
           emit_session (about_session ''destination.removed'' s1 @
             [(''destination'', JObj (destination_info_to_dict info))]) s1))"

section \<open>WebSocket\<close>

definition ws_create_identity :: "rns_env \<Rightarrow> rns_identity \<Rightarrow> ws_handler" where
  "ws_create_identity E fresh c msg s =
     (let ((_, info), s1) = identity_create E fresh s
      in (None, emit_session (merge [(''type'', JStr ''identity.created''), (''id'', field ''id'' msg),
                   (''session_id'', JStr (s_id (ses s1)))] (identity_info_to_dict info)) s1))"

text \<open>This handler does not look at the session.\<close>

definition ws_list_identities :: "rns_env \<Rightarrow> world_handler" where
  "ws_list_identities E c msg w =
     (None, conn_send (JObj [(''type'', JStr ''identity.list.result''), (''id'', field ''id'' msg),
        (''identities'', JList (map (\<lambda>i. JObj (identity_info_to_dict i)) (identity_list E w)))]) c w)"

definition ws_get_active_identity :: "rns_env \<Rightarrow> ws_handler" where
  "ws_get_active_identity E c msg s =
     ws_result (\<lambda>_. False) c msg ''session.active_identity.info'' (active_identity_body E s, s)"

definition ws_dirty :: "string \<Rightarrow> fields \<Rightarrow> sys \<Rightarrow> ws_answer" where
  "ws_dirty c msg s = (None, reply c (merge (ws_error msg ''session_dirty'') (dirty_counts (ses s))) s)"

definition ws_set_active_identity :: "rns_env \<Rightarrow> ws_handler" where
  "ws_set_active_identity E c msg s =
     (if session_is_dirty (ses s) then ws_dirty c msg s
      else (case as_str (py_or (field ''hash'' msg) (field ''identity_hash'' msg)) of
        None \<Rightarrow> ws_fail c msg ''missing_hash'' s
      | Some h \<Rightarrow>
         (case identity_load E s h of
            Inl e \<Rightarrow> (if is_identity_error e then ws_fail c msg (exn_str e) s else (Some e, s))
          | Inr i \<Rightarrow>
             (let s1 = set_active i s
              in (None, emit_session (active_changed_event (identity_info_to_dict (identity_info_for s1 i)) s1) s1)))))"

definition ws_clear_active_identity :: ws_handler where
  "ws_clear_active_identity c msg s =
     (if session_is_dirty (ses s) then ws_dirty c msg s
      else (let s1 = clear_active s in (None, emit_session (active_cleared_event s1) s1)))"

definition ws_list_destinations :: ws_handler where
  "ws_list_destinations c msg s =
     (None, reply c [(''type'', JStr ''destination.list.result''), (''id'', field ''id'' msg),
        (''destinations'', JList (map (\<lambda>d. JObj (destination_info_to_dict d)) (destination_list (ses s))))] s)"

text \<open>The message's own \<open>type\<close> is taken, so the destination's type is \<open>type_\<close> or \<open>dtype\<close>.\<close>

definition ws_add_destination :: "rns_env \<Rightarrow> ws_handler" where
  "ws_add_destination E c msg s =
     (case active_identity_hash (ses s) of
        None \<Rightarrow> ws_fail c msg ''no_active_identity'' s
      | Some ah \<Rightarrow>
         (case str_list (field_default ''aspects'' (JList []) msg) of
            None \<Rightarrow> ws_fail c msg ''invalid_aspects'' s
          | Some aspects \<Rightarrow>
             (case as_str (field ''app_name'' msg) of
                None \<Rightarrow> ws_fail c msg ''invalid_app_name'' s
              | Some app_name \<Rightarrow>
                 if app_name = [] then ws_fail c msg ''invalid_app_name'' s
                 else (case identity_load E s (bytes_hex ah) of
                   Inl e \<Rightarrow> (if is_identity_error e then ws_fail c msg (exn_str e) s else (Some e, s))
                 | Inr i \<Rightarrow>
                    (case destination_create E i (field_default ''direction'' (JStr ''in'') msg)
                            (field_default ''type_'' (field_default ''dtype'' (JStr ''single'') msg) msg)
                            app_name aspects s of
                       (Inl e, s1) \<Rightarrow> (if is_destination_error e then ws_fail c msg (exn_str e) s1 else (Some e, s1))
                     | (Inr info, s1) \<Rightarrow>
                         (None, emit_session (about_session ''destination.added'' s1 @
                            [(''id'', field ''id'' msg), (''destination'', JObj (destination_info_to_dict info))]) s1))))))"

definition ws_remove_destination :: ws_handler where
  "ws_remove_destination c msg s =
     (case as_str (field ''hash'' msg) of
        None \<Rightarrow> ws_fail c msg ''missing_hash'' s
      | Some h \<Rightarrow>
         (case destination_remove h s of
            (Inl e, s1) \<Rightarrow> (if is_destination_error e then ws_fail c msg (exn_str e) s1 else (Some e, s1))
          | (Inr info, s1) \<Rightarrow>
              (None, emit_session (about_session ''destination.removed'' s1 @
                 [(''id'', field ''id'' msg), (''destination'', JObj (destination_info_to_dict info))]) s1)))"

section \<open>The handlers answer\<close>

lemma identity_create_polite [polite_intros]: "polite s (snd (identity_create E fresh s))"
  by (simp add: identity_create_def Let_def polite_def trace_ext_def)

lemma destination_create_polite [polite_intros]: "polite s (snd (destination_create E i dir ty app asp s))"
  by (auto simp: destination_create_def polite_def same_person_def trace_ext_def Let_def split: sum.split exn.split)

lemma destination_remove_polite [polite_intros]: "polite s (snd (destination_remove h s))"
  by (auto simp: destination_remove_def polite_def same_person_def trace_ext_def Let_def split: option.split)

lemma set_active_polite [polite_intros]: "polite s (set_active i s)" "polite s (clear_active s)"
  by (simp_all add: set_active_def clear_active_def polite_def same_person_def trace_ext_def)

lemma emit_session_answered: "polite s s' \<Longrightarrow> answered c s (None, emit_session d s')"
  by (simp add: emit_session_def answered_event)

lemma ws_create_identity_answered: "answered c s (ws_create_identity E fresh c msg s)"
  using emit_session_answered [OF identity_create_polite [of s E fresh]]
  by (simp add: ws_create_identity_def split_beta Let_def)

lemma ws_get_active_identity_answered: "answered c s (ws_get_active_identity E c msg s)"
  by (simp add: ws_get_active_identity_def answered_result)

lemma ws_dirty_answered: "answered c s (ws_dirty c msg s)"
  by (simp add: ws_dirty_def answered_reply)

lemma ws_set_active_identity_answered: "answered c s (ws_set_active_identity E c msg s)"
  by (auto simp: ws_set_active_identity_def Let_def ws_dirty_answered
      intro!: answered_intros emit_session_answered set_active_polite split: option.split sum.split)

lemma ws_clear_active_identity_answered: "answered c s (ws_clear_active_identity c msg s)"
  by (auto simp: ws_clear_active_identity_def Let_def ws_dirty_answered
      intro!: emit_session_answered set_active_polite)

lemma ws_list_destinations_answered: "answered c s (ws_list_destinations c msg s)"
  by (simp add: ws_list_destinations_def answered_reply)

lemma destination_create_politeD: "destination_create E i dir ty app asp s = (r, s') \<Longrightarrow> polite s s'"
  using destination_create_polite [of s E i dir ty app asp] by simp

lemma destination_remove_politeD: "destination_remove h s = (r, s') \<Longrightarrow> polite s s'"
  using destination_remove_polite [of s h] by simp

lemma ws_add_destination_answered: "answered c s (ws_add_destination E c msg s)"
  by (auto simp: ws_add_destination_def dest: destination_create_politeD
      intro!: answered_intros emit_session_answered split: option.split sum.split prod.split)

lemma ws_remove_destination_answered: "answered c s (ws_remove_destination c msg s)"
  by (auto simp: ws_remove_destination_def dest: destination_remove_politeD
      intro!: answered_intros emit_session_answered split: option.split sum.split prod.split)

section \<open>REST and WebSocket agree\<close>

text \<open>The state without the frames and events sent to clients, and whether the client is told of success.\<close>

definition quiet :: "sys \<Rightarrow> sys" where
  "quiet s =
     s\<lparr>trace := filter (\<lambda>e. case e of ConnSend _ _ \<Rightarrow> False | HubSession _ _ \<Rightarrow> False | _ \<Rightarrow> True) (trace s)\<rparr>"

definition rest_ok :: "rest_answer \<Rightarrow> bool" where
  "rest_ok ra = (case fst ra of Inl _ \<Rightarrow> False | Inr r \<Rightarrow> rs_status r < 400)"

definition ws_ok :: "ws_answer \<Rightarrow> bool" where
  "ws_ok wa =
     (fst wa = None \<and>
      (trace (snd wa) = [] \<or>
       (case last (trace (snd wa)) of
          ConnSend _ j \<Rightarrow> (case as_obj j of Some d \<Rightarrow> field ''type'' d \<noteq> JStr ''error'' | None \<Rightarrow> True)
        | _ \<Rightarrow> True)))"

definition agree :: "rest_answer \<Rightarrow> ws_answer \<Rightarrow> bool" where
  "agree ra wa \<longleftrightarrow> quiet (snd ra) = quiet (snd wa) \<and> rest_ok ra = ws_ok wa"

lemma quiet_frames [simp]: "quiet (reply c d s) = quiet s" "quiet (emit_session d s) = quiet s"
  by (simp_all add: quiet_def reply_def emit_session_def)

lemma rest_ok_simps [simp]:
  "rest_ok (Inl e, s) = False" "rest_ok (Inr (respond st d), s) = (st < 400)" "rest_ok (Inr (rest_error st m), s) = (st < 400)"
  by (simp_all add: rest_ok_def rest_error_def respond_def)

lemma ws_ok_simps [simp]:
  "ws_ok (Some e, s) = False" "ws_ok (None, emit_session d s)"
  "ws_ok (None, reply c d s) = (field ''type'' d \<noteq> JStr ''error'')"
  "ws_ok (ws_fail c msg m s) = False" "ws_ok (ws_dirty c msg s) = False"
  by (simp_all add: ws_ok_def reply_def emit_session_def ws_fail_def ws_dirty_def ws_error_def dirty_counts_def
      field_def dict_get_def dict_set_def merge_def)

lemma quiet_failures [simp]: "quiet (snd (ws_fail c msg m s)) = quiet s" "quiet (snd (ws_dirty c msg s)) = quiet s"
  by (simp_all add: ws_fail_def ws_dirty_def)

lemma clear_agrees: "agree (rest_clear_active_identity rq s) (ws_clear_active_identity c msg s)"
  by (simp add: agree_def rest_clear_active_identity_def ws_clear_active_identity_def Let_def)

lemma set_agrees:
  assumes "rq_body rq = Some (JObj d)" and "rq_meanwhile rq s = s"
    and "field ''hash'' msg = field ''hash'' d" and "field ''identity_hash'' msg = field ''identity_hash'' d"
  shows "agree (rest_set_active_identity E rq s) (ws_set_active_identity E c msg s)"
proof (cases "session_is_dirty (ses s)")
  case False
  show ?thesis
  proof (cases "as_str (py_or (field ''hash'' d) (field ''identity_hash'' d))")
    case (Some h)
    show ?thesis
      by (cases "identity_load E s h")
        (simp_all add: agree_def rest_set_active_identity_def ws_set_active_identity_def with_body_def with_json_def
          Let_def assms False Some)
  qed (simp add: agree_def rest_set_active_identity_def ws_set_active_identity_def with_body_def with_json_def
      Let_def assms False)
qed (simp add: agree_def rest_set_active_identity_def ws_set_active_identity_def)

lemma add_agrees:
  assumes "rq_body rq = Some (JObj d)" and "rq_meanwhile rq s = s"
    and "list_all (\<lambda>k. dict_get msg k = dict_get d k) [''app_name'', ''aspects'', ''direction'']"
    and "dict_get msg ''type_'' = dict_get d ''type''" and "dict_get msg ''dtype'' = None"
  shows "agree (rest_add_destination E rq s) (ws_add_destination E c msg s)"
proof -
  have same: "field ''app_name'' msg = field ''app_name'' d" "field_default ''aspects'' x msg = field_default ''aspects'' x d"
    "field_default ''direction'' x msg = field_default ''direction'' x d"
    "field_default ''type_'' (field_default ''dtype'' x msg) msg = field_default ''type'' x d" for x
    using assms(3-5) by (simp_all add: field_def field_default_def)
  note defs = agree_def rest_add_destination_def ws_add_destination_def with_body_def with_json_def Let_def assms(1,2) same
  show ?thesis
  proof (cases "active_identity_hash (ses s)")
    case (Some ah)
    note ah = this
    show ?thesis
    proof (cases "str_list (field_default ''aspects'' (JList []) d)")
      case (Some aspects)
      note aspects = this
      show ?thesis
      proof (cases "as_str (field ''app_name'' d)")
        case (Some app)
        note app = this
        show ?thesis
        proof (cases "app = []")
          case False
          show ?thesis
          proof (cases "identity_load E s (bytes_hex ah)")
            case (Inr i)
            obtain x s1 where "destination_create E i (field_default ''direction'' (JStr ''in'') d)
                (field_default ''type'' (JStr ''single'') d) app aspects s = (x, s1)" by fastforce
            then show ?thesis by (cases x) (simp_all add: defs ah aspects app False Inr)
          qed (simp add: defs ah aspects app False)
        qed (simp add: defs ah aspects app)
      qed (simp add: defs ah aspects)
    qed (simp add: defs ah)
  qed (simp add: defs)
qed

lemma remove_agrees:
  assumes "field ''hash'' msg = JStr (rq_match rq)"
  shows "agree (rest_remove_destination rq s) (ws_remove_destination c msg s)"
proof -
  obtain x s1 where "destination_remove (rq_match rq) s = (x, s1)" by fastforce
  then show ?thesis
    by (cases x) (simp_all add: agree_def rest_remove_destination_def ws_remove_destination_def assms)
qed

text \<open>C25. The two front ends do the same: a REST request and a WebSocket message with the same parameters
  leave the session, the stores and RNS in the same state, on every path, and one reports success exactly when
  the other does: for setting and clearing the active identity and for adding and removing a destination.\<close>

theorem rest_ws_agree:
  assumes "rq_body rq = Some (JObj d)" and "rq_meanwhile rq s = s"
    and "list_all (\<lambda>k. dict_get msg k = dict_get d k) [''hash'', ''identity_hash'', ''app_name'', ''aspects'', ''direction'']"
    and "dict_get msg ''type_'' = dict_get d ''type''" and "dict_get msg ''dtype'' = None"
    and "field ''hash'' rmsg = JStr (rq_match rq)"
  shows "agree (rest_set_active_identity E rq s) (ws_set_active_identity E c msg s) \<and>
    agree (rest_clear_active_identity rq s) (ws_clear_active_identity c msg s) \<and>
    agree (rest_add_destination E rq s) (ws_add_destination E c msg s) \<and>
    agree (rest_remove_destination rq s) (ws_remove_destination c rmsg s)"
  using assms by (simp add: clear_agrees set_agrees add_agrees remove_agrees field_def)

text \<open>C35. A session that owns a destination or a link keeps its identity: both front ends refuse to set or
  clear it. The REST handler looks before it awaits the request's body: a session to which another task gives
  a destination in that window has its identity switched nevertheless.\<close>

theorem identity_switch_guard:
  assumes "session_is_dirty (ses v)" and "rq_body rq = Some (JObj d)"
    and "as_str (py_or (field ''hash'' d) (field ''identity_hash'' d)) = Some h" and "identity_load E v h = Inr i"
  shows "ses (snd (ws_set_active_identity E c msg v)) = ses v \<and> ses (snd (ws_clear_active_identity c msg v)) = ses v \<and>
    ses (snd (rest_set_active_identity E rq v)) = ses v \<and> ses (snd (rest_clear_active_identity rq v)) = ses v \<and>
    (rq_meanwhile rq s = v \<longrightarrow> \<not> session_is_dirty (ses s) \<longrightarrow>
      ses (snd (rest_set_active_identity E rq s)) = (ses v)\<lparr>active_identity_hash := Some (id_hash i)\<rparr>)"
  using assms
  by (simp add: ws_set_active_identity_def ws_clear_active_identity_def rest_set_active_identity_def
      rest_clear_active_identity_def ws_dirty_def with_body_def with_json_def Let_def set_active_def emit_session_def)

section \<open>Witnesses\<close>

definition sample_request :: request where
  "sample_request =
     \<lparr>rq_body = Some (JObj [(''hash'', JStr (bytes_hex (replicate 16 7)))]), rq_match = ''aa'', rq_query = [],
      rq_content = Inr [], rq_meanwhile = upd_ses (\<lambda>x. x\<lparr>open_links := [([1], 0)]\<rparr>)\<rparr>"

text \<open>The stored identity of \<open>Identities\<close>.\<close>

definition identity_sys :: sys where
  "identity_sys = snd (identity_create sample_env sample_identity sample_sys)"

lemma identity_sys_load: "identity_load sample_env identity_sys (bytes_hex (replicate 16 7)) = Inr sample_identity"
  by (simp add: identity_sys_def identity_create_def identity_load_def Let_def sample_env_def sample_identity_def)

theorem rest_ws_agree_witness:
  "agree (rest_remove_destination (sample_request\<lparr>rq_meanwhile := id\<rparr>) identity_sys)
     (ws_remove_destination ''c1'' [(''hash'', JStr ''aa'')] identity_sys) \<and>
   agree (rest_set_active_identity sample_env (sample_request\<lparr>rq_meanwhile := id\<rparr>) identity_sys)
     (ws_set_active_identity sample_env ''c1'' [(''type'', JStr ''t''), (''hash'', JStr (bytes_hex (replicate 16 7)))] identity_sys)"
  using rest_ws_agree [of "sample_request\<lparr>rq_meanwhile := id\<rparr>" "[(''hash'', JStr (bytes_hex (replicate 16 7)))]" identity_sys
      "[(''type'', JStr ''t''), (''hash'', JStr (bytes_hex (replicate 16 7)))]" "[(''hash'', JStr ''aa'')]" sample_env "''c1''"]
  by (simp add: sample_request_def dict_get_def field_def)

theorem identity_switch_guard_witness:
  "ses (snd (rest_set_active_identity sample_env sample_request identity_sys)) =
     (ses identity_sys)\<lparr>open_links := [([1], 0)], active_identity_hash := Some (replicate 16 7)\<rparr>"
proof -
  let ?v = "rq_meanwhile sample_request identity_sys"
  have load: "identity_load sample_env ?v (bytes_hex (replicate 16 7)) = Inr sample_identity"
    using identity_sys_load by (simp add: sample_request_def identity_load_def Let_def split: option.splits sum.splits)
  have dirty: "session_is_dirty (ses ?v)" by (simp add: sample_request_def session_is_dirty_def)
  have body: "rq_body sample_request = Some (JObj [(''hash'', JStr (bytes_hex (replicate 16 7)))])"
    by (simp add: sample_request_def)
  have hash: "as_str (py_or (field ''hash'' [(''hash'', JStr (bytes_hex (replicate 16 7)))])
      (field ''identity_hash'' [(''hash'', JStr (bytes_hex (replicate 16 7)))])) = Some (bytes_hex (replicate 16 7))"
  proof -
    have "bytes_hex (replicate 16 7) \<noteq> []" by (simp add: bytes_hex_Cons numeral_eq_Suc) (simp add: byte_hex_def)
    then show ?thesis by (simp add: field_def dict_get_def py_or_def)
  qed
  have "\<not> session_is_dirty (ses identity_sys)"
    by (simp add: identity_sys_def identity_create_def Let_def sample_sys_simps new_session_def session_is_dirty_def)
  with identity_switch_guard [OF dirty body hash load, of "''c1''" "[]" identity_sys] show ?thesis
    by (simp add: sample_request_def sample_identity_def)
qed

end
