(* ===== verification/Announces.thy ===== *)
theory Announces
  imports Service_Common
begin

text \<open>
  \<open>rns/announces.py\<close>: the global listener that broadcasts every announce the node hears, and
  the announce of a destination the session owns.
\<close>

definition announce_received_event ::
  "bytes option \<Rightarrow> rns_identity option \<Rightarrow> bytes option \<Rightarrow> bytes option \<Rightarrow> bool \<Rightarrow> json" where
  "announce_received_event dest ident app_data packet_hash is_path_response =
     JObj [(''type'', JStr ''announce.received''),
           (''destination_hash'', case dest of None \<Rightarrow> JNull | Some b \<Rightarrow> if b = [] then JNull else jhex b),
           (''identity_hash'', jopt (map_option id_hexhash ident)),
           (''app_data_b64'', jopt (b64_or_none app_data)),
           (''packet_hash'', case packet_hash of None \<Rightarrow> JNull | Some b \<Rightarrow> if b = [] then JNull else jhex b),
           (''is_path_response'', JBool is_path_response)]"

definition received_announce ::
  "bytes option \<Rightarrow> rns_identity option \<Rightarrow> bytes option \<Rightarrow> bytes option \<Rightarrow> bool \<Rightarrow> sys \<Rightarrow> sys" where
  "received_announce dest ident app_data packet_hash is_path_response s =
     emit (BridgeBroadcast (announce_received_event dest ident app_data packet_hash is_path_response)) s"

text \<open>The service holds at most one registered handler; a failing deregistration is logged.\<close>

definition announce_start :: "bool \<Rightarrow> 'a shared_scheme \<Rightarrow> bool \<times> 'a shared_scheme" where
  "announce_start handler s = (if handler then (True, s) else (True, emit (Rns RegisterAnnounceHandler) s))"

definition announce_stop :: "bool \<Rightarrow> 'a shared_scheme \<Rightarrow> bool \<times> 'a shared_scheme" where
  "announce_stop handler s = (if \<not> handler then (False, s) else (False, emit (Rns DeregisterAnnounceHandler) s))"

definition announce_decode :: "string option \<Rightarrow> exn + bytes option" where
  "announce_decode app_data_b64 =
     (case app_data_b64 of
        None \<Rightarrow> Inr None
      | Some b64 \<Rightarrow>
          (case b64decode b64 of
             Inl m \<Rightarrow> Inl (AnnounceError (''app_data_b64 is not valid base64: '' @ m))
           | Inr b \<Rightarrow> Inr (Some b)))"

text \<open>\<open>send\<close>; \<open>refused\<close> is the message of the exception RNS raises when it refuses.\<close>

definition announce_send ::
  "string option \<Rightarrow> string \<Rightarrow> string option \<Rightarrow> sys \<Rightarrow> (exn + fields) \<times> sys" where
  "announce_send refused dest_hex app_data_b64 s =
     (let h = lower dest_hex in
      if \<not> hex_hash_match h then (Inl (AnnounceError (''invalid destination hash: '' @ py_repr dest_hex)), s)
      else (case fromhex h of
        None \<Rightarrow> (Inl (PyExn ''ValueError'' ''non-hexadecimal number found in fromhex() arg''), s)
      | Some hb \<Rightarrow>
          (case dict_get (owned_destinations (ses s)) hb of
             None \<Rightarrow> (Inl (AnnounceError (''destination not owned by this session: '' @ dest_hex)), s)
           | Some dest \<Rightarrow>
               (case announce_decode app_data_b64 of
                  Inl e \<Rightarrow> (Inl e, s)
                | Inr app_data \<Rightarrow>
                    (let s1 = emit (Rns (Announce (d_hash dest) app_data)) s in
                     case refused of
                       Some m \<Rightarrow> (Inl (AnnounceError (''RNS refused to announce: '' @ m)), s1)
                     | None \<Rightarrow>
                         (Inr [(''ok'', JBool True), (''destination_hash'', jhex (d_hash dest)),
                               (''app_data_bytes'', jnat (case app_data of None \<Rightarrow> 0 | Some b \<Rightarrow> length b))],
                          emit (HubBroadcast (JObj
                              [(''type'', JStr ''announce.sent''), (''destination_hash'', jhex (d_hash dest)),
                               (''identity_hash'', jopt (map_option id_hexhash (d_identity dest))),
                               (''session_id'', JStr (s_id (ses s1))),
                               (''app_data_b64'', jopt app_data_b64)])) s1))))))"

section \<open>Lemmas\<close>

lemma announce_stop_start: "announce_stop (fst (announce_start False s)) t = (False, emit (Rns DeregisterAnnounceHandler) t)"
  by (simp add: announce_start_def announce_stop_def)

text \<open>An announce goes out only for a destination the session owns, with exactly the
  decoded application data, and it changes nothing of the session; when it is rejected before
  RNS is asked, nothing happens at all.\<close>

theorem announce_send_owned_only:
  assumes "destinations_ok (ses s)" and "announce_send refused dest_hex b64 s = (r, s')"
  shows "ses s' = ses s \<and>
    (case r of
       Inr _ \<Rightarrow> (\<exists>hb dest data. fromhex (lower dest_hex) = Some hb \<and>
                  dict_get (owned_destinations (ses s)) hb = Some dest \<and> d_hash dest = hb \<and>
                  announce_decode b64 = Inr data \<and> refused = None \<and>
                  (\<exists>ev. trace s' = trace s @ [Rns (Announce hb data), HubBroadcast ev] \<and>
                        ev_type ev = Some ''announce.sent''))
     | Inl e \<Rightarrow> trace s' = trace s \<or>
                (\<exists>m hb data. refused = Some m \<and> e = AnnounceError (''RNS refused to announce: '' @ m) \<and>
                   trace s' = trace s @ [Rns (Announce hb data)]))"
  using assms(2) destinations_okD [OF assms(1)]
  by (fastforce simp: announce_send_def Let_def split: if_splits option.splits sum.splits)

theorem announce_send_owned_only_witness:
  "\<exists>s'. announce_send None (bytes_hex (replicate 16 9)) (Some ''QUI='') owning_sys =
     (Inr [(''ok'', JBool True), (''destination_hash'', jhex (replicate 16 9)), (''app_data_bytes'', jnat 2)], s') \<and>
     ses s' = ses owning_sys"
proof -
  have d: "b64decode ''QUI='' = Inr [65, 66]" by code_simp
  have "fst (announce_send None (bytes_hex (replicate 16 9)) (Some ''QUI='') owning_sys) =
      Inr [(''ok'', JBool True), (''destination_hash'', jhex (replicate 16 9)), (''app_data_bytes'', jnat 2)]"
    by (simp add: announce_send_def Let_def owning_sys_def dict_get_def announce_decode_def d sample_dest_def eval_nat_numeral)
  then obtain s' where *: "announce_send None (bytes_hex (replicate 16 9)) (Some ''QUI='') owning_sys =
      (Inr [(''ok'', JBool True), (''destination_hash'', jhex (replicate 16 9)), (''app_data_bytes'', jnat 2)], s')"
    by (metis prod.collapse)
  from announce_send_owned_only [OF owning_sys_ok this] this show ?thesis by blast
qed

end
