(* ===== verification/Path_Table.thy ===== *)
theory Path_Table
  imports Service_Common
begin

text \<open>
  \<open>rns/paths.py\<close>: queries of the path table and the awaited path request. The table is what
  \<open>Reticulum.get_path_table\<close> returns (\<open>None\<close>: it raised, which the code turns into an empty
  table); its entries have the RNS field types.
\<close>

record path_entry =
  pe_hash :: "bytes option"
  pe_via :: "bytes option"
  pe_hops :: json
  pe_interface :: json
  pe_timestamp :: json
  pe_expires :: json

definition jhex_or_none :: "bytes option \<Rightarrow> json" where
  "jhex_or_none b = (case b of None \<Rightarrow> JNull | Some b \<Rightarrow> jhex b)"

definition serialise_entry :: "path_entry \<Rightarrow> json" where
  "serialise_entry e =
     JObj [(''hash'', jhex_or_none (pe_hash e)), (''via'', jhex_or_none (pe_via e)),
           (''hops'', pe_hops e), (''interface'', pe_interface e),
           (''timestamp'', pe_timestamp e), (''expires'', pe_expires e)]"

text \<open>\<open>_table\<close>: \<open>attached\<close> is whether \<open>attach\<close> was given a Reticulum instance.\<close>

definition path_table ::
  "bool \<Rightarrow> (json \<Rightarrow> path_entry list option) \<Rightarrow> json \<Rightarrow> path_entry list" where
  "path_table attached get_table max_hops =
     (if \<not> attached then []
      else (case get_table max_hops of None \<Rightarrow> [] | Some es \<Rightarrow> es))"

definition list_paths ::
  "bool \<Rightarrow> (json \<Rightarrow> path_entry list option) \<Rightarrow> json \<Rightarrow> json \<Rightarrow> json \<Rightarrow> exn + json list" where
  "list_paths attached get_table destination interface max_hops =
     (let entries0 = path_table attached get_table max_hops;
          by_dest =
            (if destination = JNull then Inr entries0
             else (case as_str destination of
               None \<Rightarrow> Inl (PyExn ''AttributeError'' ''object has no attribute lower'')
             | Some d \<Rightarrow>
                 (let h = lower d in
                  if \<not> hex_hash_match h then Inl (PathsError (''invalid destination hash: '' @ py_repr d))
                  else (case fromhex h of
                    None \<Rightarrow> Inl (PyExn ''ValueError'' ''non-hexadecimal number found in fromhex() arg'')
                  | Some hb \<Rightarrow> Inr (filter (\<lambda>e. pe_hash e = Some hb) entries0)))))
      in case by_dest of
           Inl e \<Rightarrow> Inl e
         | Inr es \<Rightarrow>
             Inr (map serialise_entry
               (if interface = JNull then es else filter (\<lambda>e. pe_interface e = interface) es)))"

text \<open>
  The answers behind \<open>_path_snapshot\<close>; \<open>None\<close> stands for an exception, which the code logs, or
  for Python's \<open>None\<close>.
\<close>

record path_answers =
  pa_hops_to :: "int option"
  pa_next_hop :: "bytes option"
  pa_interface :: "string option"
  pa_pathfinder_m :: int

definition path_snapshot :: "path_answers \<Rightarrow> bytes \<Rightarrow> fields" where
  "path_snapshot A dest =
     [(''destination_hash'', jhex dest),
      (''hops'', case pa_hops_to A of None \<Rightarrow> JNull
                 | Some h \<Rightarrow> if h \<noteq> pa_pathfinder_m A then JInt h else JNull),
      (''next_hop'', jhex_or_none (pa_next_hop A)),
      (''interface'', jopt (pa_interface A))]"

text \<open>
  \<open>request_path\<close>: the event first, then the request (\<open>refused\<close>: RNS raised), then the loop that
  probes, checks the deadline and sleeps. A probe that raises counts as \<open>False\<close>.
\<close>

definition request_path ::
  "config \<Rightarrow> rns_env \<Rightarrow> path_answers \<Rightarrow> string option \<Rightarrow> string \<Rightarrow> rat option \<Rightarrow> sys \<Rightarrow> (exn + fields) \<times> sys" where
  "request_path cfg E A refused dest_hex timeout s =
     (let h = lower dest_hex in
      if \<not> hex_hash_match h then (Inl (PathsError (''invalid destination hash: '' @ py_repr dest_hex)), s)
      else (case fromhex h of
        None \<Rightarrow> (Inl (PyExn ''ValueError'' ''non-hexadecimal number found in fromhex() arg''), s)
      | Some hb \<Rightarrow>
          (let s1 = emit (HubSession (s_id (ses s))
                 (JObj [(''type'', JStr ''path.request.sent''), (''session_id'', JStr (s_id (ses s))),
                        (''destination_hash'', JStr h)])) s;
               effective = (case timeout of Some t \<Rightarrow> t | None \<Rightarrow> of_int (path_request_timeout (limits cfg)));
               s2 = emit (Rns (RequestPath hb)) s1
           in case refused of
                Some m \<Rightarrow> (Inl (PathsError (''RNS refused path request: '' @ m)), s2)
              | None \<Rightarrow>
                  (case poll_until (poll_fuel effective) (\<lambda>i. has_path_at E i hb)
                          (\<lambda>i. clock_at E (Suc i)) (clock_at E 0 + effective) 0 of
                     None \<Rightarrow> (Inl Diverges, s2)
                   | Some i \<Rightarrow>
                       if has_path_at E i hb
                       then (Inr (merge [(''found'', JBool True)] (path_snapshot A hb)), s2)
                       else (Inr [(''found'', JBool False), (''destination_hash'', JStr h)], s2)))))"

section \<open>Lemmas\<close>

lemma list_paths_dest:
  assumes "list_paths attached get_table (JStr d) JNull mh = Inr es"
  obtains hb where "fromhex (lower d) = Some hb"
    "es = map serialise_entry (filter (\<lambda>e. pe_hash e = Some hb) (path_table attached get_table mh))"
  using assms by (auto simp: list_paths_def Let_def split: if_splits option.splits)

text \<open>C34. The path request always answers: with a clock that advances by the sleep it never
  runs past its deadline, reports \<open>found\<close> exactly when a probe before the deadline (or the one
  at it) saw the path, and has then sent one event and one request, in this order.\<close>

theorem request_path_answers:
  assumes "env_clock_ok E" and "hex_hash_match (lower dest_hex)" and "refused = None"
  shows "\<exists>s' hb i ev. fromhex (lower dest_hex) = Some hb \<and>
    request_path cfg E A refused dest_hex (Some t) s =
      (Inr (if has_path_at E i hb then (''found'', JBool True) # path_snapshot A hb
            else [(''found'', JBool False), (''destination_hash'', JStr (lower dest_hex))]), s') \<and>
    trace s' = trace s @ [HubSession (s_id (ses s)) ev, Rns (RequestPath hb)] \<and>
    ev_type ev = Some ''path.request.sent'' \<and>
    (\<forall>j < i. \<not> has_path_at E j hb \<and> clock_at E (Suc j) < clock_at E 0 + t) \<and>
    (has_path_at E i hb \<or> clock_at E 0 + t \<le> clock_at E (Suc i))"
proof -
  obtain hb where hb: "fromhex (lower dest_hex) = Some hb"
    using hex_hash_fromhex [OF assms(2)] by blast
  obtain i where i: "poll_until (poll_fuel t) (\<lambda>i. has_path_at E i hb) (\<lambda>i. clock_at E (Suc i))
      (clock_at E 0 + t) 0 = Some i"
    using poll_until_returns [of "\<lambda>i. clock_at E (Suc i)" "clock_at E 0" t] assms(1)
    by (auto simp: env_clock_ok_def)
  have m: "merge [(''found'', JBool True)] (path_snapshot A hb) = (''found'', JBool True) # path_snapshot A hb"
    by (subst merge_disjoint) (auto simp: path_snapshot_def)
  define ev where "ev = JObj [(''type'', JStr ''path.request.sent''),
      (''session_id'', JStr (s_id (ses s))), (''destination_hash'', JStr (lower dest_hex))]"
  define s' where "s' = emit (Rns (RequestPath hb)) (emit (HubSession (s_id (ses s)) ev) s)"
  have "request_path cfg E A refused dest_hex (Some t) s =
      (Inr (if has_path_at E i hb then (''found'', JBool True) # path_snapshot A hb
            else [(''found'', JBool False), (''destination_hash'', JStr (lower dest_hex))]), s')"
    using assms(2,3) by (simp add: request_path_def Let_def hb i m s'_def ev_def)
  moreover have "trace s' = trace s @ [HubSession (s_id (ses s)) ev, Rns (RequestPath hb)]"
    "ev_type ev = Some ''path.request.sent''"
    by (simp_all add: s'_def ev_def)
  ultimately show ?thesis
    using hb poll_until_SomeD(2,3) [OF i] by (metis zero_le)
qed

definition sample_answers :: path_answers where
  "sample_answers = \<lparr>pa_hops_to = Some 2, pa_next_hop = None, pa_interface = None, pa_pathfinder_m = 128\<rparr>"

theorem request_path_answers_witness:
  "\<exists>s' r. request_path config_default sample_env sample_answers None (bytes_hex (replicate 16 9)) (Some 15) sample_sys =
      (Inr r, s')"
proof -
  have "hex_hash_match (lower (bytes_hex (replicate 16 9)))" by simp
  from request_path_answers [OF sample_env_clock this refl, of config_default sample_answers 15 sample_sys]
  show ?thesis by blast
qed

end
