(* ===== verification/Api_Messaging.thy ===== *)
theory Api_Messaging
  imports Api Announces Path_Table Packets
begin

text \<open>
  \<open>handlers/announce.py\<close>, \<open>handlers/paths.py\<close> and \<open>handlers/packets.py\<close>. \<open>refused\<close> is the
  message of the exception RNS raises in the call, if it does.
\<close>

section \<open>Announces\<close>

text \<open>The 404 is decided by the text of the message, which quotes the client's hash.\<close>

definition announce_status :: "exn \<Rightarrow> int option" where
  "announce_status e =
     (if \<not> is_announce_error e then None else if contains ''not owned'' (exn_str e) then Some 404 else Some 400)"

text \<open>\<open>None\<close> or a string; anything else is the error.\<close>

definition opt_str :: "json \<Rightarrow> string option option" where
  "opt_str j = (if j = JNull then Some None else map_option Some (as_str j))"

definition rest_announce :: "string option \<Rightarrow> request \<Rightarrow> sys \<Rightarrow> rest_answer" where
  "rest_announce refused rq =
     with_body rq (\<lambda>body s.
       case as_str (field ''destination_hash'' body) of
         None \<Rightarrow> (Inr (rest_error 400 ''destination_hash required''), s)
       | Some dest \<Rightarrow>
          (case opt_str (field ''app_data_b64'' body) of
             None \<Rightarrow> (Inr (rest_error 400 ''app_data_b64 must be a string''), s)
           | Some b64 \<Rightarrow> rest_result announce_status 200 (announce_send refused dest b64 s)))"

definition ws_announce_send :: "string option \<Rightarrow> ws_handler" where
  "ws_announce_send refused c msg s =
     (case as_str (field ''destination_hash'' msg) of
        None \<Rightarrow> ws_fail c msg ''destination_hash required'' s
      | Some dest \<Rightarrow>
         (case opt_str (field ''app_data_b64'' msg) of
            None \<Rightarrow> ws_fail c msg ''app_data_b64 must be a string'' s
          | Some b64 \<Rightarrow> ws_result is_announce_error c msg ''announce.send.result'' (announce_send refused dest b64 s)))"

section \<open>Paths\<close>

definition paths_status :: "exn \<Rightarrow> int option" where
  "paths_status e = (if is_paths_error e then Some 400 else None)"

text \<open>\<open>request.rel_url.query.get(k) or None\<close>: an empty parameter is no parameter.\<close>

definition query_str :: "string \<Rightarrow> request \<Rightarrow> json" where
  "query_str k rq =
     (case dict_get (rq_query rq) k of None \<Rightarrow> JNull | Some v \<Rightarrow> if v = [] then JNull else JStr v)"

definition paths_fields :: "exn + json list \<Rightarrow> exn + fields" where
  "paths_fields = map_sum id (\<lambda>ps. [(''paths'', JList ps)])"

definition rest_list_paths :: "bool \<Rightarrow> (json \<Rightarrow> path_entry list option) \<Rightarrow> request \<Rightarrow> sys \<Rightarrow> rest_answer" where
  "rest_list_paths attached get_table rq s =
     (let max_hops =
        (case query_str ''max_hops'' rq of
           JStr raw \<Rightarrow> map_option JInt (py_int raw)
         | _ \<Rightarrow> Some JNull)
      in case max_hops of
           None \<Rightarrow> (Inr (rest_error 400 ''max_hops must be an integer''), s)
         | Some mh \<Rightarrow>
             rest_result paths_status 200
               (paths_fields (list_paths attached get_table (query_str ''destination'' rq) (query_str ''interface'' rq) mh), s))"

text \<open>\<open>timeout is not None and not isinstance(timeout, (int, float))\<close> is the error.\<close>

definition opt_number :: "json \<Rightarrow> rat option option" where
  "opt_number j = (if j = JNull then Some None else map_option Some (as_number j))"

definition rest_request_path ::
  "config \<Rightarrow> rns_env \<Rightarrow> path_answers \<Rightarrow> string option \<Rightarrow> request \<Rightarrow> sys \<Rightarrow> rest_answer" where
  "rest_request_path cfg E A refused rq =
     with_body rq (\<lambda>body s.
       case as_str (field ''destination_hash'' body) of
         None \<Rightarrow> (Inr (rest_error 400 ''destination_hash required''), s)
       | Some dest \<Rightarrow>
          (case opt_number (field ''timeout'' body) of
             None \<Rightarrow> (Inr (rest_error 400 ''timeout must be a number''), s)
           | Some t \<Rightarrow>
              (case request_path cfg E A refused dest t s of
                 (Inr d, s1) \<Rightarrow> (Inr (respond (if field ''found'' d = JBool True then 200 else 408) d), s1)
               | rs \<Rightarrow> rest_result paths_status 200 rs)))"

text \<open>This handler does not look at the session.\<close>

definition ws_paths_query :: "bool \<Rightarrow> (json \<Rightarrow> path_entry list option) \<Rightarrow> world_handler" where
  "ws_paths_query attached get_table c msg w =
     (case list_paths attached get_table (field ''destination'' msg) (field ''interface'' msg) (field ''max_hops'' msg) of
        Inl e \<Rightarrow>
          (if is_paths_error e then (None, conn_send (JObj (ws_error msg (exn_str e))) c w) else (Some e, w))
      | Inr ps \<Rightarrow>
          (None, conn_send (JObj [(''type'', JStr ''paths.query.result''), (''id'', field ''id'' msg),
             (''paths'', JList ps)]) c w))"

definition ws_paths_request :: "config \<Rightarrow> rns_env \<Rightarrow> path_answers \<Rightarrow> string option \<Rightarrow> ws_handler" where
  "ws_paths_request cfg E A refused c msg s =
     (case as_str (field ''destination_hash'' msg) of
        None \<Rightarrow> ws_fail c msg ''destination_hash required'' s
      | Some dest \<Rightarrow>
         (case opt_number (field ''timeout'' msg) of
            None \<Rightarrow> ws_fail c msg ''timeout must be a number'' s
          | Some t \<Rightarrow>
              ws_result is_paths_error c msg ''paths.request.result'' (request_path cfg E A refused dest t s)))"

section \<open>Packets\<close>

definition packet_status :: "string \<Rightarrow> exn \<Rightarrow> int option" where
  "packet_status hint e =
     (if \<not> is_packet_error e then None else if contains hint (exn_str e) then Some 404 else Some 400)"

definition rest_listen :: "request \<Rightarrow> sys \<Rightarrow> rest_answer" where
  "rest_listen rq =
     with_body rq (\<lambda>body s.
       case as_str (field ''destination_hash'' body) of
         None \<Rightarrow> (Inr (rest_error 400 ''destination_hash required''), s)
       | Some dest \<Rightarrow> rest_result (packet_status ''not owned'') 201 (packet_listen dest s))"

definition rest_unlisten :: "request \<Rightarrow> sys \<Rightarrow> rest_answer" where
  "rest_unlisten rq s =
     rest_result (\<lambda>e. if is_packet_error e then Some 404 else None) 200 (packet_unlisten (rq_match rq) s)"

definition listeners_fields :: "sys \<Rightarrow> fields" where
  "listeners_fields s = [(''destination_hashes'', JList (map JStr (list_listeners (ses s))))]"

definition rest_list_listeners :: "request \<Rightarrow> sys \<Rightarrow> rest_answer" where
  "rest_list_listeners rq s = (Inr (respond 200 (listeners_fields s)), s)"

text \<open>
  The checks of a send, in the order of the code, up to the \<open>proof_timeout\<close>, which only REST
  checks: the WebSocket handler hands any value on to RNS.
\<close>

definition check_send :: "bool \<Rightarrow> fields \<Rightarrow> string + (string \<times> string \<times> json list \<times> string \<times> json \<times> rat)" where
  "check_send rest d =
     (case as_str (field ''identity_hash'' d) of
        None \<Rightarrow> Inl ''identity_hash required''
      | Some ih \<Rightarrow>
     (case as_str (field ''app_name'' d) of
        None \<Rightarrow> Inl ''app_name required''
      | Some app \<Rightarrow>
     (case as_list (field_default ''aspects'' (JList []) d) of
        None \<Rightarrow> Inl ''aspects must be a list''
      | Some aspects \<Rightarrow>
     (case as_str (field ''data_b64'' d) of
        None \<Rightarrow> Inl ''data_b64 required''
      | Some b64 \<Rightarrow>
     (if rest \<and> opt_number (field ''proof_timeout'' d) = None then Inl ''proof_timeout must be a number''
      else case opt_number (field ''path_lookup_timeout'' d) of
        None \<Rightarrow> Inl ''path_lookup_timeout must be a number''
      | Some t \<Rightarrow>
          Inr (ih, app, aspects, b64, field ''proof_timeout'' d, case t of None \<Rightarrow> 15 | Some t \<Rightarrow> t))))))"

definition rest_send :: "rns_env \<Rightarrow> send_answer \<Rightarrow> request \<Rightarrow> sys \<Rightarrow> rest_answer" where
  "rest_send E ans rq =
     with_body rq (\<lambda>body s.
       case check_send True body of
         Inl m \<Rightarrow> (Inr (rest_error 400 m), s)
       | Inr (ih, app, aspects, b64, pt, lt) \<Rightarrow>
           rest_result (packet_status ''no known identity'') 200 (packet_send E ans ih app aspects b64 pt lt s))"

definition ws_listen :: ws_handler where
  "ws_listen c msg s =
     (case as_str (field ''destination_hash'' msg) of
        None \<Rightarrow> ws_fail c msg ''destination_hash required'' s
      | Some dest \<Rightarrow> ws_result is_packet_error c msg ''packets.listen.result'' (packet_listen dest s))"

definition ws_unlisten :: ws_handler where
  "ws_unlisten c msg s =
     (case as_str (field ''destination_hash'' msg) of
        None \<Rightarrow> ws_fail c msg ''destination_hash required'' s
      | Some dest \<Rightarrow> ws_result is_packet_error c msg ''packets.unlisten.result'' (packet_unlisten dest s))"

definition ws_listeners :: ws_handler where
  "ws_listeners c msg s =
     (None, reply c ([(''type'', JStr ''packets.listeners.result''), (''id'', field ''id'' msg)] @ listeners_fields s) s)"

definition ws_packet_send :: "rns_env \<Rightarrow> send_answer \<Rightarrow> ws_handler" where
  "ws_packet_send E ans c msg s =
     (case check_send False msg of
        Inl m \<Rightarrow> ws_fail c msg m s
      | Inr (ih, app, aspects, b64, pt, lt) \<Rightarrow>
          ws_result is_packet_error c msg ''packets.send.result'' (packet_send E ans ih app aspects b64 pt lt s))"

section \<open>The handlers answer\<close>

lemma announce_send_polite [polite_intros]: "polite s (snd (announce_send refused h b64 s))"
  by (auto simp: announce_send_def polite_def same_person_def trace_ext_def Let_def split: option.split sum.split)

lemma request_path_polite [polite_intros]: "polite s (snd (request_path cfg E A refused h t s))"
  by (auto simp: request_path_def polite_def same_person_def trace_ext_def Let_def split: option.split)

lemma packet_listen_polite [polite_intros]: "polite s (snd (packet_listen h s))"
  by (auto simp: packet_listen_def polite_def same_person_def trace_ext_def Let_def split: option.split)

lemma packet_unlisten_polite [polite_intros]: "polite s (snd (packet_unlisten h s))"
  by (auto simp: packet_unlisten_def polite_def same_person_def trace_ext_def Let_def split: option.split)

lemma packet_send_polite [polite_intros]: "polite s (snd (packet_send E ans ih app asp b64 pt lt s))"
  by (auto simp: packet_send_def polite_def same_person_def trace_ext_def Let_def split: option.split sum.split prod.split)

lemma ws_announce_send_answered: "answered c s (ws_announce_send refused c msg s)"
  by (auto simp: ws_announce_send_def intro!: answered_intros polite_intros split: option.split)

lemma ws_paths_request_answered: "answered c s (ws_paths_request cfg E A refused c msg s)"
  by (auto simp: ws_paths_request_def intro!: answered_intros polite_intros split: option.split)

lemma ws_listen_answered: "answered c s (ws_listen c msg s)"
  by (auto simp: ws_listen_def intro!: answered_intros polite_intros split: option.split)

lemma ws_unlisten_answered: "answered c s (ws_unlisten c msg s)"
  by (auto simp: ws_unlisten_def intro!: answered_intros polite_intros split: option.split)

lemma ws_listeners_answered: "answered c s (ws_listeners c msg s)"
  by (simp add: ws_listeners_def answered_reply)

lemma ws_packet_send_answered: "answered c s (ws_packet_send E ans c msg s)"
  by (auto simp: ws_packet_send_def intro!: answered_intros polite_intros split: sum.split)

end
