(* ===== verification/Api_Links.thy ===== *)
theory Api_Links
  imports Api Link_Requests
begin

text \<open>
  \<open>handlers/links.py\<close>. The REST open is one call of \<open>open_link\<close>; the WebSocket open answers at
  once and leaves a background task behind, whose life is the subject of \<open>Link_Open\<close>: here it is
  handed back as the task to start.
\<close>

text \<open>\<open>float(x)\<close> on a JSON value; \<open>parse_float\<close> is the interpreter's \<open>float(str)\<close>.\<close>

definition py_float :: "(string \<Rightarrow> rat option) \<Rightarrow> json \<Rightarrow> exn + rat" where
  "py_float parse_float j =
     (case j of
        JStr t \<Rightarrow> (case parse_float t of
                    None \<Rightarrow> Inl (PyExn ''ValueError'' (''could not convert string to float: '' @ py_repr t))
                  | Some r \<Rightarrow> Inr r)
      | _ \<Rightarrow> (case as_number j of
                None \<Rightarrow> Inl (PyExn ''TypeError'' ''float() argument must be a string or a real number'')
              | Some r \<Rightarrow> Inr r))"

text \<open>\<open>_preliminary_snapshot\<close>: the shape of a link snapshot before there is a link.\<close>

definition preliminary_snapshot :: "bytes \<Rightarrow> string \<Rightarrow> fields" where
  "preliminary_snapshot dest aspect =
     [(''link_id'', jhex dest), (''destination_hash'', jhex dest), (''aspect'', JStr aspect),
      (''status'', JStr ''PENDING''), (''mtu'', JNull), (''mdu'', JNull),
      (''remote_identity_hash'', JNull), (''teardown_reason'', JNull)]"

section \<open>REST\<close>

definition open_status :: "exn \<Rightarrow> int option" where
  "open_status e =
     (if \<not> is_link_error e then None
      else if contains ''timed out'' (exn_str e) then Some 408
      else if contains ''no known identity'' (exn_str e) then Some 404 else Some 400)"

definition known_link_status :: "exn \<Rightarrow> int option" where
  "known_link_status e =
     (if \<not> is_link_error e then None else if contains ''unknown link'' (exn_str e) then Some 404 else Some 400)"

definition link_404 :: "exn \<Rightarrow> int option" where
  "link_404 e = (if is_link_error e then Some 404 else None)"

text \<open>The checks of \<open>rest_open_link\<close> once both timeouts are numbers.\<close>

definition check_open :: "fields \<Rightarrow> string option" where
  "check_open d =
     (let ih = field ''identity_hash'' d; dh = field ''destination_hash'' d in
      if ih \<noteq> JNull \<and> as_str ih = None then Some ''identity_hash must be a string''
      else if dh \<noteq> JNull \<and> as_str dh = None then Some ''destination_hash must be a string''
      else if ih = JNull \<and> dh = JNull then Some ''identity_hash or destination_hash required''
      else if as_str (field ''app_name'' d) = None then Some ''app_name required''
      else if as_list (field_default ''aspects'' (JList []) d) = None then Some ''aspects must be a list''
      else None)"

definition rest_open_link ::
  "rns_env \<Rightarrow> rns_identity \<Rightarrow> string option \<Rightarrow> bool option \<Rightarrow> rns_link \<Rightarrow> interleaving \<Rightarrow>
   (string \<Rightarrow> rat option) \<Rightarrow> request \<Rightarrow> sys \<Rightarrow> rest_answer" where
  "rest_open_link E fresh refused rsvc fresh_link I parse_float rq =
     with_body rq (\<lambda>d s.
       case py_float parse_float (field_default ''establishment_timeout'' (JFloat 15) d) of
         Inl e \<Rightarrow> (Inl e, s)
       | Inr et \<Rightarrow>
      (case py_float parse_float (field_default ''path_lookup_timeout'' (JFloat 15) d) of
         Inl e \<Rightarrow> (Inl e, s)
       | Inr pt \<Rightarrow>
      (case check_open d of
         Some m \<Rightarrow> (Inr (rest_error 400 m), s)
       | None \<Rightarrow>
          (let P = \<lparr>op_auto_identify = truthy (field_default ''auto_identify'' (JBool False) d),
                    op_await_established = truthy (field_default ''await_established'' (JBool True) d),
                    op_establishment_timeout = et, op_path_lookup_timeout = pt, op_client_id = JNull\<rparr>;
               (r, s1) = open_link E fresh refused rsvc fresh_link I (field ''identity_hash'' d)
                           (field ''destination_hash'' d) (field ''app_name'' d)
                           (field_default ''aspects'' (JList []) d) P s
           in case r of
                Inl e \<Rightarrow> rest_result open_status 200 (Inl e, s1)
              | Inr res \<Rightarrow> (Inr (respond (if truthy (field ''reused'' res) then 200 else 201) res), s1)))))"

definition rest_list_links :: "request \<Rightarrow> sys \<Rightarrow> rest_answer" where
  "rest_list_links rq s = (Inr (respond 200 [(''links'', JList (list_links s))]), s)"

definition rest_link_status :: "request \<Rightarrow> sys \<Rightarrow> rest_answer" where
  "rest_link_status rq s = rest_result link_404 200 (get_status (rq_match rq) s, s)"

definition rest_close_link :: "request \<Rightarrow> sys \<Rightarrow> rest_answer" where
  "rest_close_link rq s = rest_result link_404 200 (link_close (rq_match rq) s)"

definition rest_identify_link :: "rns_env \<Rightarrow> rns_identity \<Rightarrow> string option \<Rightarrow> request \<Rightarrow> sys \<Rightarrow> rest_answer" where
  "rest_identify_link E fresh refused rq s =
     rest_result known_link_status 200 (link_identify E fresh refused (rq_match rq) s)"

definition rest_send_data :: "string option \<Rightarrow> request \<Rightarrow> sys \<Rightarrow> rest_answer" where
  "rest_send_data refused rq =
     with_body rq (\<lambda>d s.
       case as_str (field ''data_b64'' d) of
         None \<Rightarrow> (Inr (rest_error 400 ''data_b64 required''), s)
       | Some b64 \<Rightarrow> rest_result known_link_status 200 (link_send_data refused (rq_match rq) b64 s))"

text \<open>
  The awaited request: \<open>evs\<close> is what happens to it until the call returns, which it does at the
  deadline at the latest. \<open>unpack\<close> and \<open>pack\<close> are umsgpack's.
\<close>

definition request_answer_status :: "fields \<Rightarrow> int" where
  "request_answer_status d =
     (if field ''kind'' d = JStr ''timeout'' then 408 else if field ''kind'' d = JStr ''failed'' then 502 else 200)"

definition rest_link_request ::
  "(bytes \<Rightarrow> string + json) \<Rightarrow> (json \<Rightarrow> string + bytes) \<Rightarrow> rpc_event list \<Rightarrow> string option \<Rightarrow> request \<Rightarrow> sys \<Rightarrow> rest_answer" where
  "rest_link_request unpack pack evs refused rq =
     with_body rq (\<lambda>d s.
       case as_str (field ''path'' d) of
         None \<Rightarrow> (Inr (rest_error 400 ''path required''), s)
       | Some path \<Rightarrow>
          if field ''timeout'' d \<noteq> JNull \<and> as_number (field ''timeout'' d) = None
          then (Inr (rest_error 400 ''timeout must be a number''), s)
          else (case link_request unpack refused (rq_match rq) path (field ''data_b64'' d) (field ''timeout'' d) True JNull s of
                  (Inl e, s1) \<Rightarrow> rest_result known_link_status 200 (Inl e, s1)
                | (Inr q, s1) \<Rightarrow>
                    (let (q', s2) = rpc_run pack (evs @ [Deadline]) (q, s1) in
                     case request_result (rq_match rq) q' of
                       None \<Rightarrow> (Inl Diverges, s2)
                     | Some res \<Rightarrow> (Inr (respond (request_answer_status res) res), s2))))"

section \<open>WebSocket\<close>

datatype ws_task =
    RunIdentify eref prepared_open json
  | RunContinuation eref prepared_open bool json rat rat

text \<open>
  \<open>ws_open\<close>: the answer to the frame and the task it starts. The identification of a reused link
  and the continuation both run later; a \<open>LinkError\<close> of theirs becomes \<open>link.open.failed\<close>.
\<close>

definition ws_open ::
  "rns_env \<Rightarrow> (string \<Rightarrow> rat option) \<Rightarrow> string \<Rightarrow> fields \<Rightarrow> sys \<Rightarrow> exn option \<times> ws_task option \<times> sys" where
  "ws_open E parse_float c msg s =
     (let cid = field ''id'' msg in
      case prepare_open_link E (field ''identity_hash'' msg) (field ''destination_hash'' msg)
             (field_default ''app_name'' (JStr []) msg) (field_default ''aspects'' (JList []) msg) of
        Inl e \<Rightarrow>
          (if is_link_error e then (let (x, s1) = ws_fail c msg (exn_str e) s in (x, None, s1)) else (Some e, None, s))
      | Inr p \<Rightarrow>
      (case py_float parse_float (field_default ''establishment_timeout'' (JFloat 15) msg) of
         Inl e \<Rightarrow> (Some e, None, s)
       | Inr et \<Rightarrow>
      (case py_float parse_float (field_default ''path_lookup_timeout'' (JFloat 15) msg) of
         Inl e \<Rightarrow> (Some e, None, s)
       | Inr pt \<Rightarrow>
          (let auto = truthy (field_default ''auto_identify'' (JBool False) msg) in
           case reuse_active_link s (pr_destination_hash p) of
             Some e \<Rightarrow>
               (let s1 = upd_entry e (\<lambda>en. en\<lparr>le_open_client_id := cid\<rparr>) s
                in (None,
                    (if auto \<and> \<not> le_identified (entries s e) then Some (RunIdentify e p cid) else None),
                    reply c (merge [(''type'', JStr ''link.open.result''), (''id'', cid), (''sent'', JBool True),
                                    (''reused'', JBool True)] (entry_snapshot s1 (entries s1 e))) s1))
           | None \<Rightarrow>
               (let (e, s1) = reserve_link_slot p cid s
                in (None, Some (RunContinuation e p auto cid et pt),
                    reply c (merge [(''type'', JStr ''link.open.result''), (''id'', cid), (''sent'', JBool True),
                                    (''reused'', JBool False)]
                               (preliminary_snapshot (pr_destination_hash p) (pr_aspect p))) s1))))))"

definition ws_link_op :: "string \<Rightarrow> (string \<Rightarrow> sys \<Rightarrow> (exn + fields) \<times> sys) \<Rightarrow> ws_handler" where
  "ws_link_op kind f c msg s =
     (case as_str (field ''link_id'' msg) of
        None \<Rightarrow> ws_fail c msg ''link_id required'' s
      | Some link_id \<Rightarrow> ws_result is_link_error c msg kind (f link_id s))"

definition ws_close :: ws_handler where
  "ws_close = ws_link_op ''link.close.result'' link_close"

definition ws_identify :: "rns_env \<Rightarrow> rns_identity \<Rightarrow> string option \<Rightarrow> ws_handler" where
  "ws_identify E fresh refused = ws_link_op ''link.identify.result'' (link_identify E fresh refused)"

definition ws_link_status :: ws_handler where
  "ws_link_status = ws_link_op ''link.status.result'' (\<lambda>link_id s. (get_status link_id s, s))"

definition ws_link_send :: "string option \<Rightarrow> ws_handler" where
  "ws_link_send refused c msg s =
     (case (as_str (field ''link_id'' msg), as_str (field ''data_b64'' msg)) of
        (Some link_id, Some b64) \<Rightarrow>
          ws_result is_link_error c msg ''link.send.result'' (link_send_data refused link_id b64 s)
      | _ \<Rightarrow> ws_fail c msg ''link_id and data_b64 required'' s)"

text \<open>The answer says that the request is under way; \<open>rpc\<close> is what stays behind.\<close>

definition ws_request ::
  "(bytes \<Rightarrow> string + json) \<Rightarrow> string option \<Rightarrow> string \<Rightarrow> fields \<Rightarrow> sys \<Rightarrow> exn option \<times> rpc option \<times> sys" where
  "ws_request unpack refused c msg s =
     (case (as_str (field ''link_id'' msg), as_str (field ''path'' msg)) of
        (Some link_id, Some path) \<Rightarrow>
          (case link_request unpack refused link_id path (field ''data_b64'' msg) (field ''timeout'' msg) False
                  (field ''id'' msg) s of
             (Inl e, s1) \<Rightarrow>
               (if is_link_error e then (let (x, s2) = ws_fail c msg (exn_str e) s1 in (x, None, s2)) else (Some e, None, s1))
           | (Inr q, s1) \<Rightarrow>
               (None, Some q,
                reply c [(''type'', JStr ''link.request.result''), (''id'', field ''id'' msg), (''sent'', JBool True),
                         (''path'', JStr path)] s1))
      | _ \<Rightarrow> (let (x, s1) = ws_fail c msg ''link_id and path required'' s in (x, None, s1)))"

definition ws_list_links :: ws_handler where
  "ws_list_links c msg s =
     (None, reply c [(''type'', JStr ''link.list.result''), (''id'', field ''id'' msg), (''links'', JList (list_links s))] s)"

section \<open>The handlers answer\<close>

lemma link_close_polite [polite_intros]: "polite s (snd (link_close h s))"
  by (auto simp: link_close_def pop_open_link_def polite_def same_person_def trace_ext_def split: option.split sum.split)

lemma identify_entry_polite: "polite s (snd (identify_entry E fresh refused e s))"
  by (auto simp: identify_entry_def default_identity_def polite_def same_person_def trace_ext_def Let_def
      split: option.split sum.split prod.split)

lemma link_identify_polite [polite_intros]: "polite s (snd (link_identify E fresh refused h s))"
  by (auto simp: link_identify_def identify_entry_polite split: sum.split)

lemma link_send_data_polite [polite_intros]: "polite s (snd (link_send_data refused h b64 s))"
  by (auto simp: link_send_data_def polite_def same_person_def trace_ext_def Let_def split: option.split sum.split)

lemma link_request_polite [polite_intros]: "polite s (snd (link_request unpack refused h path b64 t aw cid s))"
  by (auto simp: link_request_def polite_def same_person_def trace_ext_def Let_def split: option.split sum.split)

lemma link_request_politeD: "link_request unpack refused h path b64 t aw cid s = (r, s') \<Longrightarrow> polite s s'"
  using link_request_polite [of s unpack refused h path b64 t aw cid] by simp

lemma upd_entry_polite [polite_intros]: "polite s (upd_entry e f s)"
  by (simp add: polite_def same_person_def trace_ext_def)

lemma reserve_link_slot_polite: "reserve_link_slot p cid s = (e, s') \<Longrightarrow> polite s s'"
  by (auto simp: reserve_link_slot_def polite_def same_person_def trace_ext_def Let_def set_open_link_def)

lemma ws_link_op_answered:
  "(\<And>h s. polite s (snd (f h s))) \<Longrightarrow> answered c s (ws_link_op kind f c msg s)"
  by (auto simp: ws_link_op_def intro!: answered_intros split: option.split)

lemma ws_close_answered: "answered c s (ws_close c msg s)"
  by (simp add: ws_close_def ws_link_op_answered link_close_polite)

lemma ws_identify_answered: "answered c s (ws_identify E fresh refused c msg s)"
  by (simp add: ws_identify_def ws_link_op_answered link_identify_polite)

lemma ws_link_status_answered: "answered c s (ws_link_status c msg s)"
  by (simp add: ws_link_status_def ws_link_op_answered)

lemma ws_link_send_answered: "answered c s (ws_link_send refused c msg s)"
  by (auto simp: ws_link_send_def intro!: answered_intros polite_intros split: option.split)

lemma ws_list_links_answered: "answered c s (ws_list_links c msg s)"
  by (simp add: ws_list_links_def answered_reply)

lemma ws_fail_split: "ws_fail c msg m s = (None, reply c (ws_error msg m) s)"
  by (simp add: ws_fail_def)

lemma ws_request_answered: "ws_request unpack refused c msg s = (x, q, s') \<Longrightarrow> answered c s (x, s')"
  by (auto simp: ws_request_def ws_fail_split dest!: link_request_politeD
      intro!: answered_reply answered_raise split: option.splits sum.splits prod.splits if_splits)

lemma ws_open_answered: "ws_open E pf c msg s = (x, t, s') \<Longrightarrow> answered c s (x, s')"
  by (auto simp: ws_open_def ws_fail_split Let_def dest!: reserve_link_slot_polite
      intro!: answered_reply answered_raise upd_entry_polite split: option.splits sum.splits prod.splits if_splits)

end
