(* ===== verification/Api_Resources.thy ===== *)
theory Api_Resources
  imports Api
begin

text \<open>
  \<open>handlers/resources.py\<close>. \<open>now\<close>, \<open>tid\<close> and \<open>ans\<close> are the clock, the random transfer id and the
  answer of \<open>RNS.Resource(...)\<close>; \<open>loop_up\<close> is whether the main loop is set.
\<close>

definition resource_404 :: "exn \<Rightarrow> int option" where
  "resource_404 e = (if is_resource_error e then Some 404 else None)"

section \<open>REST\<close>

definition resource_send_status :: "exn \<Rightarrow> int option" where
  "resource_send_status e =
     (if \<not> is_resource_error e then None
      else if contains ''unknown link'' (exn_str e) then Some 404
      else if contains ''not ACTIVE'' (exn_str e) then Some 409 else Some 400)"

text \<open>\<open>query.get(k, default).lower() in ("1", "true", "yes")\<close>.\<close>

definition query_flag :: "string \<Rightarrow> string \<Rightarrow> request \<Rightarrow> bool" where
  "query_flag k dflt rq \<longleftrightarrow>
     lower (case dict_get (rq_query rq) k of None \<Rightarrow> dflt | Some v \<Rightarrow> v) \<in> {''1'', ''true'', ''yes''}"

definition upload_path :: "string \<Rightarrow> 'a shared_scheme \<Rightarrow> string" where
  "upload_path upload_id s = path_join (sp_resources_dir (store_paths s)) (''upload_'' @ upload_id)"

definition write_upload :: "string \<Rightarrow> bytes \<Rightarrow> sys \<Rightarrow> sys" where
  "write_upload f data s = emit (WriteFile f data) (s\<lparr>res_files := dict_set f data (res_files s)\<rparr>)"

text \<open>
  The parameters are checked before anything is written: \<open>Inl\<close> the error, \<open>Inr\<close> the metadata.
  \<open>parse_float\<close> and \<open>parse_json\<close> are the interpreter's.
\<close>

definition upload_params :: "(string \<Rightarrow> rat option) \<Rightarrow> (string \<Rightarrow> json option) \<Rightarrow> request \<Rightarrow> string + json" where
  "upload_params parse_float parse_json rq =
     (let raw = (\<lambda>k. case dict_get (rq_query rq) k of None \<Rightarrow> [] | Some v \<Rightarrow> v) in
      if raw ''timeout'' \<noteq> [] \<and> parse_float (raw ''timeout'') = None then Inl ''timeout must be a number''
      else if raw ''metadata'' = [] then Inr JNull
      else (case parse_json (raw ''metadata'') of None \<Rightarrow> Inl ''metadata must be JSON'' | Some j \<Rightarrow> Inr j))"

text \<open>
  \<open>waited\<close> is whether the transfer was over before the awaited call timed out, \<open>during\<close> what runs
  in the meantime; a failed upload leaves no file behind.
\<close>

definition rest_send_resource ::
  "(string \<Rightarrow> rat option) \<Rightarrow> (string \<Rightarrow> json option) \<Rightarrow> string \<Rightarrow> rat \<Rightarrow> string \<Rightarrow>
   string + (rref \<times> resource_status) \<Rightarrow> bool \<Rightarrow> (sys \<Rightarrow> sys) \<Rightarrow> request \<Rightarrow> sys \<Rightarrow> rest_answer" where
  "rest_send_resource parse_float parse_json upload_id now tid ans waited during rq s =
     (case upload_params parse_float parse_json rq of
        Inl m \<Rightarrow> (Inr (rest_error 400 m), s)
      | Inr metadata \<Rightarrow>
         (let f = upload_path upload_id s; s1 = rq_meanwhile rq s in
          case rq_content rq of
            Inl m \<Rightarrow> (Inr (rest_error 500 (''upload failed: '' @ m)), unlink_file f s1)
          | Inr data \<Rightarrow>
             (let s2 = write_upload f data s1 in
              if data = [] then (Inr (rest_error 400 ''empty body''), unlink_file f s2)
              else (case resource_send now tid ans (rq_match rq) (SrcPath f) metadata s2 of
                (Inl e, s3) \<Rightarrow>
                  (if is_resource_error e then rest_result resource_send_status 201 (Inl e, unlink_file f s3) else (Inl e, s3))
              | (Inr t, s3) \<Rightarrow>
                  if \<not> query_flag ''await_complete'' ''false'' rq
                  then (Inr (respond 201 (send_reply None t s3)), s3)
                  else (let s4 = during s3; res = send_reply (Some waited) t s4
                        in (Inr (respond (if field ''kind'' res = JStr ''timeout'' then 408
                                          else if field ''kind'' res = JStr ''complete'' then 200 else 502) res), s4))))))"

text \<open>
  \<open>"accept" not in body or not isinstance(body["accept"], bool)\<close>; a list that holds the string
  raises on the subscript, and a number has no membership test. For a string body \<open>in\<close> is a
  substring test and the subscript raises.
\<close>

definition policy_accept :: "json \<Rightarrow> exn + bool option" where
  "policy_accept j =
     (case j of
        JObj d \<Rightarrow> Inr (case dict_get d ''accept'' of None \<Rightarrow> None | Some v \<Rightarrow> as_bool v)
      | JList vs \<Rightarrow> (if JStr ''accept'' \<in> set vs then Inl (PyExn ''TypeError'' ''list indices must be integers or slices, not str'')
                     else Inr None)
      | JStr t \<Rightarrow> (if contains ''accept'' t then Inl (PyExn ''TypeError'' (''string indices must be integers, not '' @ py_repr ''str''))
                   else Inr None)
      | _ \<Rightarrow> Inl (PyExn ''TypeError'' ''argument is not iterable''))"

definition rest_link_policy :: "request \<Rightarrow> sys \<Rightarrow> rest_answer" where
  "rest_link_policy rq =
     with_json rq (\<lambda>body s.
       case policy_accept body of
         Inl e \<Rightarrow> (Inl e, s)
       | Inr None \<Rightarrow> (Inr (rest_error 400 (py_repr ''accept'' @ '' boolean required'')), s)
       | Inr (Some b) \<Rightarrow> rest_result resource_404 200 (set_link_policy (rq_match rq) b s))"

definition rest_list_link_resources :: "request \<Rightarrow> sys \<Rightarrow> rest_answer" where
  "rest_list_link_resources rq s =
     (Inr (respond 200 [(''resources'', JList (list_transfers (Some (rq_match rq)) s))]), s)"

definition rest_list_resources :: "request \<Rightarrow> sys \<Rightarrow> rest_answer" where
  "rest_list_resources rq s = (Inr (respond 200 [(''resources'', JList (list_transfers None s))]), s)"

definition rest_get_resource :: "request \<Rightarrow> sys \<Rightarrow> rest_answer" where
  "rest_get_resource rq s =
     rest_result resource_404 200
       (map_sum id (\<lambda>t. let tr = transfers s t in
          transfer_to_dict s tr
            (if t_direction tr = ''in'' \<and> t_status tr = ''COMPLETE''
             then Some (''/resources/'' @ t_id tr @ ''/data'') else None)) (get_state (rq_match rq) s), s)"

definition rest_download_resource :: "request \<Rightarrow> sys \<Rightarrow> rest_answer" where
  "rest_download_resource rq s =
     (case open_stream (rq_match rq) s of
        Inl e \<Rightarrow>
          (if \<not> is_resource_error e then (Inl e, s)
           else (Inr (rest_error (if contains ''expired'' (exn_str e) then 410 else 404) (exn_str e)), s))
      | Inr f \<Rightarrow> (Inr (File_response f (rq_match rq)), s))"

definition rest_delete_resource :: "bool \<Rightarrow> request \<Rightarrow> sys \<Rightarrow> rest_answer" where
  "rest_delete_resource loop_up rq s = rest_result resource_404 200 (resource_delete loop_up (rq_match rq) s)"

section \<open>WebSocket\<close>

definition ws_resource_send :: "rat \<Rightarrow> string \<Rightarrow> string + (rref \<times> resource_status) \<Rightarrow> ws_handler" where
  "ws_resource_send now tid ans c msg s =
     (case (as_str (field ''link_id'' msg), as_str (field ''data_b64'' msg)) of
        (Some link_id, Some b64) \<Rightarrow>
          (case b64decode b64 of
             Inl m \<Rightarrow> ws_fail c msg (''data_b64 invalid base64: '' @ m) s
           | Inr payload \<Rightarrow>
               (case resource_send now tid ans link_id (SrcBytes payload) (field ''metadata'' msg) s of
                  (Inl e, s1) \<Rightarrow> (if is_resource_error e then ws_fail c msg (exn_str e) s1 else (Some e, s1))
                | (Inr t, s1) \<Rightarrow> (None, reply c (ws_reply msg ''resource.send.result'' (send_reply None t s1)) s1)))
      | _ \<Rightarrow> ws_fail c msg ''link_id and data_b64 required'' s)"

definition ws_list_resources :: ws_handler where
  "ws_list_resources c msg s =
     (None, reply c [(''type'', JStr ''resource.list.result''), (''id'', field ''id'' msg),
        (''resources'', JList (list_transfers None s))] s)"

definition ws_transfer_op :: "string \<Rightarrow> (string \<Rightarrow> sys \<Rightarrow> (exn + fields) \<times> sys) \<Rightarrow> ws_handler" where
  "ws_transfer_op kind f c msg s =
     (case as_str (field ''transfer_id'' msg) of
        None \<Rightarrow> ws_fail c msg ''transfer_id required'' s
      | Some tid \<Rightarrow> ws_result is_resource_error c msg kind (f tid s))"

definition ws_resource_status :: ws_handler where
  "ws_resource_status =
     ws_transfer_op ''resource.status.result''
       (\<lambda>tid s. (map_sum id (\<lambda>t. transfer_to_dict s (transfers s t) None) (get_state tid s), s))"

definition ws_resource_cancel :: "bool \<Rightarrow> ws_handler" where
  "ws_resource_cancel loop_up = ws_transfer_op ''resource.cancel.result'' (resource_delete loop_up)"

definition ws_resource_policy :: ws_handler where
  "ws_resource_policy c msg s =
     (case (as_str (field ''link_id'' msg), as_bool (field ''accept'' msg)) of
        (Some link_id, Some b) \<Rightarrow>
          ws_result is_resource_error c msg ''resource.policy.result'' (set_link_policy link_id b s)
      | _ \<Rightarrow> ws_fail c msg ''link_id and accept required'' s)"

section \<open>The handlers answer\<close>

lemma polite_emit: "polite s t \<Longrightarrow> polite s (emit e t)"
  by (auto simp: polite_def trace_ext_def)

lemma unlink_opt_polite: "polite s t \<Longrightarrow> polite s (unlink_opt f t)"
  by (auto simp: unlink_opt_def polite_def trace_ext_def split: option.split)

lemma upd_transfer_polite: "polite s t \<Longrightarrow> polite s (upd_transfer r f t)"
  by (auto simp: polite_def trace_ext_def)

lemma resource_send_polite [polite_intros]: "polite s (snd (resource_send now tid ans h src md s))"
  by (auto simp: resource_send_def send_on_link_def size_source_def add_transfer_def set_transfer_def
      polite_def same_person_def trace_ext_def Let_def
      split: option.split sum.split send_source.split prod.split)

lemma cancel_transfer_polite: "polite s (cancel_transfer up t s)"
  by (auto simp: cancel_transfer_def Let_def intro!: polite_emit unlink_opt_polite upd_transfer_polite split: option.split)

lemma resource_delete_polite [polite_intros]: "polite s (snd (resource_delete up tid s))"
proof -
  have drop: "polite s (upd_ses (\<lambda>x. x\<lparr>active_transfers := f x\<rparr>) t)" if "polite s t" for f t
    using that by (auto simp: polite_def same_person_def trace_ext_def)
  show ?thesis
    by (auto simp: resource_delete_def Let_def cancel_transfer_polite intro!: drop unlink_opt_polite split: sum.split)
qed

lemma set_link_policy_polite [polite_intros]: "polite s (snd (set_link_policy h b s))"
  by (auto simp: set_link_policy_def polite_def same_person_def trace_ext_def Let_def split: option.split)

lemma resource_send_politeD: "resource_send now tid ans h src md s = (r, s') \<Longrightarrow> polite s s'"
  using resource_send_polite [of s now tid ans h src md] by simp

lemma ws_resource_send_answered: "answered c s (ws_resource_send now tid ans c msg s)"
  by (auto simp: ws_resource_send_def dest: resource_send_politeD intro!: answered_intros
      split: option.split sum.split prod.split)

lemma ws_list_resources_answered: "answered c s (ws_list_resources c msg s)"
  by (simp add: ws_list_resources_def answered_reply)

lemma ws_resource_status_answered: "answered c s (ws_resource_status c msg s)"
  by (auto simp: ws_resource_status_def ws_transfer_op_def intro!: answered_intros split: option.split)

lemma ws_resource_cancel_answered: "answered c s (ws_resource_cancel up c msg s)"
  by (auto simp: ws_resource_cancel_def ws_transfer_op_def intro!: answered_intros polite_intros split: option.split)

lemma ws_resource_policy_answered: "answered c s (ws_resource_policy c msg s)"
  by (auto simp: ws_resource_policy_def intro!: answered_intros polite_intros split: option.split)

end
