(* ===== verification/Server.thy ===== *)
theory Server
  imports Api_Auth Api_Identity Api_Messaging Api_Links Api_Resources
begin

text \<open>
  \<open>build_app\<close> of \<open>server.py\<close> and the \<open>register\<close> functions of the handler modules: the table of
  WebSocket message types and the table of REST routes.
\<close>

section \<open>The application\<close>

text \<open>
  What the answer to one message depends on besides the world: the configuration and the answers
  of RNS and of the interpreter during it.
\<close>

record app_env =
  ae_config :: config
  ae_rns :: rns_env
  ae_fresh :: rns_identity
  ae_refused :: "string option"
  ae_packet :: send_answer
  ae_resource :: "string + (rref \<times> resource_status)"
  ae_attached :: bool
  ae_path_table :: "json \<Rightarrow> path_entry list option"
  ae_path_answers :: path_answers
  ae_unpack :: "bytes \<Rightarrow> string + json"
  ae_parse_float :: "string \<Rightarrow> rat option"
  ae_now :: rat
  ae_random :: string
  ae_loop_up :: bool

text \<open>The answer to the frame; the background task it may start is the subject of \<open>Link_Open\<close> and
  \<open>Link_Requests\<close>.\<close>

definition answer_only :: "(string \<Rightarrow> fields \<Rightarrow> sys \<Rightarrow> exn option \<times> 't option \<times> sys) \<Rightarrow> ws_handler" where
  "answer_only h c msg s = (let (x, _, s1) = h c msg s in (x, s1))"

definition auth_messages :: "app_env \<Rightarrow> (string \<times> world_handler) list" where
  "auth_messages A =
     [(''auth.logout'', ws_logout), (''ping'', ws_ping (ae_now A)), (''session.info'', ws_session_info)]"

definition identity_messages :: "app_env \<Rightarrow> (string \<times> world_handler) list" where
  "identity_messages A =
     [(''identity.create'', lift_ws (ws_create_identity (ae_rns A) (ae_fresh A))),
      (''identity.list'', ws_list_identities (ae_rns A)),
      (''session.active_identity.get'', lift_ws (ws_get_active_identity (ae_rns A))),
      (''session.active_identity.set'', lift_ws (ws_set_active_identity (ae_rns A))),
      (''session.active_identity.clear'', lift_ws ws_clear_active_identity),
      (''destination.list'', lift_ws ws_list_destinations),
      (''destination.add'', lift_ws (ws_add_destination (ae_rns A))),
      (''destination.remove'', lift_ws ws_remove_destination)]"

definition announce_messages :: "app_env \<Rightarrow> (string \<times> world_handler) list" where
  "announce_messages A = [(''announce.send'', lift_ws (ws_announce_send (ae_refused A)))]"

definition path_messages :: "app_env \<Rightarrow> (string \<times> world_handler) list" where
  "path_messages A =
     [(''paths.query'', ws_paths_query (ae_attached A) (ae_path_table A)),
      (''paths.request'', lift_ws (ws_paths_request (ae_config A) (ae_rns A) (ae_path_answers A) (ae_refused A)))]"

definition packet_messages :: "app_env \<Rightarrow> (string \<times> world_handler) list" where
  "packet_messages A =
     [(''packets.listen'', lift_ws ws_listen),
      (''packets.unlisten'', lift_ws ws_unlisten),
      (''packets.listeners'', lift_ws ws_listeners),
      (''packets.send'', lift_ws (ws_packet_send (ae_rns A) (ae_packet A)))]"

definition link_messages :: "app_env \<Rightarrow> (string \<times> world_handler) list" where
  "link_messages A =
     [(''link.open'', lift_ws (answer_only (ws_open (ae_rns A) (ae_parse_float A)))),
      (''link.close'', lift_ws ws_close),
      (''link.identify'', lift_ws (ws_identify (ae_rns A) (ae_fresh A) (ae_refused A))),
      (''link.send'', lift_ws (ws_link_send (ae_refused A))),
      (''link.request'', lift_ws (answer_only (ws_request (ae_unpack A) (ae_refused A)))),
      (''link.status'', lift_ws ws_link_status),
      (''link.list'', lift_ws ws_list_links)]"

definition resource_messages :: "app_env \<Rightarrow> (string \<times> world_handler) list" where
  "resource_messages A =
     [(''resource.send'', lift_ws (ws_resource_send (ae_now A) (ae_random A) (ae_resource A))),
      (''resource.list'', lift_ws ws_list_resources),
      (''resource.status'', lift_ws ws_resource_status),
      (''resource.cancel'', lift_ws (ws_resource_cancel (ae_loop_up A))),
      (''resource.policy'', lift_ws ws_resource_policy)]"

definition ws_table :: "app_env \<Rightarrow> (string \<times> world_handler) list" where
  "ws_table A = auth_messages A @ identity_messages A @ announce_messages A @ path_messages A @ packet_messages A @
     link_messages A @ resource_messages A"

text \<open>The REST routes, in the order in which they are added.\<close>

definition server_routes :: "(string \<times> string) list" where
  "server_routes = [(''GET'', ''/health''), (''GET'', ''/version''), (''GET'', ''/ws'')]"

definition auth_routes :: "(string \<times> string) list" where
  "auth_routes = [(''POST'', ''/auth/login''), (''POST'', ''/auth/logout''), (''GET'', ''/session'')]"

definition identity_routes :: "(string \<times> string) list" where
  "identity_routes =
     [(''POST'', ''/identities''), (''GET'', ''/identities''), (''GET'', ''/identities/{hash}''),
      (''GET'', ''/session/active-identity''), (''PUT'', ''/session/active-identity''),
      (''DELETE'', ''/session/active-identity''), (''GET'', ''/destinations''), (''POST'', ''/destinations''),
      (''DELETE'', ''/destinations/{hash}'')]"

definition announce_routes :: "(string \<times> string) list" where
  "announce_routes = [(''POST'', ''/announce'')]"

definition path_routes :: "(string \<times> string) list" where
  "path_routes = [(''GET'', ''/paths''), (''POST'', ''/paths/request'')]"

definition packet_routes :: "(string \<times> string) list" where
  "packet_routes =
     [(''POST'', ''/packets/listen''), (''DELETE'', ''/packets/listen/{hash}''), (''GET'', ''/packets/listen''),
      (''POST'', ''/packets/send'')]"

definition link_routes :: "(string \<times> string) list" where
  "link_routes =
     [(''POST'', ''/links''), (''GET'', ''/links''), (''GET'', ''/links/{id}''), (''DELETE'', ''/links/{id}''),
      (''POST'', ''/links/{id}/identify''), (''POST'', ''/links/{id}/data''), (''POST'', ''/links/{id}/request'')]"

definition resource_routes :: "(string \<times> string) list" where
  "resource_routes =
     [(''POST'', ''/links/{id}/resources''), (''POST'', ''/links/{id}/resources/policy''),
      (''GET'', ''/links/{id}/resources''), (''GET'', ''/resources''), (''GET'', ''/resources/{transfer_id}''),
      (''GET'', ''/resources/{transfer_id}/data''), (''DELETE'', ''/resources/{transfer_id}'')]"

definition rest_routes :: "(string \<times> string) list" where
  "rest_routes = server_routes @ auth_routes @ identity_routes @ announce_routes @ path_routes @ packet_routes @
     link_routes @ resource_routes"

definition rest_health :: response where
  "rest_health = respond 200 [(''status'', JStr ''ok'')]"

definition rest_version :: "string \<Rightarrow> response" where
  "rest_version version =
     respond 200 [(''name'', JStr ''rnsapid''), (''version'', JStr version),
       (''protocol'', JObj [(''rest'', JInt 1), (''ws'', JInt 1)])]"

section \<open>The table\<close>

lemma ws_table_keys:
  "map fst (ws_table A) =
     [''auth.logout'', ''ping'', ''session.info'', ''identity.create'', ''identity.list'',
      ''session.active_identity.get'', ''session.active_identity.set'', ''session.active_identity.clear'',
      ''destination.list'', ''destination.add'', ''destination.remove'', ''announce.send'', ''paths.query'',
      ''paths.request'', ''packets.listen'', ''packets.unlisten'', ''packets.listeners'', ''packets.send'',
      ''link.open'', ''link.close'', ''link.identify'', ''link.send'', ''link.request'', ''link.status'', ''link.list'',
      ''resource.send'', ''resource.list'', ''resource.status'', ''resource.cancel'', ''resource.policy'']"
  by (simp add: ws_table_def auth_messages_def identity_messages_def announce_messages_def path_messages_def packet_messages_def link_messages_def
      resource_messages_def)

lemma ws_table_distinct: "distinct (map fst (ws_table A))"
  unfolding ws_table_keys by code_simp

lemma build_app_registers: "register_all (ws_table A) [] = Inr (ws_table A)"
  using register_all_distinct [OF ws_table_distinct, of _ "[]"] by simp

text \<open>Every entry either works on the attached session through a handler that answers, or is one of
  the five that work on the world.\<close>

lemma answer_only_answered:
  "(\<And>s x t s'. h c msg s = (x, t, s') \<Longrightarrow> answered c s (x, s')) \<Longrightarrow> answered c s (answer_only h c msg s)"
  by (auto simp: answer_only_def split: prod.split)

lemmas session_handlers_answered =
  ws_create_identity_answered ws_get_active_identity_answered ws_set_active_identity_answered
  ws_clear_active_identity_answered ws_list_destinations_answered ws_add_destination_answered
  ws_remove_destination_answered ws_announce_send_answered ws_paths_request_answered ws_listen_answered
  ws_unlisten_answered ws_listeners_answered ws_packet_send_answered ws_close_answered ws_identify_answered
  ws_link_send_answered ws_link_status_answered ws_list_links_answered ws_resource_send_answered
  ws_list_resources_answered ws_resource_status_answered ws_resource_cancel_answered ws_resource_policy_answered
  answer_only_answered [OF ws_open_answered] answer_only_answered [OF ws_request_answered]

definition world_handlers :: "app_env \<Rightarrow> world_handler set" where
  "world_handlers A =
     {ws_logout, ws_ping (ae_now A), ws_session_info, ws_list_identities (ae_rns A),
      ws_paths_query (ae_attached A) (ae_path_table A)}"

definition table_entry :: "app_env \<Rightarrow> world_handler \<Rightarrow> bool" where
  "table_entry A h \<longleftrightarrow> h \<in> world_handlers A \<or> (\<exists>g. h = lift_ws g \<and> (\<forall>c msg s. answered c s (g c msg s)))"

lemma session_entry: "(\<And>c msg s. answered c s (g c msg s)) \<Longrightarrow> table_entry A (lift_ws g)"
  by (auto simp: table_entry_def)

lemma world_entry: "h \<in> world_handlers A \<Longrightarrow> table_entry A h"
  by (simp add: table_entry_def)

lemma ws_table_cases:
  assumes "dict_get (ws_table A) k = Some h"
  shows "table_entry A h"
proof -
  have "list_all (\<lambda>(_, h). table_entry A h) (ws_table A)"
    by (simp add: ws_table_def auth_messages_def identity_messages_def announce_messages_def path_messages_def packet_messages_def link_messages_def
        resource_messages_def session_entry session_handlers_answered world_entry world_handlers_def)
  with dict_get_in_items [OF assms] show ?thesis by (auto simp: list_all_iff)
qed

section \<open>Every frame is answered\<close>

definition answers :: "string \<Rightarrow> world \<Rightarrow> world \<Rightarrow> bool" where
  "answers c w v \<longleftrightarrow> (\<exists>fs. wire v = wire w @ fs \<and> c \<in> fst ` set fs)"

lemma answers_send: "wire w = wire u \<Longrightarrow> \<not> ws_closed (conns w c) \<Longrightarrow> answers c u (conn_send j c w)"
  by (simp add: answers_def)

lemma answers_more: "answers c w v \<Longrightarrow> wire u = wire v @ fs \<Longrightarrow> answers c w u"
  unfolding answers_def by fastforce

lemma answers_touch: "answers c (ws_touch now c w) v = answers c w v"
  by (simp add: answers_def ws_touch_def split: option.split)

lemma ws_touch_frame [simp]:
  "conns (ws_touch now c w) = conns w" "wire (ws_touch now c w) = wire w" "hub_conns (ws_touch now c w) = hub_conns w"
  "s_id (sessions (ws_touch now c w) r) = s_id (sessions w r)"
  by (simp_all add: ws_touch_def touch_def split: option.split)

lemma ws_touch_steps: "world_steps a w (ws_touch now c w)"
  by (simp add: ws_touch_def world_steps_refl world_steps_one world_step.Touch split: option.split)

lemma lift_ws_wire: "\<exists>fs. wire (snd (lift_ws h c msg w)) = wire w @ fs"
  using on_session_wire by (auto simp: lift_ws_def split: option.split)

lemma lift_ws_conns [simp]: "conns (snd (lift_ws h c msg w)) = conns w"
  by (simp add: lift_ws_def split: option.split)

lemma revoke_wire: "\<exists>fs. wire (snd (registry_revoke app_hooks t m w)) = wire w @ fs"
proof (cases "dict_get (by_token w) t")
  case (Some r)
  have "\<exists>fs. wire (registry_teardown app_hooks m r u) = wire w @ fs" if same: "wire u = wire w" for u
  proof -
    obtain fs where "wire (on_session r (run_hooks app_hooks) u) = wire w @ fs"
      using on_session_wire [of r "run_hooks app_hooks" u] unfolding same by blast
    then show ?thesis
      unfolding registry_teardown_def Let_def fold_close_frame hub_send_session_def
      by (cases "s_id (sessions (on_session r (run_hooks app_hooks) u) r) = []")
        simp_all
  qed
  then show ?thesis by (simp add: registry_revoke_def Some Let_def)
qed (simp add: registry_revoke_def)

text \<open>What a handler of the table does to the world of its connection.\<close>

definition well_attached :: "string \<Rightarrow> world \<Rightarrow> bool" where
  "well_attached c w \<longleftrightarrow>
     \<not> ws_closed (conns w c) \<and>
     (\<exists>r. ws_session (conns w c) = Some r \<and> s_id (sessions w r) \<noteq> [] \<and>
        c \<in> set (session_connections (s_id (sessions w r)) w))"

definition answered_in :: "auth_config \<Rightarrow> string \<Rightarrow> world \<Rightarrow> exn option \<times> world \<Rightarrow> bool" where
  "answered_in a c w xv \<longleftrightarrow>
     world_steps a w (snd xv) \<and>
     (case fst xv of
        None \<Rightarrow> answers c w (snd xv)
      | Some _ \<Rightarrow> conns (snd xv) = conns w \<and> (\<exists>fs. wire (snd xv) = wire w @ fs))"

lemma answered_in_send: "\<not> ws_closed (conns w c) \<Longrightarrow> answered_in a c w (None, conn_send j c w)"
  by (simp add: answered_in_def answers_send world_steps_one world_step.Send)

lemma answered_in_raise: "answered_in a c w (Some e, w)"
  by (simp add: answered_in_def world_steps_refl)

lemma logout_answered:
  assumes "\<not> ws_closed (conns w c)"
  shows "answered_in a c w (ws_logout c msg w)"
proof -
  have "answered_in a c w (None, snd (registry_revoke app_hooks t m (conn_send j c w)))" for t m j
  proof -
    obtain fs where fs: "wire (snd (registry_revoke app_hooks t m (conn_send j c w))) = wire (conn_send j c w) @ fs"
      using revoke_wire by blast
    show ?thesis
      using answers_more [OF answers_send [OF refl assms] fs]
        world_steps_snoc [OF world_steps_one [OF world_step.Send] world_step.Revoke]
      by (simp add: answered_in_def)
  qed
  then show ?thesis using assms by (simp add: ws_logout_def answered_in_send split: option.split)
qed

lemma ping_answered: "\<not> ws_closed (conns w c) \<Longrightarrow> answered_in a c w (ws_ping now c msg w)"
  by (simp add: ws_ping_def answered_in_def answers_send world_steps_snoc [OF ws_touch_steps world_step.Send])

lemma world_handler_answered:
  assumes "h \<in> world_handlers A" and "\<not> ws_closed (conns w c)"
  shows "answered_in a c w (h c msg w)"
  using assms
  by (auto simp: world_handlers_def logout_answered ping_answered ws_session_info_def ws_list_identities_def
      ws_paths_query_def answered_in_send answered_in_raise split: option.split sum.split)

lemma lifted_answered:
  assumes "\<And>c msg s. answered c s (g c msg s)" and "well_attached c w"
  shows "answered_in a c w (lift_ws g c msg w)"
proof -
  obtain r where r: "ws_session (conns w c) = Some r" "\<not> ws_closed (conns w c)" "s_id (sessions w r) \<noteq> []"
    "c \<in> set (session_connections (s_id (sessions w r)) w)"
    using assms(2) by (auto simp: well_attached_def)
  obtain fs where fs: "wire (snd (lift_ws g c msg w)) = wire w @ fs" using lift_ws_wire by blast
  show ?thesis
  proof (cases "fst (lift_ws g c msg w)")
    case None
    obtain j where "(c, j) \<in> set (drop (length (wire w)) (wire (snd (lift_ws g c msg w))))"
      using lift_ws_answers [OF assms(1) r(1,2,3,4) None] by blast
    then have "answers c w (snd (lift_ws g c msg w))" using fs by (force simp: answers_def)
    with None show ?thesis using lift_ws_step [where h = g and msg = msg, OF assms(1)] by (simp add: answered_in_def)
  next
    case (Some e)
    then show ?thesis using lift_ws_step [where h = g and msg = msg, OF assms(1)] fs by (auto simp: answered_in_def)
  qed
qed

section \<open>What the router needs of a table\<close>

text \<open>
  The contract between the router and the handlers: a handler of the table, called for a frame of an
  attached socket, answers it or raises, and what it does to the world are steps of the registry.
\<close>

locale message_table =
  fixes table :: "(string, world_handler) dict"
  assumes handler_answers: "dict_get table k = Some h \<Longrightarrow> well_attached c w \<Longrightarrow> answered_in a c w (h c msg w)"
    and handler_steps: "dict_get table k = Some h \<Longrightarrow> world_steps a w (snd (h c msg w))"
begin

lemma dispatch_answers:
  assumes "well_attached c w"
  shows "answers c w (dispatch table c msg w) \<and> world_steps a w (dispatch table c msg w)"
proof -
  have open': "\<not> ws_closed (conns w c)" using assms by (simp add: well_attached_def)
  have send: "answers c w (conn_send j c w) \<and> world_steps a w (conn_send j c w)" for j
    using answered_in_send [OF open'] by (simp add: answered_in_def)
  show ?thesis
  proof (cases "as_str (field ''type'' msg)")
    case (Some k)
    show ?thesis
    proof (cases "dict_get table k")
      case h: (Some h)
      then have "answered_in a c w (h c msg w)" using handler_answers assms by blast
      moreover obtain x v where xv: "h c msg w = (x, v)" by fastforce
      ultimately have xv_ok: "answered_in a c w (x, v)" by simp
      show ?thesis
      proof (cases x)
        case None
        with xv_ok show ?thesis by (simp add: dispatch_def Some h xv answered_in_def)
      next
        case e: (Some e)
        let ?u = "conn_send (JObj (router_error ''internal'' k msg)) c v"
        obtain fs where "wire v = wire w @ fs" "conns v = conns w" "world_steps a w v"
          using xv_ok e by (auto simp: answered_in_def)
        then have "answers c w ?u" "world_steps a w ?u"
          using open' world_steps_snoc [OF _ world_step.Send] by (simp_all add: answers_def)
        then show ?thesis by (simp add: dispatch_def Some h xv e)
      qed
    qed (use send in \<open>simp add: dispatch_def Some\<close>)
  qed (use send in \<open>simp add: dispatch_def\<close>)
qed

lemma ws_frame_answers:
  assumes "well_attached c w"
  shows "answers c w (ws_frame table now c frame w) \<and> world_steps a w (ws_frame table now c frame w)"
proof -
  have send: "answers c w (conn_send j c w) \<and> world_steps a w (conn_send j c w)" for j
    using assms answered_in_send [of w c a j] by (simp add: answered_in_def well_attached_def)
  have "session_connections i (ws_touch now c w) = session_connections i w" for i
    by (simp only: session_connections_def ws_touch_frame)
  then have "well_attached c (ws_touch now c w)" using assms by (simp add: well_attached_def)
  note d = dispatch_answers [OF this, of _ a]
  have "answers c w (dispatch table c msg (ws_touch now c w)) \<and>
      world_steps a w (dispatch table c msg (ws_touch now c w))" for msg
    using d [of msg] world_steps_trans [OF ws_touch_steps] unfolding answers_touch by blast
  with send show ?thesis by (simp add: ws_frame_def split: option.split)
qed

lemma ws_frame_steps: "world_steps a w (ws_frame table now c frame w)"
proof -
  have send: "world_steps a u (conn_send j c u)" for u j by (rule world_steps_one [OF world_step.Send])
  have "world_steps a u (dispatch table c msg u)" for msg u
  proof (cases "as_str (field ''type'' msg)")
    case (Some k)
    show ?thesis
    proof (cases "dict_get table k")
      case h: (Some h)
      obtain x v where xv: "h c msg u = (x, v)" by fastforce
      have "world_steps a u v" using handler_steps [OF h, of a u c msg] by (simp add: xv)
      then show ?thesis
        using world_steps_snoc [OF _ world_step.Send] by (cases x) (simp_all add: dispatch_def Some h xv)
    qed (use send in \<open>simp add: dispatch_def Some\<close>)
  qed (use send in \<open>simp add: dispatch_def\<close>)
  then have "world_steps a w (dispatch table c msg (ws_touch now c w))" for msg
    by (rule world_steps_trans [OF ws_touch_steps])
  with send show ?thesis by (simp add: ws_frame_def split: option.split)
qed

lemma ws_frames_steps:
  "list_all (\<lambda>(m, _). \<forall>w. world_steps a w (m w)) frames \<Longrightarrow> world_steps a w (ws_frames table c frames w)"
proof (induction frames arbitrary: w)
  case (Cons x frames)
  obtain m now frame where x: "x = (m, now, frame)" by (cases x)
  have m: "world_steps a w (m w)" using Cons.prems x by simp
  have "world_steps a (m w) (ws_frames table c frames (ws_frame table now c frame (m w)))"
    by (rule world_steps_trans [OF ws_frame_steps Cons.IH]) (use Cons.prems in simp)
  with m show ?case by (simp add: x Let_def world_steps_trans [OF m])
qed (simp add: world_steps_refl)

end

text \<open>The table that \<open>build_app\<close> fills keeps the contract.\<close>

lemma entry_steps:
  assumes "table_entry A h"
  shows "world_steps a w (snd (h c msg w))"
proof -
  have send: "world_steps a u (conn_send j c u)" for u j by (rule world_steps_one [OF world_step.Send])
  have "world_steps a w (snd (ws_logout c msg w))"
    using send [of w] world_steps_snoc [OF send world_step.Revoke]
    by (simp add: ws_logout_def split: option.split)
  moreover have "world_steps a w (snd (ws_ping (ae_now A) c msg w))"
    using world_steps_snoc [OF ws_touch_steps world_step.Send] by (simp add: ws_ping_def)
  ultimately show ?thesis
    using assms send lift_ws_step
    by (auto simp: table_entry_def world_handlers_def ws_session_info_def ws_list_identities_def ws_paths_query_def
        world_steps_refl split: option.split sum.split)
qed

lemma entry_answered:
  assumes "table_entry A h" and "well_attached c w"
  shows "answered_in a c w (h c msg w)"
proof -
  have "\<not> ws_closed (conns w c)" using assms(2) by (simp add: well_attached_def)
  then show ?thesis
    using assms(1) world_handler_answered lifted_answered [OF _ assms(2)] by (auto simp: table_entry_def)
qed

interpretation app_table: message_table "ws_table A" for A
  by unfold_locales (use ws_table_cases entry_answered entry_steps in blast)+

lemma attached_well:
  assumes "world_ok w" and "ws_session (conns w c) = Some r" and "\<not> ws_closed (conns w c)"
  shows "well_attached c w"
proof -
  have "r < next_sref w" "c \<in> set (hub_conns w)" using assms unfolding world_ok_def conns_ok_def by blast+
  moreover have "s_id (sessions w r) \<noteq> []" using \<open>r < next_sref w\<close> assms(1) registry_okD(11) by (auto simp: world_ok_def)
  ultimately show ?thesis using assms(2,3) by (simp add: well_attached_def session_connections_def)
qed

text \<open>C1. Whatever text frame a client sends on an attached, open socket (no JSON, no object, no type, an
  unknown type, any of the thirty message types with any fields, a handler that raises), the client gets a
  frame back on that very socket, the connection's loop goes on, and the daemon's registry keeps its invariant.\<close>

theorem every_frame_answered:
  assumes "world_steps a (start_world b) w" and "ws_session (conns w c) = Some r" and "\<not> ws_closed (conns w c)"
  shows "(\<exists>fs j. wire (ws_frame (ws_table A) now c frame w) = wire w @ fs \<and> (c, j) \<in> set fs) \<and>
    world_ok (ws_frame (ws_table A) now c frame w)"
proof -
  note ok = reachable_world_ok [OF assms(1)]
  note f = app_table.ws_frame_answers [OF attached_well [OF ok assms(2,3)], of A now frame]
  then have "answers c w (ws_frame (ws_table A) now c frame w)" by blast
  then show ?thesis using f world_steps_ok ok by (fastforce simp: answers_def)
qed

section \<open>A connection from its first to its last moment\<close>

lemma ws_finally_steps: "world_steps a w (ws_finally c w)"
proof -
  let ?u = "case ws_session (conns w c) of None \<Rightarrow> w
        | Some r \<Rightarrow> hub_send_session (s_id (sessions w r)) (connected_event ''auth.session.disconnected'' (sessions w r) c) w"
  have "world_steps a w ?u"
    by (cases "ws_session (conns w c)") (simp_all add: world_steps_refl world_steps_one [OF hub_send_step])
  then have "world_steps a w (hub_unregister c (conn_detach c ?u))"
    by (rule world_steps_snoc [OF _ world_step.Disconnect])
  then show ?thesis unfolding ws_finally_def Let_def .
qed

lemma ws_finally_gone:
  "ws_session (conns (ws_finally c w) c) = None \<and> c \<notin> set (hub_conns (ws_finally c w))"
  by (auto simp: ws_finally_def conn_detach_def hub_unregister_def Let_def split: option.split)

text \<open>C4. Whatever a client does on a connection, and whatever the daemon does around it, when its handler
  returns the hub no longer knows the connection, it is attached to no session and no session lists it, and
  the registry still satisfies its invariant.\<close>

theorem connection_leaves_nothing:
  assumes "world_steps a (start_world b) w" and "c \<notin> set (hub_conns w)" and "leaves_alone a c waiting"
    and "list_all (\<lambda>(m, _). \<forall>w. world_steps a w (m w)) frames" and "\<not> enabled a \<longrightarrow> fresh_names token sid w"
    and "v = ws_connection a token sid (ws_table A) c now waiting frame frames w"
  shows "c \<notin> set (hub_conns v) \<and> ws_session (conns v c) = None \<and>
    (\<forall>r < next_sref v. c \<notin> set (ws_connections (sessions v r))) \<and> world_ok v"
proof -
  have ok: "world_ok w" using assms(1) by (rule reachable_world_ok)
  obtain res w1 where res: "ws_handshake a token sid now c waiting frame w = (res, w1)" by fastforce
  have hs: "world_steps a w w1"
    using ws_handshake_steps [OF ok assms(2,3), of token sid now frame] assms(5) res by simp
  define u where "u = (if res = Inr True then ws_frames (ws_table A) c frames w1 else w1)"
  have v: "v = ws_finally c u"
    using assms(6) res by (auto simp: ws_connection_def u_def split: sum.splits bool.splits)
  have "world_steps a w u"
    using hs world_steps_trans [OF hs app_table.ws_frames_steps [OF assms(4)]] by (simp add: u_def)
  then have "world_steps a w v" unfolding v by (rule world_steps_trans [OF _ ws_finally_steps])
  then have vok: "world_ok v" using ok by (rule world_steps_ok)
  moreover have "ws_session (conns v c) = None" "c \<notin> set (hub_conns v)" using ws_finally_gone by (simp_all add: v)
  moreover have "c \<notin> set (ws_connections (sessions v r))" if "r < next_sref v" for r
    using vok that \<open>ws_session (conns v c) = None\<close> unfolding world_ok_def conns_ok_def by (metis option.distinct(1))
  ultimately show ?thesis by blast
qed

section \<open>Witnesses\<close>

theorem connection_leaves_nothing_witness:
  "\<forall>A. ws_session (conns (ws_connection short_auth [] [] (ws_table A) ''c9'' 100 id
      (FirstText (Some (JObj [(''type'', JStr ''auth''), (''token'', JStr ''t1'')])))
      [(id, 101, Some (JObj [(''type'', JStr ''ping'')])), (id, 102, None)] two_sessions) ''c9'') = None"
proof
  fix A
  let ?v = "ws_connection short_auth [] [] (ws_table A) ''c9'' 100 id
      (FirstText (Some (JObj [(''type'', JStr ''auth''), (''token'', JStr ''t1'')])))
      [(id, 101, Some (JObj [(''type'', JStr ''ping'')])), (id, 102, None)] two_sessions"
  have "''c9'' \<notin> set (hub_conns two_sessions)" by (simp add: two_sessions_simps)
  moreover have "leaves_alone short_auth ''c9'' id" by (simp add: leaves_alone_def world_steps_refl)
  moreover have "list_all (\<lambda>(m, _). \<forall>w. world_steps short_auth w (m w))
      [(id, 101 :: rat, Some (JObj [(''type'', JStr ''ping'')])), (id, 102, None)]" by (simp add: world_steps_refl)
  moreover have "\<not> enabled short_auth \<longrightarrow> fresh_names [] [] two_sessions" by (simp add: short_auth_def)
  ultimately show "ws_session (conns ?v ''c9'') = None"
    using connection_leaves_nothing [OF two_sessions_reachable, of "''c9''" short_auth id _ "[]" "[]" ?v A 100] by blast
qed

theorem every_frame_answered_witness:
  "\<forall>A. \<exists>j. (''c1'', j) \<in> set (wire (ws_frame (ws_table A) 60 ''c1'' (Some (JObj [(''type'', JStr ''ping'')])) two_sessions))"
proof
  fix A
  show "\<exists>j. (''c1'', j) \<in> set (wire (ws_frame (ws_table A) 60 ''c1'' (Some (JObj [(''type'', JStr ''ping'')])) two_sessions))"
    using every_frame_answered [OF two_sessions_reachable, of "''c1''" "Suc 0" A 60 "Some (JObj [(''type'', JStr ''ping'')])"]
    by (auto simp: two_sessions_simps)
qed

end
