(* ===== verification/Bridge.thy ===== *)
theory Bridge
  imports Prelude
begin

text \<open>
  \<open>async_bridge.py\<close>: callbacks on RNS threads hand coroutines to the event loop. Before the loop
  runs they are buffered, at most \<open>_COROUTINES_MAX\<close> of them; afterwards each is scheduled at once
  and its future is kept until it is done. The two locks make every operation one atomic step.

  A coroutine is any value \<open>'c\<close>. The future of the \<open>n\<close>-th scheduled coroutine is \<open>n\<close>, and \<open>done\<close>
  says which futures have finished.
\<close>

section \<open>The bridge\<close>

definition coroutines_max :: nat where "coroutines_max = 256"
definition futures_sweep_threshold :: nat where "futures_sweep_threshold = 32"

text \<open>\<open>br_loop\<close>: the main loop, if set, and whether it is running.\<close>

record 'c bridge =
  br_loop :: "bool option"
  br_pending :: "'c list"
  br_futures :: "nat list"
  br_scheduled :: "'c list"

definition bridge0 :: "'c bridge" where
  "bridge0 = \<lparr>br_loop = None, br_pending = [], br_futures = [], br_scheduled = []\<rparr>"

definition last_n :: "nat \<Rightarrow> 'a list \<Rightarrow> 'a list" where
  "last_n n xs = drop (length xs - n) xs"

definition run_async :: "(nat \<Rightarrow> bool) \<Rightarrow> 'c \<Rightarrow> 'c bridge \<Rightarrow> 'c bridge" where
  "run_async finished c b =
     (if br_loop b = Some True
      then (let fs = br_futures b @ [length (br_scheduled b)]
            in b\<lparr>br_scheduled := br_scheduled b @ [c],
                 br_futures := (if futures_sweep_threshold \<le> length fs then filter (\<lambda>f. \<not> finished f) fs else fs)\<rparr>)
      else (let cs = br_pending b @ [c]
            in b\<lparr>br_pending := (if coroutines_max < length cs then last_n coroutines_max cs else cs)\<rparr>))"

definition set_main_loop :: "(nat \<Rightarrow> bool) \<Rightarrow> bool \<Rightarrow> 'c bridge \<Rightarrow> 'c bridge" where
  "set_main_loop finished running b =
     fold (run_async finished) (br_pending b) (b\<lparr>br_loop := Some running, br_pending := []\<rparr>)"

definition clear_main_loop :: "'c bridge \<Rightarrow> 'c bridge" where
  "clear_main_loop b = b\<lparr>br_loop := None\<rparr>"

section \<open>What it promises\<close>

text \<open>
  The specification is a queue that forgets the oldest: coroutines submitted while the loop is
  down wait, and when the loop comes up the last \<open>coroutines_max\<close> of them run first, in order.
\<close>

datatype 'c bridge_event = Submit 'c | LoopUp bool | LoopDown

record 'c lossy =
  lq_up :: bool
  lq_waiting :: "'c list"
  lq_run :: "'c list"

definition lossy0 :: "'c lossy" where
  "lossy0 = \<lparr>lq_up = False, lq_waiting = [], lq_run = []\<rparr>"

fun lossy_step :: "'c bridge_event \<Rightarrow> 'c lossy \<Rightarrow> 'c lossy" where
  "lossy_step (Submit c) q =
     (if lq_up q then q\<lparr>lq_run := lq_run q @ [c]\<rparr> else q\<lparr>lq_waiting := lq_waiting q @ [c]\<rparr>)"
| "lossy_step (LoopUp running) q =
     (if running
      then q\<lparr>lq_up := True, lq_run := lq_run q @ last_n coroutines_max (lq_waiting q), lq_waiting := []\<rparr>
      else q\<lparr>lq_up := False\<rparr>)"
| "lossy_step LoopDown q = q\<lparr>lq_up := False\<rparr>"

fun bridge_step :: "(nat \<Rightarrow> bool) \<Rightarrow> 'c bridge_event \<Rightarrow> 'c bridge \<Rightarrow> 'c bridge" where
  "bridge_step finished (Submit c) b = run_async finished c b"
| "bridge_step finished (LoopUp running) b = set_main_loop finished running b"
| "bridge_step finished LoopDown b = clear_main_loop b"

text \<open>Each event of a run comes with the futures that have finished by then.\<close>

definition bridge_run :: "((nat \<Rightarrow> bool) \<times> 'c bridge_event) list \<Rightarrow> 'c bridge \<Rightarrow> 'c bridge" where
  "bridge_run es b = fold (\<lambda>(d, e) b. bridge_step d e b) es b"

definition lossy_run :: "'c bridge_event list \<Rightarrow> 'c lossy \<Rightarrow> 'c lossy" where
  "lossy_run es q = fold lossy_step es q"

text \<open>The coupling of the two states.\<close>

definition bridge_sim :: "'c bridge \<Rightarrow> 'c lossy \<Rightarrow> bool" where
  "bridge_sim b q \<longleftrightarrow>
     lq_up q = (br_loop b = Some True) \<and> br_pending b = last_n coroutines_max (lq_waiting q) \<and>
     br_scheduled b = lq_run q \<and> (lq_up q \<longrightarrow> lq_waiting q = [])"

section \<open>Lemmas\<close>

lemma last_n_short [simp]: "length xs \<le> n \<Longrightarrow> last_n n xs = xs"
  by (simp add: last_n_def)

lemma length_last_n [simp]: "length (last_n n xs) = min n (length xs)"
  by (simp add: last_n_def)

text \<open>Forgetting early or late makes no difference.\<close>

lemma last_n_snoc: "last_n n (last_n n xs @ [x]) = last_n n (xs @ [x])"
  by (cases "length xs \<le> n") (auto simp: last_n_def Suc_diff_le)

lemma run_async_up:
  assumes "br_loop b = Some True"
  shows "br_loop (run_async d c b) = Some True" "br_pending (run_async d c b) = br_pending b"
    "br_scheduled (run_async d c b) = br_scheduled b @ [c]"
  using assms by (simp_all add: run_async_def Let_def)

lemma run_async_down:
  assumes "br_loop b \<noteq> Some True"
  shows "br_loop (run_async d c b) = br_loop b" "br_pending (run_async d c b) = last_n coroutines_max (br_pending b @ [c])"
    "br_scheduled (run_async d c b) = br_scheduled b"
  using assms by (simp_all add: run_async_def Let_def)

lemma fold_run_async_up:
  "br_loop b = Some True \<Longrightarrow>
   br_loop (fold (run_async d) cs b) = Some True \<and> br_pending (fold (run_async d) cs b) = br_pending b \<and>
   br_scheduled (fold (run_async d) cs b) = br_scheduled b @ cs"
  by (induction cs arbitrary: b) (auto simp: run_async_up)

lemma fold_run_async_down:
  "br_loop b \<noteq> Some True \<Longrightarrow> length (br_pending b) + length cs \<le> coroutines_max \<Longrightarrow>
   br_loop (fold (run_async d) cs b) = br_loop b \<and> br_pending (fold (run_async d) cs b) = br_pending b @ cs \<and>
   br_scheduled (fold (run_async d) cs b) = br_scheduled b"
  by (induction cs arbitrary: b) (auto simp: run_async_down)

lemma bridge_sim0: "bridge_sim bridge0 lossy0"
  by (simp add: bridge_sim_def bridge0_def lossy0_def)

lemma bridge_sim_step: "bridge_sim b q \<Longrightarrow> bridge_sim (bridge_step d e b) (lossy_step e q)"
proof (cases e)
  case (Submit c)
  assume sim: "bridge_sim b q"
  show ?thesis
  proof (cases "br_loop b = Some True")
    case True
    with sim show ?thesis by (simp add: Submit bridge_sim_def run_async_up)
  next
    case False
    with sim show ?thesis by (auto simp: Submit bridge_sim_def run_async_down last_n_snoc)
  qed
next
  case (LoopUp running)
  assume sim: "bridge_sim b q"
  let ?b = "b\<lparr>br_loop := Some running, br_pending := []\<rparr>"
  show ?thesis
  proof (cases running)
    case True
    with sim fold_run_async_up [of ?b d "br_pending b"] show ?thesis
      by (simp add: LoopUp bridge_sim_def set_main_loop_def)
  next
    case False
    have "length (br_pending b) \<le> coroutines_max" using sim by (simp add: bridge_sim_def)
    with False sim fold_run_async_down [of ?b "br_pending b" d] show ?thesis
      by (auto simp: LoopUp bridge_sim_def set_main_loop_def)
  qed
next
  case LoopDown
  assume "bridge_sim b q"
  then show ?thesis by (simp add: LoopDown bridge_sim_def clear_main_loop_def)
qed

lemma bridge_sim_run: "bridge_sim b q \<Longrightarrow> bridge_sim (bridge_run es b) (lossy_run (map snd es) q)"
  unfolding bridge_run_def lossy_run_def
  by (induction es arbitrary: b q) (auto simp: bridge_sim_step split: prod.split)


subsection \<open>Futures\<close>

text \<open>
  A future that has not finished is referenced by the bridge (asyncio itself keeps no strong
  reference), and when 32 or more are kept then none of them had finished at the last sweep.
\<close>

definition futures_ok :: "(nat \<Rightarrow> bool) \<Rightarrow> 'c bridge \<Rightarrow> bool" where
  "futures_ok finished b \<longleftrightarrow>
     (\<forall>f < length (br_scheduled b). \<not> finished f \<longrightarrow> f \<in> set (br_futures b)) \<and>
     set (br_futures b) \<subseteq> {..<length (br_scheduled b)} \<and> distinct (br_futures b)"

lemma futures_ok_mono: "futures_ok d b \<Longrightarrow> (\<And>f. d f \<Longrightarrow> d' f) \<Longrightarrow> futures_ok d' b"
  unfolding futures_ok_def by blast

lemma run_async_futures: "futures_ok d b \<Longrightarrow> futures_ok d (run_async d c b)"
  by (auto simp: futures_ok_def run_async_def Let_def less_Suc_eq)

lemma fold_run_async_futures: "futures_ok d b \<Longrightarrow> futures_ok d (fold (run_async d) cs b)"
  by (induction cs arbitrary: b) (auto intro: run_async_futures)

lemma bridge_step_futures: "futures_ok d b \<Longrightarrow> futures_ok d (bridge_step d e b)"
proof (cases e)
  case (LoopUp running)
  assume "futures_ok d b"
  then have "futures_ok d (b\<lparr>br_loop := Some running, br_pending := []\<rparr>)" by (simp add: futures_ok_def)
  then show ?thesis by (simp add: LoopUp set_main_loop_def fold_run_async_futures)
next
  case (Submit c)
  then show "futures_ok d b \<Longrightarrow> futures_ok d (bridge_step d e b)" by (simp add: run_async_futures)
next
  case LoopDown
  then show "futures_ok d b \<Longrightarrow> futures_ok d (bridge_step d e b)" by (simp add: futures_ok_def clear_main_loop_def)
qed

text \<open>Finished futures stay finished along a run.\<close>

fun finishing :: "((nat \<Rightarrow> bool) \<times> 'e) list \<Rightarrow> bool" where
  "finishing ((d, _) # (d', e') # es) = ((\<forall>f. d f \<longrightarrow> d' f) \<and> finishing ((d', e') # es))"
| "finishing _ = True"

lemma bridge_run_futures:
  "finishing es \<Longrightarrow> es \<noteq> [] \<Longrightarrow> futures_ok (fst (hd es)) b \<Longrightarrow> futures_ok (fst (last es)) (bridge_run es b)"
proof (induction es arbitrary: b rule: finishing.induct [case_names step none one])
  case (step d x d' e' es)
  have "futures_ok d (bridge_step d x b)" using step by (simp add: bridge_step_futures)
  then have "futures_ok d' (bridge_step d x b)" using step by (auto intro: futures_ok_mono)
  with step show ?case by (simp add: bridge_run_def)
next
  case (one p)
  then show ?case by (cases p) (simp add: bridge_run_def bridge_step_futures)
qed simp



end
