(* ===== verification/Spec2Isabelle.thy ===== *)
theory Spec2Isabelle
  imports Daemon Server Bridge
begin

text \<open>
  A verification development for \<^verbatim>\<open>rnsapid\<close>, the daemon under \<^verbatim>\<open>src/src/rnsapi\<close> that offers a Reticulum
  network stack (RNS) to clients over REST and WebSocket. Paths below are relative to that directory.

  \<^bold>\<open>The program.\<close> One process, one event loop. \<^verbatim>\<open>cli.py\<close> reads the configuration, starts RNS and runs
  \<^verbatim>\<open>server.py\<close>, which builds one aiohttp application: services under \<^verbatim>\<open>rns/\<close> that wrap RNS (identities,
  destinations, announces, paths, packets, links, resources), a registry of sessions with their WebSocket
  connections (\<^verbatim>\<open>auth/\<close>, \<^verbatim>\<open>ws/\<close>), and the handlers under \<^verbatim>\<open>handlers/\<close>, which offer every operation twice, as a
  REST route and as a WebSocket message. A session owns what it created; when it ends, everything it owns is
  torn down. RNS calls back on its own threads; \<^verbatim>\<open>async_bridge.py\<close> hands these calls to the loop.

  \<^bold>\<open>How it is modelled.\<close> State is passed explicitly. \<^verbatim>\<open>Model\<close> has the record \<open>shared\<close>: stores, files, the
  objects of RNS by reference (links, link entries, transfers are mutable objects that several places hold, so
  they live in stores indexed by \<open>eref\<close>, \<open>lref\<close>, \<open>tref\<close>), and \<open>trace\<close>, the outward actions in order:
  calls of RNS (\<open>Rns\<close>), frames and events for clients, file operations. \<open>sys\<close> is the shared part with one
  session, on which a service operation works; \<open>Sessions.world\<close> has all sessions, both indexes of the
  registry, the connections and the frames on the wire. An operation that can raise returns \<open>exn + 'a\<close> with
  the state it leaves; an \<open>exn\<close> carries the class the code catches and the text it shows. A coroutine that
  awaits is cut at its awaits: what other tasks do in between is a function or a list of events of the model
  (\<open>rq_meanwhile\<close>, \<open>interleaving\<close>, \<open>waiting\<close>), or the coroutine is a step relation (\<open>Link_Open\<close>).

  Not under \<^verbatim>\<open>src/\<close>, hence parameters: RNS (\<open>rns_env\<close> and the answers of single calls), the key derivation
  (\<open>kdf\<close>), the clock, random strings, umsgpack, \<^verbatim>\<open>float(str)\<close>, the X.509 and TLS libraries, configparser on
  arbitrary files, the operating system's path resolution. What is assumed of them is a named predicate
  (\<open>make_destination_ok\<close>, \<open>identity_files_ok\<close>, \<open>kdf_length\<close>, ...); \<open>Identities\<close> holds a concrete
  environment that satisfies those of RNS, for the witnesses.

  \<^bold>\<open>The theories.\<close>

  \<^item> \<^verbatim>\<open>Prelude\<close>: dictionaries and ordered sets of Python with the locales \<open>py_mapping\<close> and \<open>py_set\<close>,
    interpreted on them; exceptions. \<^verbatim>\<open>PyStr\<close>, \<^verbatim>\<open>Base64\<close>, \<^verbatim>\<open>Json\<close>: strings, hex, \<^verbatim>\<open>int(str)\<close>, strict base64,
    JSON values and messages.
  \<^item> \<^verbatim>\<open>Config\<close> (\<^verbatim>\<open>config.py\<close>, \<^verbatim>\<open>server.build_ssl\<close>, \<^verbatim>\<open>server.run\<close>): sections, validation, which sites are
    opened with which certificate; \<open>loaded_config_serves_safely\<close>. \<^verbatim>\<open>Default_Config\<close>: the text that
    \<^verbatim>\<open>--init\<close> writes, read back and loaded: it is the default configuration. \<^verbatim>\<open>Daemon\<close> (\<^verbatim>\<open>cli.py\<close>, \<^verbatim>\<open>tls.py\<close>,
    \<^verbatim>\<open>logging_setup.py\<close>, \<^verbatim>\<open>rns/service.py\<close>, start-up and clean-up in \<^verbatim>\<open>server.py\<close>): one run of the command from
    its arguments to its exit status.
  \<^item> \<^verbatim>\<open>Model\<close>: the state, the actions and the locale \<open>cleanup_hook\<close>: what a service promises about the
    end of a session. \<^verbatim>\<open>Passwords\<close> (\<^verbatim>\<open>auth/passwords.py\<close>), \<^verbatim>\<open>Identities\<close>, \<^verbatim>\<open>Destinations\<close>, \<^verbatim>\<open>Announces\<close>,
    \<^verbatim>\<open>Path_Table\<close>, \<^verbatim>\<open>Packets\<close>: one service of \<^verbatim>\<open>rns/\<close> each, with \<^verbatim>\<open>Service_Common\<close> for what they share.
  \<^item> \<^verbatim>\<open>Links\<close>, \<^verbatim>\<open>Link_Requests\<close>, \<^verbatim>\<open>Link_Open\<close> (\<^verbatim>\<open>rns/links.py\<close>): the link table and the awaited REST open; a
    request with its two callbacks and its watchdog as a machine over events; the background tasks of
    WebSocket opens as the step relation \<open>lo_step\<close>, interleaved with RNS, closes and teardown.
  \<^item> \<^verbatim>\<open>Resources\<close> (\<^verbatim>\<open>rns/resources.py\<close>): transfers in both directions, progress, files, sweep.
  \<^item> \<^verbatim>\<open>Sessions\<close> (\<^verbatim>\<open>auth/session.py\<close>, \<^verbatim>\<open>ws/hub.py\<close>, \<^verbatim>\<open>ws/connection.py\<close>): registry, connections, fan-out, expiry,
    teardown by the four hooks, each an interpretation of \<open>cleanup_hook\<close>; the step relation \<open>world_step\<close> and
    its invariant \<open>world_ok\<close>.
  \<^item> \<^verbatim>\<open>Bridge\<close> (\<^verbatim>\<open>async_bridge.py\<close>): the buffer and the futures, refining a lossy queue.
  \<^item> \<^verbatim>\<open>Api\<close> (\<^verbatim>\<open>ws/router.py\<close> and the patterns of all handlers), \<^verbatim>\<open>Api_Identity\<close>, \<^verbatim>\<open>Api_Messaging\<close>,
    \<^verbatim>\<open>Api_Links\<close>, \<^verbatim>\<open>Api_Resources\<close>, \<^verbatim>\<open>Api_Auth\<close> (\<^verbatim>\<open>handlers/\<close>, \<^verbatim>\<open>auth/middleware.py\<close>, the connection handler of
    \<^verbatim>\<open>server.py\<close>): every REST and WebSocket handler. \<^verbatim>\<open>Server\<close>: the message and route tables of \<^verbatim>\<open>build_app\<close>.

  \<^bold>\<open>What is shown.\<close> Who gets in: the REST gate and the WebSocket handshake (\<open>Api_Auth\<close>). That every frame is
  answered on its socket and keeps the registry's invariant, for every message type at once: the router's
  contract is the locale \<open>message_table\<close>, interpreted on the table of \<^verbatim>\<open>build_app\<close>; and that a connection leaves
  nothing behind when its handler returns (\<open>Server\<close>). The registry in every reachable
  world: open sockets have live sessions, events stay inside a session, revocation and expiry end exactly the
  sessions they should, teardown runs in the order of dependence (\<open>Sessions\<close>). The tables of links,
  listeners, receipts and transfers: invariants under every operation, order and completeness of the reports
  to the client, termination of the waits (\<open>Links\<close> to \<open>Resources\<close>, \<open>Packets\<close>). Round trips of
  destinations, identities, passwords. Agreement of the two front ends (\<open>rest_ws_agree\<close>). The life of the
  process (\<open>Daemon\<close>). Some properties state what goes wrong: a response after its failure, a transfer that
  comes back, a link that outlives its session, a placeholder that stays, an identity switched under a
  session that owns destinations.

  \<^bold>\<open>Loops and fuel.\<close> The polling loops of an awaited path or link (\<open>poll_until\<close>) run on fuel, one unit for every
  poll interval of the timeout and one more (\<open>poll_fuel\<close>); \<open>poll_until_returns\<close> shows that this is enough
  whenever a sleep takes at least as long as asked for (\<open>clock_advances\<close>), and the properties about waits
  rest on it. In \<open>Link_Open\<close> the same loops are steps whose deadline may pass at any time. The loops over time
  of the reaper, the sweep and the pollers are one iteration each, repeated by the environment.

  \<^bold>\<open>Not modelled.\<close> The access log and log lines; aiohttp's URL matching, HTTP and WebSocket framing, heartbeat
  and time limits (they show as a closed socket); JSON text (messages are JSON values); the running time of
  \<^verbatim>\<open>compare_digest\<close>; argparse; a signal that arrives before all sites are open; the continuation lines and
  interpolation of configparser. Python strings are lists of 8-bit characters, floats are rationals.
\<close>

end
